(* ===== verification/Prelude.thy ===== *)
theory Prelude
  imports Main "HOL-Library.Char_ord" "HOL-Library.List_Lexorder" "HOL-Library.Word"
begin

text \<open>
  Shared vocabulary of the development: byte strings, Go maps and their iteration order,
  the outcome of a Go call that may block or panic, error results, the idiom "collect a set
  of strings, then \<^verbatim>\<open>sort.Strings\<close>", and \<^verbatim>\<open>strings.TrimSpace\<close>.
\<close>

type_synonym bytes = string
type_synonym u32 = "32 word"

named_theorems outcome_simps \<open>rules that run the outcome of a Go call\<close>
named_theorems order_simps \<open>rules about range loops over Go maps\<close>

section \<open>Go maps and range loops\<close>

text \<open>
  A Go map value is \<open>None\<close> when it is nil and \<open>Some m\<close> otherwise. Reading a nil map finds
  nothing; writing to it panics, which is why the code replaces it by a fresh map first.
\<close>

type_synonym ('k, 'v) gomap = "('k \<rightharpoonup> 'v) option"

definition or_make :: "('k, 'v) gomap \<Rightarrow> ('k \<rightharpoonup> 'v)" where
  "or_make a = (case a of None \<Rightarrow> Map.empty | Some m \<Rightarrow> m)"

lemma or_make_simps [simp]: "or_make None = Map.empty" "or_make (Some m) = m"
  by (simp_all add: or_make_def)

text \<open>
  The order in which \<^verbatim>\<open>for k, v := range m\<close> visits the keys is chosen anew by the runtime at
  each loop. A loop takes the order as an argument: a list of keys, each key of the map once.
\<close>

definition is_order :: "'k list \<Rightarrow> ('k \<rightharpoonup> 'v) \<Rightarrow> bool" where
  "is_order ks m \<longleftrightarrow> distinct ks \<and> set ks = dom m"

definition range_over :: "'k list \<Rightarrow> ('k \<rightharpoonup> 'v) \<Rightarrow> ('k \<times> 'v) list" where
  "range_over ks m = List.map_filter (\<lambda>k. map_option (Pair k) (m k)) ks"

lemma range_over_simps [simp]:
  "range_over [] m = []"
  "range_over (k # ks) m = (case m k of None \<Rightarrow> range_over ks m | Some v \<Rightarrow> (k, v) # range_over ks m)"
  by (simp_all add: range_over_def map_filter_simps split: option.split)

lemma set_range_over [order_simps]: "set (range_over ks m) = {(k, v). k \<in> set ks \<and> m k = Some v}"
  by (induction ks) (auto split: option.splits)

lemma distinct_range_over: "distinct ks \<Longrightarrow> distinct (map fst (range_over ks m))"
  by (induction ks) (auto simp: set_range_over split: option.splits)

lemma set_range_over_order [order_simps]:
  "is_order ks m \<Longrightarrow> set (range_over ks m) = {(k, v). m k = Some v}"
  by (auto simp: set_range_over is_order_def)

lemma map_of_range_over [order_simps]: "is_order ks m \<Longrightarrow> map_of (range_over ks m) = m"
proof
  fix k assume ord: "is_order ks m"
  then have d: "distinct (map fst (range_over ks m))"
    by (simp add: is_order_def distinct_range_over)
  show "map_of (range_over ks m) k = m k"
  proof (cases "m k")
    case None
    then have "k \<notin> fst ` set (range_over ks m)" by (auto simp: set_range_over)
    then show ?thesis using None by (simp add: map_of_eq_None_iff)
  next
    case (Some v)
    then have "(k, v) \<in> set (range_over ks m)"
      using ord by (simp add: set_range_over_order)
    then show ?thesis using d Some by (simp add: map_of_is_SomeI)
  qed
qed

lemma is_order_Nil [simp]: "is_order [] m \<longleftrightarrow> m = Map.empty"
  by (auto simp: is_order_def)

lemma is_order_single [simp]: "is_order [k] [k \<mapsto> v]"
  by (simp add: is_order_def)

lemma is_order_finite: "is_order ks m \<Longrightarrow> finite (dom m)"
  by (metis is_order_def List.finite_set)

lemma is_order_exists: "finite (dom m) \<Longrightarrow> \<exists>ks. is_order ks m"
  unfolding is_order_def using finite_distinct_list by metis

text \<open>\<^verbatim>\<open>delete(m, k)\<close> for every key of a list.\<close>

definition delete_keys :: "'k list \<Rightarrow> ('k \<rightharpoonup> 'v) \<Rightarrow> ('k \<rightharpoonup> 'v)" where
  "delete_keys ks m = fold (\<lambda>k m. m(k := None)) ks m"

lemma delete_keys_apply [simp]: "delete_keys ks m k = (if k \<in> set ks then None else m k)"
  unfolding delete_keys_def by (induction ks arbitrary: m) auto

lemma delete_keys_Nil [simp]: "delete_keys [] m = m"
  by (simp add: delete_keys_def)

lemma delete_keys_Cons: "delete_keys (k # ks) m = delete_keys ks (m(k := None))"
  by (simp add: delete_keys_def)

text \<open>Storing a list of entries from left to right: later entries win.\<close>

definition store_all :: "('k \<times> 'v) list \<Rightarrow> ('k \<rightharpoonup> 'v) \<Rightarrow> ('k \<rightharpoonup> 'v)" where
  "store_all kvs m = fold (\<lambda>(k, v) m. m(k \<mapsto> v)) kvs m"

lemma store_all_simps [simp]:
  "store_all [] m = m"
  "store_all ((k, v) # kvs) m = store_all kvs (m(k \<mapsto> v))"
  by (simp_all add: store_all_def)

lemma store_all_map_of: "store_all kvs m = m ++ map_of (rev kvs)"
  by (induction kvs arbitrary: m) (auto simp: map_add_def fun_eq_iff split: option.splits)

lemma store_all_apply: "store_all kvs m k = (case map_of (rev kvs) k of None \<Rightarrow> m k | Some v \<Rightarrow> Some v)"
  by (simp add: store_all_map_of map_add_def)

lemma store_all_append [simp]: "store_all (xs @ ys) m = store_all ys (store_all xs m)"
  by (simp add: store_all_def)

lemma dom_store_all: "dom (store_all kvs m) = dom m \<union> fst ` set kvs"
  by (auto simp: store_all_map_of dom_map_add dom_map_of_conv_image_fst)

lemma store_all_same: "(\<And>k v. (k, v) \<in> set kvs \<Longrightarrow> m k = Some v) \<Longrightarrow> store_all kvs m = m"
proof (induction kvs arbitrary: m)
  case (Cons x kvs)
  obtain k v where x: "x = (k, v)" by (cases x)
  have "m k = Some v" using Cons.prems[of k v] by (simp add: x)
  then have "m(k \<mapsto> v) = m" by (simp add: fun_upd_idem)
  then show ?case using Cons by (simp add: x)
qed simp

section \<open>Outcomes\<close>

text \<open>
  A call on the server returns, blocks (a send on a full channel, made while a mutex is held)
  or panics, which ends the process.
\<close>

datatype 'a outcome = Ok 'a | Blocked | Panic string

fun and_then :: "'a outcome \<Rightarrow> ('a \<Rightarrow> 'b outcome) \<Rightarrow> 'b outcome" where
  "and_then (Ok x) f = f x"
| "and_then Blocked f = Blocked"
| "and_then (Panic e) f = Panic e"

lemma and_then_Ok_iff [outcome_simps]: "and_then x f = Ok y \<longleftrightarrow> (\<exists>z. x = Ok z \<and> f z = Ok y)"
  by (cases x) auto

lemma and_then_assoc: "and_then (and_then x f) g = and_then x (\<lambda>z. and_then (f z) g)"
  by (cases x) auto

section \<open>Sets of strings, sorted\<close>

text \<open>
  The code collects keys in a \<^verbatim>\<open>map[string]struct{}\<close>, ranges over it into a slice and calls
  \<^verbatim>\<open>sort.Strings\<close>. Whatever the order of the range loop, the result is the sorted enumeration
  of the set, which is how the model writes it. Strings compare by bytes.
\<close>

lemma sort_enumeration: "distinct ks \<Longrightarrow> set ks = S \<Longrightarrow> sort ks = sorted_list_of_set S"
  by (metis distinct_remdups_id sorted_list_of_set_sort_remdups)

section \<open>Joining strings\<close>

text \<open>\<^verbatim>\<open>strings.Join\<close>, with the separator first.\<close>

fun join :: "string \<Rightarrow> string list \<Rightarrow> string" where
  "join sep [] = []"
| "join sep [x] = x"
| "join sep (x # y # xs) = x @ sep @ join sep (y # xs)"

lemma join_Cons: "xs \<noteq> [] \<Longrightarrow> join sep (x # xs) = x @ sep @ join sep xs"
  by (cases xs) auto

lemma join_append: "xs \<noteq> [] \<Longrightarrow> ys \<noteq> [] \<Longrightarrow> join sep (xs @ ys) = join sep xs @ sep @ join sep ys"
  by (induction sep xs rule: join.induct) (auto simp: join_Cons)

lemma set_join: "set (join sep xs) \<subseteq> set sep \<union> \<Union> (set ` set xs)"
  by (induction sep xs rule: join.induct) auto

lemma append_sep_eq:
  "c \<notin> set x \<Longrightarrow> c \<notin> set y \<Longrightarrow> x @ c # u = y @ c # v \<longleftrightarrow> x = y \<and> u = v"
  by (induction x y rule: list_induct2') auto

lemma append_last_sep_eq:
  assumes "c \<notin> set u" and "c \<notin> set v"
  shows "x @ c # u = y @ c # v \<longleftrightarrow> x = y \<and> u = v"
proof
  assume "x @ c # u = y @ c # v"
  then have "rev (x @ c # u) = rev (y @ c # v)" by (rule arg_cong)
  then show "x = y \<and> u = v" using assms append_sep_eq [of c "rev u" "rev v" "rev x" "rev y"] by simp
qed simp

text \<open>A separator that is in no part can be read back.\<close>

lemma join_single_inj:
  "join [c] xs = join [c] ys \<Longrightarrow> xs \<noteq> [] \<Longrightarrow> ys \<noteq> []
   \<Longrightarrow> \<forall>x \<in> set xs. c \<notin> set x \<Longrightarrow> \<forall>y \<in> set ys. c \<notin> set y \<Longrightarrow> xs = ys"
proof (induction "[c]" xs arbitrary: ys rule: join.induct)
  case (2 x)
  show ?case
  proof (cases ys rule: remdups_adj.cases)
    case (3 y z zs)
    have "c \<in> set (join [c] ys)" by (simp add: 3)
    moreover have "c \<notin> set (join [c] [x])" using 2 by simp
    ultimately show ?thesis using "2.prems"(1) by metis
  qed (use 2 in auto)
next
  case (3 x x' xs)
  show ?case
  proof (cases ys rule: remdups_adj.cases)
    case (2 y)
    have "c \<in> set (join [c] (x # x' # xs))" by simp
    moreover have "c \<notin> set (join [c] ys)" using 2 "3.prems" by simp
    ultimately show ?thesis using "3.prems"(1) by metis
  next
    case ys: (3 y z zs)
    have "x @ c # join [c] (x' # xs) = y @ c # join [c] (z # zs)" using "3.prems"(1) by (simp add: ys)
    then have "x = y" "join [c] (x' # xs) = join [c] (z # zs)"
      using "3.prems" by (simp_all add: append_sep_eq ys)
    then show ?thesis using "3.hyps" [of "z # zs"] "3.prems" by (simp add: ys)
  qed (use 3 in simp)
qed simp

section \<open>Trimming white space\<close>

text \<open>
  \<^verbatim>\<open>strings.TrimSpace\<close> removes leading and trailing Unicode white space. The runes for which
  \<^verbatim>\<open>unicode.IsSpace\<close> holds, as UTF-8 byte sequences:
\<close>

definition space_runes :: "string list" where
  "space_runes =
     map (\<lambda>b. [char_of (b :: nat)]) [9, 10, 11, 12, 13, 32]
     @ map (map (char_of :: nat \<Rightarrow> char))
       ([[0xC2, 0x85], [0xC2, 0xA0], [0xE1, 0x9A, 0x80]]
        @ map (\<lambda>b. [0xE2, 0x80, b]) [0x80, 0x81, 0x82, 0x83, 0x84, 0x85, 0x86, 0x87, 0x88, 0x89, 0x8A]
        @ [[0xE2, 0x80, 0xA8], [0xE2, 0x80, 0xA9], [0xE2, 0x80, 0xAF], [0xE2, 0x81, 0x9F], [0xE3, 0x80, 0x80]])"

fun strip :: "string \<Rightarrow> string \<Rightarrow> string option" where
  "strip [] s = Some s"
| "strip (c # r) [] = None"
| "strip (c # r) (d # s) = (if c = d then strip r s else None)"

fun strip_any :: "string list \<Rightarrow> string \<Rightarrow> string option" where
  "strip_any [] s = None"
| "strip_any (r # rs) s =
     (case strip r s of
        Some t \<Rightarrow> if length t < length s then Some t else strip_any rs s
      | None \<Rightarrow> strip_any rs s)"

lemma strip_Some: "strip r s = Some t \<longleftrightarrow> s = r @ t"
  by (induction r s rule: strip.induct) auto

lemma strip_any_shorter: "strip_any rs s = Some t \<Longrightarrow> length t < length s"
  by (induction rs) (auto split: option.splits if_splits)

function trim_with :: "string list \<Rightarrow> string \<Rightarrow> string" where
  "trim_with rs s = (case strip_any rs s of None \<Rightarrow> s | Some t \<Rightarrow> trim_with rs t)"
  by pat_completeness auto
termination
  by (relation "measure (\<lambda>(rs, s). length s)") (auto dest: strip_any_shorter)

declare trim_with.simps [simp del]

definition TrimLeftSpace :: "string \<Rightarrow> string" where
  "TrimLeftSpace s = trim_with space_runes s"

definition TrimSpace :: "string \<Rightarrow> string" where
  "TrimSpace s = rev (trim_with (map rev space_runes) (rev (TrimLeftSpace s)))"

lemma strip_any_None: "strip_any rs s = None \<longleftrightarrow> (\<forall>r \<in> set rs. r \<noteq> [] \<longrightarrow> strip r s = None)"
  by (induction rs) (auto simp: strip_Some split: option.splits)

lemma strip_any_prefix: "strip_any rs (t @ u) = None \<Longrightarrow> strip_any rs t = None"
proof -
  assume none: "strip_any rs (t @ u) = None"
  have "strip r t = None" if "r \<in> set rs" "r \<noteq> []" for r
  proof (cases "strip r t")
    case (Some v)
    then have "strip r (t @ u) = Some (v @ u)" by (simp add: strip_Some)
    moreover have "strip r (t @ u) = None" using none that by (simp add: strip_any_None)
    ultimately show ?thesis by simp
  qed
  then show ?thesis by (simp add: strip_any_None)
qed

lemma trim_with_trimmed: "strip_any rs (trim_with rs s) = None"
proof (induction rs s rule: trim_with.induct)
  case (1 rs s)
  then show ?case by (cases "strip_any rs s") (simp_all add: trim_with.simps [of rs s])
qed

lemma trim_with_id: "strip_any rs s = None \<Longrightarrow> trim_with rs s = s"
  by (subst trim_with.simps) simp

lemma trim_with_suffix: "\<exists>u. s = u @ trim_with rs s"
proof (induction rs s rule: trim_with.induct)
  case (1 rs s)
  show ?case
  proof (cases "strip_any rs s")
    case None
    then show ?thesis by (simp add: trim_with_id)
  next
    case (Some t)
    then have "\<exists>r. s = r @ t"
      by (induction rs) (auto simp: strip_Some split: option.splits if_splits)
    then show ?thesis using "1" [OF Some] Some
      by (metis append.assoc option.case(2) trim_with.simps)
  qed
qed

lemma TrimSpace_prefix: "\<exists>u. TrimLeftSpace s = TrimSpace s @ u"
  unfolding TrimSpace_def by (metis rev_append rev_rev_ident trim_with_suffix)

lemma TrimSpace_idem [simp]: "TrimSpace (TrimSpace s) = TrimSpace s"
proof -
  obtain u where u: "TrimLeftSpace s = TrimSpace s @ u" using TrimSpace_prefix by blast
  have "strip_any space_runes (TrimLeftSpace s) = None"
    by (simp add: TrimLeftSpace_def trim_with_trimmed)
  then have "strip_any space_runes (TrimSpace s) = None"
    by (metis u strip_any_prefix)
  then have left: "TrimLeftSpace (TrimSpace s) = TrimSpace s"
    by (simp add: TrimLeftSpace_def trim_with_id)
  have "strip_any (map rev space_runes) (rev (TrimSpace s)) = None"
    by (simp add: TrimSpace_def trim_with_trimmed)
  then show ?thesis by (subst TrimSpace_def) (simp add: left trim_with_id)
qed

lemma TrimSpace_Nil [simp]: "TrimSpace [] = []"
proof -
  have "strip_any rs [] = None" for rs by (induction rs) (auto simp: strip_Some split: option.splits)
  then show ?thesis by (simp add: TrimSpace_def TrimLeftSpace_def trim_with_id)
qed

text \<open>Text that starts and ends with printable ASCII is left alone.\<close>

definition printable :: "char \<Rightarrow> bool" where
  "printable c \<longleftrightarrow> 33 \<le> (of_char c :: nat) \<and> (of_char c :: nat) \<le> 126"

lemma space_runes_not_printable:
  "\<forall>r \<in> set space_runes. r \<noteq> [] \<and> \<not> printable (hd r) \<and> \<not> printable (last r)"
  by (simp add: space_runes_def printable_def)

lemma strip_any_printable:
  "\<forall>r \<in> set rs. r \<noteq> [] \<and> \<not> printable (hd r) \<Longrightarrow> s \<noteq> [] \<Longrightarrow> printable (hd s) \<Longrightarrow> strip_any rs s = None"
  by (auto simp: strip_any_None) (metis hd_append2 not_None_eq strip_Some)

lemma TrimSpace_printable: "s \<noteq> [] \<Longrightarrow> printable (hd s) \<Longrightarrow> printable (last s) \<Longrightarrow> TrimSpace s = s"
proof -
  assume s: "s \<noteq> []" "printable (hd s)" "printable (last s)"
  have "strip_any space_runes s = None"
    by (rule strip_any_printable) (use s space_runes_not_printable in auto)
  moreover have "strip_any (map rev space_runes) (rev s) = None"
    by (rule strip_any_printable) (use s space_runes_not_printable in \<open>auto simp: hd_rev\<close>)
  ultimately show ?thesis by (simp add: TrimSpace_def TrimLeftSpace_def trim_with_id)
qed

lemma TrimSpace_space: "TrimSpace (CHR '' '' # s) = TrimSpace s"
proof -
  have blank: "char_of n = CHR '' '' \<longleftrightarrow> n mod 256 = 32" for n :: nat
    by (subst of_char_eq_iff [symmetric, where 'a = nat]) simp
  have "strip_any space_runes (CHR '' '' # s) = Some s" by (simp add: space_runes_def blank)
  then show ?thesis by (simp add: TrimSpace_def TrimLeftSpace_def trim_with.simps [of _ "CHR '' '' # s"])
qed

end
