(* ===== verification/GoTime.thy ===== *)
theory GoTime
  imports Prelude
begin

text \<open>
  What the code uses of Go's \<^verbatim>\<open>time\<close> package. A \<^verbatim>\<open>time.Time\<close> is a wall clock reading and, when it
  comes from \<^verbatim>\<open>time.Now\<close>, a monotonic reading. A \<^verbatim>\<open>time.Duration\<close> is an int64 number of
  nanoseconds, written here as an \<open>int\<close>. The wall clock counts nanoseconds since 1 January 1885,
  the epoch of the packed form in which a time with a monotonic reading is kept.
\<close>

record gotime =
  wall :: int
  mono :: "int option"

definition fits_int64 :: "int \<Rightarrow> bool" where
  "fits_int64 i \<longleftrightarrow> - (2 ^ 63) \<le> i \<and> i < 2 ^ 63"

definition ns_per_second :: int where
  "ns_per_second = 1000000000"

definition minutes :: "int \<Rightarrow> int" where
  "minutes n = n * 60 * ns_per_second"

text \<open>
  \<^verbatim>\<open>Time.Add\<close>: the monotonic reading is dropped when the wall clock second leaves its 33 bits or
  the reading itself overflows.
\<close>

definition time_add :: "gotime \<Rightarrow> int \<Rightarrow> gotime" where
  "time_add t d =
     (let w = wall t + d; sec = w div ns_per_second
      in case mono t of
           None \<Rightarrow> \<lparr>wall = w, mono = None\<rparr>
         | Some m \<Rightarrow>
             if 0 \<le> sec \<and> sec \<le> 2 ^ 33 - 1 \<and> fits_int64 (m + d)
             then \<lparr>wall = w, mono = Some (m + d)\<rparr>
             else \<lparr>wall = w, mono = None\<rparr>)"

text \<open>\<^verbatim>\<open>Time.After\<close>: monotonic readings are compared when both times have one.\<close>

definition time_after :: "gotime \<Rightarrow> gotime \<Rightarrow> bool" where
  "time_after t u =
     (case (mono t, mono u) of
        (Some a, Some b) \<Rightarrow> a > b
      | _ \<Rightarrow> wall t > wall u)"

text \<open>
  A later reading of the process's clock: neither clock has gone back. The monotonic clock never
  does; the wall clock may be stepped by an administrator.
\<close>

definition clock_le :: "gotime \<Rightarrow> gotime \<Rightarrow> bool" where
  "clock_le t u \<longleftrightarrow> wall t \<le> wall u \<and>
     (case (mono t, mono u) of (Some a, Some b) \<Rightarrow> a \<le> b | (None, None) \<Rightarrow> True | _ \<Rightarrow> False)"

lemma clock_le_refl [simp]: "clock_le t t"
  by (simp add: clock_le_def split: option.splits)

lemma wall_time_add [simp]: "wall (time_add t d) = wall t + d"
  by (simp add: time_add_def Let_def split: option.splits)

lemma time_after_irrefl [simp]: "\<not> time_after t t"
  by (simp add: time_after_def split: option.splits)

lemma time_after_later:
  "clock_le t u \<Longrightarrow> time_after t e \<Longrightarrow> time_after u e"
  by (auto simp: time_after_def clock_le_def split: option.splits)

text \<open>Within the time to live, both clocks agree that the deadline has not passed.\<close>

lemma not_after_deadline:
  assumes "wall u \<le> wall t + d" and "\<And>a b. mono t = Some a \<Longrightarrow> mono u = Some b \<Longrightarrow> b \<le> a + d"
  shows "\<not> time_after u (time_add t d)"
proof (cases "mono t")
  case None
  then show ?thesis using assms(1) by (auto simp: time_after_def time_add_def split: option.splits)
next
  case (Some a)
  show ?thesis
  proof (cases "mono u")
    case None
    then show ?thesis using assms(1) by (auto simp: time_after_def split: option.splits)
  next
    case u: (Some b)
    then show ?thesis using assms(1) assms(2) [OF Some u] Some
      by (auto simp: time_after_def time_add_def Let_def)
  qed
qed

lemma after_deadline:
  assumes "wall t + d < wall u" and "\<And>a b. mono t = Some a \<Longrightarrow> mono u = Some b \<Longrightarrow> a + d < b"
  shows "time_after u (time_add t d)"
proof (cases "mono t")
  case None
  then show ?thesis using assms(1) by (auto simp: time_after_def time_add_def split: option.splits)
next
  case (Some a)
  show ?thesis
  proof (cases "mono u")
    case None
    then show ?thesis using assms(1) by (auto simp: time_after_def split: option.splits)
  next
    case u: (Some b)
    then show ?thesis using assms(1) assms(2) [OF Some u] Some
      by (auto simp: time_after_def time_add_def Let_def)
  qed
qed

text \<open>How far two readings of the clocks are apart.\<close>

definition elapsed_at_most :: "gotime \<Rightarrow> gotime \<Rightarrow> int \<Rightarrow> bool" where
  "elapsed_at_most t u d \<longleftrightarrow> wall u \<le> wall t + d \<and>
     (case (mono t, mono u) of (Some a, Some b) \<Rightarrow> b \<le> a + d | _ \<Rightarrow> True)"

definition elapsed_more_than :: "gotime \<Rightarrow> gotime \<Rightarrow> int \<Rightarrow> bool" where
  "elapsed_more_than t u d \<longleftrightarrow> wall t + d < wall u \<and>
     (case (mono t, mono u) of (Some a, Some b) \<Rightarrow> a + d < b | _ \<Rightarrow> True)"

lemma elapsed_at_most_deadline: "elapsed_at_most t u d \<Longrightarrow> \<not> time_after u (time_add t d)"
  by (rule not_after_deadline) (auto simp: elapsed_at_most_def)

lemma elapsed_more_than_deadline: "elapsed_more_than t u d \<Longrightarrow> time_after u (time_add t d)"
  by (rule after_deadline) (auto simp: elapsed_more_than_def)

definition elapsed_at_least :: "gotime \<Rightarrow> gotime \<Rightarrow> int \<Rightarrow> bool" where
  "elapsed_at_least t u d \<longleftrightarrow> wall t + d \<le> wall u \<and>
     (case (mono t, mono u) of (Some a, Some b) \<Rightarrow> a + d \<le> b | _ \<Rightarrow> True)"

lemma elapsed_at_least_more: "elapsed_at_least t u d \<Longrightarrow> d' < d \<Longrightarrow> elapsed_more_than t u d'"
  by (auto simp: elapsed_at_least_def elapsed_more_than_def split: option.splits)

end
