(* ===== verification/Discovery_Store.thy ===== *)
theory Discovery_Store
  imports GoTime
begin

text \<open>
  The state of the cluster discovery server that \<^verbatim>\<open>ClusterAffiliates\<close> protects by a mutex
  (\<^verbatim>\<open>internal/discovery/cluster_discovery_server.go\<close>): its data and one definition per critical
  section, that is, per call of \<^verbatim>\<open>MutexProtected.With\<close> on it. Each section is atomic.
\<close>

section \<open>Data\<close>

text \<open>The fields of the protobuf message \<^verbatim>\<open>discoveryv1.Affiliate\<close>; a nil byte slice is \<open>None\<close>.\<close>

record affiliate =
  Affiliate_Id :: string
  Affiliate_Data :: "bytes option"
  Affiliate_Endpoints :: "bytes list"

text \<open>The generated getters accept a nil pointer and return the zero value for it.\<close>

definition GetId :: "affiliate option \<Rightarrow> string" where
  "GetId a = (case a of None \<Rightarrow> [] | Some x \<Rightarrow> Affiliate_Id x)"

definition GetData :: "affiliate option \<Rightarrow> bytes option" where
  "GetData a = (case a of None \<Rightarrow> None | Some x \<Rightarrow> Affiliate_Data x)"

definition GetEndpoints :: "affiliate option \<Rightarrow> bytes list" where
  "GetEndpoints a = (case a of None \<Rightarrow> [] | Some x \<Rightarrow> Affiliate_Endpoints x)"

datatype cluster_affiliate_id = ClusterAffiliateID (key_ClusterID: string) (key_AffiliateID: string)

record cluster_affiliate =
  ca_Affiliate :: "affiliate option"
  ca_ClusterID :: string
  RemoveAfter :: gotime

definition zero_cluster_affiliate :: cluster_affiliate where
  "zero_cluster_affiliate =
     \<lparr>ca_Affiliate = None, ca_ClusterID = [], RemoveAfter = \<lparr>wall = - 59453308800 * ns_per_second, mono = None\<rparr>\<rparr>"

type_synonym store = "(cluster_affiliate_id, cluster_affiliate) gomap"

text \<open>Keys are ordered by cluster, then by affiliate, so that every finite store has an order.\<close>

instantiation cluster_affiliate_id :: linorder
begin

definition less_eq_cluster_affiliate_id :: "cluster_affiliate_id \<Rightarrow> cluster_affiliate_id \<Rightarrow> bool" where
  "less_eq_cluster_affiliate_id a b \<longleftrightarrow>
     key_ClusterID a < key_ClusterID b
     \<or> key_ClusterID a = key_ClusterID b \<and> key_AffiliateID a \<le> key_AffiliateID b"

definition less_cluster_affiliate_id :: "cluster_affiliate_id \<Rightarrow> cluster_affiliate_id \<Rightarrow> bool" where
  "less_cluster_affiliate_id a b \<longleftrightarrow>
     key_ClusterID a < key_ClusterID b
     \<or> key_ClusterID a = key_ClusterID b \<and> key_AffiliateID a < key_AffiliateID b"

instance
  by intro_classes
    (auto simp: less_eq_cluster_affiliate_id_def less_cluster_affiliate_id_def
      intro: cluster_affiliate_id.expand)

end

text \<open>The key under which a \<^verbatim>\<open>ClusterAffiliate\<close> is filed, computed from its own fields.\<close>

definition key_of :: "cluster_affiliate \<Rightarrow> cluster_affiliate_id" where
  "key_of a = ClusterAffiliateID (ca_ClusterID a) (GetId (ca_Affiliate a))"

section \<open>Requests\<close>

text \<open>
  A request is a pointer, \<open>None\<close> when nil; its getters accept nil. \<open>req_Ttl\<close> is the value of
  \<^verbatim>\<open>GetTtl().AsDuration()\<close>, in nanoseconds, \<open>0\<close> when no duration is given.
\<close>

record affiliate_update_request =
  upd_ClusterId :: string
  upd_AffiliateId :: string
  upd_AffiliateData :: "bytes option"
  upd_AffiliateEndpoints :: "bytes list"
  upd_Ttl :: int

definition zero_update_request :: affiliate_update_request where
  "zero_update_request =
     \<lparr>upd_ClusterId = [], upd_AffiliateId = [], upd_AffiliateData = None,
      upd_AffiliateEndpoints = [], upd_Ttl = 0\<rparr>"

record affiliate_delete_request =
  del_ClusterId :: string
  del_AffiliateId :: string

definition zero_delete_request :: affiliate_delete_request where
  "zero_delete_request = \<lparr>del_ClusterId = [], del_AffiliateId = []\<rparr>"

definition get_req :: "'r \<Rightarrow> 'r option \<Rightarrow> 'r" where
  "get_req zero r = (case r of None \<Rightarrow> zero | Some x \<Rightarrow> x)"

lemma get_req_Some [simp]: "get_req z (Some r) = r"
  by (simp add: get_req_def)

section \<open>Critical sections on the affiliate map\<close>

text \<open>
  \<^verbatim>\<open>collectGarbage\<close>: expired entries are copied out in the order of the range loop, then deleted.
\<close>

definition collectGarbage_section ::
  "gotime \<Rightarrow> cluster_affiliate_id list \<Rightarrow> store \<Rightarrow> cluster_affiliate list \<times> store" where
  "collectGarbage_section now ks a =
     (let affiliates = or_make a;
          expired = filter (\<lambda>(k, v). time_after now (RemoveAfter v)) (range_over ks affiliates);
          deleted = map snd expired;
          deletedIDs = map fst expired
      in (deleted, Some (delete_keys deletedIDs affiliates)))"

text \<open>
  The body of \<^verbatim>\<open>AffiliateUpdate\<close>: data is replaced when given, endpoints are merged through a map
  keyed by the endpoint itself (\<open>eks\<close> is the order of the loop over it), and the time to live
  defaults to 15 minutes.
\<close>

definition merge_endpoints :: "bytes list \<Rightarrow> bytes list \<Rightarrow> (bytes \<rightharpoonup> bytes)" where
  "merge_endpoints old new = store_all (map (\<lambda>e. (e, e)) old @ map (\<lambda>e. (e, e)) new) Map.empty"

definition AffiliateUpdate_section ::
  "gotime \<Rightarrow> bytes list \<Rightarrow> affiliate_update_request option \<Rightarrow> store \<Rightarrow> cluster_affiliate \<times> bool \<times> store" where
  "AffiliateUpdate_section now eks request a =
     (let req = get_req zero_update_request request;
          clusterID = upd_ClusterId req;
          affiliateID = upd_AffiliateId req;
          k = ClusterAffiliateID clusterID affiliateID;
          affiliates = or_make a;
          createdNow = (affiliates k = None);
          aff = (case affiliates k of None \<Rightarrow> zero_cluster_affiliate | Some v \<Rightarrow> v);
          newData = (if upd_AffiliateData req \<noteq> None then upd_AffiliateData req
                     else GetData (ca_Affiliate aff));
          endpoints = merge_endpoints (GetEndpoints (ca_Affiliate aff)) (upd_AffiliateEndpoints req);
          newEndpoints = map snd (range_over eks endpoints);
          ttl = (if upd_Ttl req = 0 then minutes 15 else upd_Ttl req);
          aff' = \<lparr>ca_Affiliate = Some \<lparr>Affiliate_Id = affiliateID, Affiliate_Data = newData,
                                     Affiliate_Endpoints = newEndpoints\<rparr>,
                 ca_ClusterID = clusterID, RemoveAfter = time_add now ttl\<rparr>
      in (aff', createdNow, Some (affiliates(k \<mapsto> aff'))))"

text \<open>The body of \<^verbatim>\<open>AffiliateDelete\<close>: the removed entry, if the key was there.\<close>

definition AffiliateDelete_section ::
  "affiliate_delete_request option \<Rightarrow> store \<Rightarrow> cluster_affiliate option \<times> store" where
  "AffiliateDelete_section request a =
     (let req = get_req zero_delete_request request;
          k = ClusterAffiliateID (del_ClusterId req) (del_AffiliateId req);
          affiliates = or_make a
      in case affiliates k of
           None \<Rightarrow> (None, a)
         | Some v \<Rightarrow> (Some v, Some (affiliates(k := None))))"

text \<open>
  The body of \<^verbatim>\<open>List\<close>: a first loop counts the keys of the cluster (to size the slice; with none
  the nil slice is returned), a second collects the affiliates. Elements may be nil pointers.
\<close>

definition List_section ::
  "string \<Rightarrow> cluster_affiliate_id list \<Rightarrow> cluster_affiliate_id list \<Rightarrow> store \<Rightarrow> affiliate option list" where
  "List_section clusterID cks ks a =
     (case a of
        None \<Rightarrow> []
      | Some clusterAffiliates \<Rightarrow>
          let count = length (filter (\<lambda>(k, v). key_ClusterID k = clusterID) (range_over cks clusterAffiliates))
          in if count = 0 then []
             else map (\<lambda>(k, v). ca_Affiliate v)
                    (filter (\<lambda>(k, v). \<not> key_ClusterID k \<noteq> clusterID \<and> \<not> ca_ClusterID v \<noteq> clusterID)
                       (range_over ks clusterAffiliates)))"

text \<open>The body of \<^verbatim>\<open>broadcastCurrentState\<close>: every entry that has an affiliate.\<close>

definition broadcastCurrentState_section ::
  "cluster_affiliate_id list \<Rightarrow> store \<Rightarrow> cluster_affiliate list" where
  "broadcastCurrentState_section ks a =
     (case a of
        None \<Rightarrow> []
      | Some m \<Rightarrow> filter (\<lambda>v. ca_Affiliate v \<noteq> None) (map snd (range_over ks m)))"

text \<open>Loading the initial state in \<^verbatim>\<open>NewClusterDiscoveryServer\<close>: entries without affiliate are dropped.\<close>

definition initial_store :: "cluster_affiliate list \<Rightarrow> (cluster_affiliate_id \<rightharpoonup> cluster_affiliate)" where
  "initial_store cas =
     store_all (map (\<lambda>a. (key_of a, a)) (filter (\<lambda>a. ca_Affiliate a \<noteq> None) cas)) Map.empty"

section \<open>What the sections do to the map\<close>

text \<open>
  A store is well formed when each entry is filed under its own key and has an affiliate. The
  server's operations only build such entries.
\<close>

definition wf_map :: "(cluster_affiliate_id \<rightharpoonup> cluster_affiliate) \<Rightarrow> bool" where
  "wf_map m \<longleftrightarrow> finite (dom m) \<and> (\<forall>k v. m k = Some v \<longrightarrow> key_of v = k \<and> ca_Affiliate v \<noteq> None)"

abbreviation wf_store :: "store \<Rightarrow> bool" where
  "wf_store a \<equiv> wf_map (or_make a)"

lemma wf_mapD: "wf_map m \<Longrightarrow> m k = Some v \<Longrightarrow> key_of v = k \<and> (\<exists>x. ca_Affiliate v = Some x)"
  by (auto simp: wf_map_def)

text \<open>The entries whose deadline has not passed at a given time.\<close>

definition unexpired ::
  "gotime \<Rightarrow> ('k \<rightharpoonup> cluster_affiliate) \<Rightarrow> ('k \<rightharpoonup> cluster_affiliate)" where
  "unexpired now m = (\<lambda>k. case m k of None \<Rightarrow> None
                               | Some v \<Rightarrow> if time_after now (RemoveAfter v) then None else Some v)"

lemma unexpired_Some [simp]:
  "unexpired now m k = Some v \<longleftrightarrow> m k = Some v \<and> \<not> time_after now (RemoveAfter v)"
  by (auto simp: unexpired_def split: option.splits)

lemma unexpired_le: "unexpired now m \<subseteq>\<^sub>m m"
  by (auto simp: map_le_def)

lemma wf_map_le: "m' \<subseteq>\<^sub>m m \<Longrightarrow> wf_map m \<Longrightarrow> wf_map m'"
  unfolding wf_map_def map_le_def dom_def
  by (auto intro: finite_subset [of _ "{k. \<exists>v. m k = Some v}"])

lemma wf_map_upd:
  "wf_map m \<Longrightarrow> key_of v = k \<Longrightarrow> ca_Affiliate v = Some x \<Longrightarrow> wf_map (m(k \<mapsto> v))"
  by (auto simp: wf_map_def)

lemma wf_map_del: "wf_map m \<Longrightarrow> wf_map (m(k := None))"
  by (rule wf_map_le [of _ m]) (auto simp: map_le_def)

lemma wf_map_empty [simp]: "wf_map Map.empty"
  by (simp add: wf_map_def)

lemma collectGarbage_section_store:
  assumes "is_order ks (or_make a)"
  shows "snd (collectGarbage_section now ks a) = Some (unexpired now (or_make a))"
proof -
  let ?x = "filter (\<lambda>(k, v). time_after now (RemoveAfter v)) (range_over ks (or_make a))"
  have "delete_keys (map fst ?x) (or_make a) = unexpired now (or_make a)"
    using assms
    by (auto simp: fun_eq_iff unexpired_def set_range_over_order image_iff split: option.splits)
  then show ?thesis by (simp add: collectGarbage_section_def Let_def)
qed

lemma collectGarbage_section_deleted:
  assumes "is_order ks (or_make a)"
  shows "set (fst (collectGarbage_section now ks a))
           = {v. \<exists>k. or_make a k = Some v \<and> time_after now (RemoveAfter v)}"
  using assms by (force simp: collectGarbage_section_def Let_def set_range_over_order)

lemma merge_endpoints_apply:
  "merge_endpoints old new e = (if e \<in> set old \<union> set new then Some e else None)"
proof -
  have "map_of (rev (map (\<lambda>e. (e, e)) xs)) e = (if e \<in> set xs then Some e else None)" for xs :: "bytes list"
    by (simp add: rev_map map_of_map_restrict restrict_map_def)
  then show ?thesis
    by (simp add: merge_endpoints_def store_all_map_of map_add_def split: option.splits)
qed

lemma merged_endpoints:
  assumes "is_order eks (merge_endpoints old new)"
  shows "map snd (range_over eks (merge_endpoints old new)) = eks"
    and "distinct eks" and "set eks = set old \<union> set new"
proof -
  have dom: "dom (merge_endpoints old new) = set old \<union> set new"
    by (auto simp: dom_def merge_endpoints_apply)
  show d: "distinct eks" and s: "set eks = set old \<union> set new"
    using assms by (simp_all add: is_order_def dom)
  have "map snd (range_over xs (merge_endpoints old new)) = xs" if "set xs \<subseteq> set old \<union> set new" for xs
    using that by (induction xs) (auto simp: merge_endpoints_apply)
  then show "map snd (range_over eks (merge_endpoints old new)) = eks" using s by simp
qed

lemma is_order_merge_endpoints [simp]:
  "is_order eks (merge_endpoints old new) \<longleftrightarrow> distinct eks \<and> set eks = set old \<union> set new"
proof -
  have "dom (merge_endpoints old new) = set old \<union> set new"
    by (auto simp: dom_def merge_endpoints_apply)
  then show ?thesis by (simp add: is_order_def)
qed

section \<open>What List returns\<close>

text \<open>The affiliates of one cluster, by their ID.\<close>

definition cluster_view ::
  "string \<Rightarrow> (cluster_affiliate_id \<rightharpoonup> cluster_affiliate) \<Rightarrow> (string \<rightharpoonup> affiliate)" where
  "cluster_view clusterID m =
     (\<lambda>i. case m (ClusterAffiliateID clusterID i) of None \<Rightarrow> None | Some v \<Rightarrow> ca_Affiliate v)"

lemma cluster_view_Id: "wf_map m \<Longrightarrow> cluster_view cid m i = Some x \<Longrightarrow> Affiliate_Id x = i"
  by (auto simp: cluster_view_def key_of_def GetId_def dest!: wf_mapD split: option.splits)

lemma List_section_view:
  assumes wf: "wf_map m" and cks: "is_order cks m" and ks: "is_order ks m"
  shows "set (List_section cid cks ks (Some m)) = Some ` ran (cluster_view cid m)"
    and "distinct (map GetId (List_section cid cks ks (Some m)))"
proof -
  let ?l = "filter (\<lambda>(k, v). key_ClusterID k = cid \<and> ca_ClusterID v = cid) (range_over ks m)"
  have own: "key_of v = k \<and> (\<exists>x. ca_Affiliate v = Some x)" if "m k = Some v" for k v
    using wf_mapD [OF wf that] .
  have none: "?l = []" if "filter (\<lambda>(k, v). key_ClusterID k = cid) (range_over cks m) = []"
    using that by (auto simp: filter_empty_conv set_range_over_order [OF cks] set_range_over_order [OF ks])
  then have l: "List_section cid cks ks (Some m) = map (\<lambda>(k, v). ca_Affiliate v) ?l"
    by (auto simp: List_section_def Let_def)
  show "set (List_section cid cks ks (Some m)) = Some ` ran (cluster_view cid m)"
  proof (intro set_eqI iffI)
    fix y assume "y \<in> set (List_section cid cks ks (Some m))"
    then obtain k v where "m k = Some v" "key_ClusterID k = cid" "y = ca_Affiliate v"
      by (auto simp: l set_range_over_order [OF ks])
    moreover from this own obtain x where "ca_Affiliate v = Some x" by blast
    ultimately have "cluster_view cid m (key_AffiliateID k) = Some x" "y = Some x"
      by (auto simp: cluster_view_def)
    then show "y \<in> Some ` ran (cluster_view cid m)" by (auto simp: ran_def)
  next
    fix y assume "y \<in> Some ` ran (cluster_view cid m)"
    then obtain i x v where "m (ClusterAffiliateID cid i) = Some v" "ca_Affiliate v = Some x" "y = Some x"
      by (auto simp: cluster_view_def ran_def split: option.splits)
    moreover from this own have "ca_ClusterID v = cid" by (fastforce simp: key_of_def)
    ultimately have "(ClusterAffiliateID cid i, v) \<in> set ?l" and "y = ca_Affiliate v"
      by (simp_all add: set_range_over_order [OF ks])
    then show "y \<in> set (List_section cid cks ks (Some m))"
      unfolding l set_map by (intro image_eqI [of _ _ "(ClusterAffiliateID cid i, v)"]) simp_all
  qed
  have d: "distinct (map fst ?l)"
    using ks distinct_range_over [of ks m] by (simp add: is_order_def distinct_map_filter)
  have id: "GetId (ca_Affiliate v) = key_AffiliateID k \<and> key_ClusterID k = cid" if "(k, v) \<in> set ?l" for k v
    using that own by (fastforce simp: set_range_over_order [OF ks] key_of_def)
  have "inj_on key_AffiliateID (set (map fst ?l))"
    using id by (auto simp: inj_on_def intro!: cluster_affiliate_id.expand)
  then have "distinct (map key_AffiliateID (map fst ?l))"
    using d by (subst distinct_map) blast
  then have "distinct (map (key_AffiliateID \<circ> fst) ?l)" by simp
  moreover have "map GetId (List_section cid cks ks (Some m)) = map (key_AffiliateID \<circ> fst) ?l"
    using id by (auto simp: l)
  ultimately show "distinct (map GetId (List_section cid cks ks (Some m)))" by simp
qed

end
