(* ===== verification/Discovery_Server.thy ===== *)
theory Discovery_Server
  imports Discovery_Store
begin

text \<open>
  The cluster discovery server (\<^verbatim>\<open>internal/discovery/cluster_discovery_server.go\<close>): watcher
  channels behind weak pointers, broadcasts, and the RPC handlers composed from the critical
  sections of \<^verbatim>\<open>Discovery_Store\<close>. Logging is left out.
\<close>

section \<open>State\<close>

record watch_response =
  msg_ClusterAffiliates :: "cluster_affiliate list"
  Deleted :: bool

record channel =
  Queue :: "watch_response list"
  Cap :: nat
  Closed :: bool

text \<open>
  A watcher is a weak pointer to a heap variable that holds a channel. \<open>chanVars\<close> are the
  variables that the garbage collector of the Go runtime has not reclaimed, \<open>frames\<close> those that
  a running function still refers to (and which it therefore keeps), \<open>chans\<close> the channels
  themselves, which live on as long as a goroutine holds their value.
\<close>

record server =
  garbageCollectionInterval :: int
  killGarbageCollector_closed :: bool
  watchers :: "nat list"
  ClusterAffiliates :: store
  chanVars :: "nat \<rightharpoonup> nat"
  frames :: "nat set"
  chans :: "nat \<rightharpoonup> channel"

definition watch_capacity :: nat where
  "watch_capacity = 1024"

definition make_chan :: "nat \<Rightarrow> channel" where
  "make_chan n = \<lparr>Queue = [], Cap = n, Closed = False\<rparr>"

text \<open>A cycle of the Go garbage collector reclaims variables no running function refers to.\<close>

definition go_gc :: "nat set \<Rightarrow> server \<Rightarrow> server" where
  "go_gc reclaimed s = s\<lparr>chanVars := chanVars s |` (- (reclaimed - frames s))\<rparr>"

section \<open>Broadcast\<close>

definition chan_send :: "watch_response \<Rightarrow> channel \<Rightarrow> channel outcome" where
  "chan_send msg c =
     (if Closed c then Panic ''send on closed channel''
      else if length (Queue c) < Cap c then Ok (c\<lparr>Queue := Queue c @ [msg]\<rparr>)
      else Blocked)"

text \<open>A send on a nil channel blocks for ever.\<close>

definition send_on ::
  "nat \<Rightarrow> watch_response \<Rightarrow> (nat \<rightharpoonup> channel) \<Rightarrow> (nat \<rightharpoonup> channel) outcome" where
  "send_on c msg cs =
     (case cs c of
        None \<Rightarrow> Blocked
      | Some ch \<Rightarrow> and_then (chan_send msg ch) (\<lambda>ch'. Ok (cs(c \<mapsto> ch'))))"

fun send_all ::
  "nat list \<Rightarrow> watch_response \<Rightarrow> (nat \<rightharpoonup> nat) \<Rightarrow> (nat \<rightharpoonup> channel) \<Rightarrow> (nat \<rightharpoonup> channel) outcome" where
  "send_all [] msg vars cs = Ok cs"
| "send_all (w # ws) msg vars cs =
     (case vars w of
        None \<Rightarrow> send_all ws msg vars cs
      | Some c \<Rightarrow> and_then (send_on c msg cs) (send_all ws msg vars))"

definition broadcast :: "watch_response \<Rightarrow> server \<Rightarrow> server outcome" where
  "broadcast msg s =
     and_then (send_all (watchers s) msg (chanVars s) (chans s)) (\<lambda>cs. Ok (s\<lparr>chans := cs\<rparr>))"

section \<open>Garbage collection of affiliates and watchers\<close>

definition clean_watchers :: "server \<Rightarrow> server" where
  "clean_watchers s =
     (let before = length (watchers s);
          newWatchers = filter (\<lambda>w. chanVars s w \<noteq> None) (watchers s)
      in if before = length newWatchers then s else s\<lparr>watchers := newWatchers\<rparr>)"

definition collectGarbage ::
  "gotime \<Rightarrow> cluster_affiliate_id list \<Rightarrow> server \<Rightarrow> server outcome" where
  "collectGarbage now ks s =
     (let (deleted, a) = collectGarbage_section now ks (ClusterAffiliates s);
          s1 = s\<lparr>ClusterAffiliates := a\<rparr>
      in and_then
           (if length deleted \<noteq> 0
            then broadcast \<lparr>msg_ClusterAffiliates = deleted, Deleted = True\<rparr> s1
            else Ok s1)
           (\<lambda>s2. Ok (clean_watchers s2)))"

definition broadcastCurrentState :: "cluster_affiliate_id list \<Rightarrow> server \<Rightarrow> server outcome" where
  "broadcastCurrentState ks s =
     (let affiliates = broadcastCurrentState_section ks (ClusterAffiliates s)
      in if length affiliates = 0 then Ok s
         else broadcast \<lparr>msg_ClusterAffiliates = affiliates, Deleted = False\<rparr> s)"

text \<open>
  One turn of \<^verbatim>\<open>garbageCollectionLoop\<close>: the event \<^verbatim>\<open>select\<close> has chosen, and whether the loop goes
  on. Nothing is ever sent on \<^verbatim>\<open>killGarbageCollector\<close>; closing it ends the loop.
\<close>

datatype gc_event =
    Killed
  | Tick gotime "cluster_affiliate_id list" "cluster_affiliate_id list"

definition gc_interval :: "server \<Rightarrow> int" where
  "gc_interval s =
     (if garbageCollectionInterval s = 0 then minutes 15 else garbageCollectionInterval s)"

fun gc_turn :: "gc_event \<Rightarrow> server \<Rightarrow> (bool \<times> server) outcome" where
  "gc_turn Killed s = Ok (False, s)"
| "gc_turn (Tick now ks cks) s =
     and_then (collectGarbage now ks s) (\<lambda>s1.
     and_then (broadcastCurrentState cks s1) (\<lambda>s2. Ok (True, s2)))"

text \<open>\<^verbatim>\<open>time.NewTicker\<close> panics on an interval that is not positive.\<close>

fun gc_turns :: "gc_event list \<Rightarrow> server \<Rightarrow> (bool \<times> server) outcome" where
  "gc_turns [] s = Ok (True, s)"
| "gc_turns (e # es) s =
     and_then (gc_turn e s) (\<lambda>(go, s'). if go then gc_turns es s' else Ok (False, s'))"

definition garbageCollectionLoop :: "gc_event list \<Rightarrow> server \<Rightarrow> (bool \<times> server) outcome" where
  "garbageCollectionLoop events s =
     (if gc_interval s \<le> 0 then Panic ''non-positive interval for NewTicker'' else gc_turns events s)"

section \<open>RPC handlers\<close>

text \<open>
  \<^verbatim>\<open>AffiliateUpdate\<close> and \<^verbatim>\<open>AffiliateDelete\<close> answer with a nil response and a nil error. The clock is
  read twice, by the garbage collection and by the update; \<open>gks\<close> and \<open>eks\<close> are the orders of the
  range loops.
\<close>

definition AffiliateUpdate ::
  "gotime \<Rightarrow> cluster_affiliate_id list \<Rightarrow> gotime \<Rightarrow> bytes list \<Rightarrow> affiliate_update_request option
   \<Rightarrow> server \<Rightarrow> server outcome" where
  "AffiliateUpdate gnow gks now eks request s =
     and_then (collectGarbage gnow gks s) (\<lambda>s1.
     let (aff, createdNow, a) = AffiliateUpdate_section now eks request (ClusterAffiliates s1)
     in broadcast \<lparr>msg_ClusterAffiliates = [aff], Deleted = False\<rparr> (s1\<lparr>ClusterAffiliates := a\<rparr>))"

definition AffiliateDelete ::
  "gotime \<Rightarrow> cluster_affiliate_id list \<Rightarrow> affiliate_delete_request option \<Rightarrow> server \<Rightarrow> server outcome" where
  "AffiliateDelete gnow gks request s =
     and_then (collectGarbage gnow gks s) (\<lambda>s1.
     let (found, a) = AffiliateDelete_section request (ClusterAffiliates s1)
     in case found of
          None \<Rightarrow> Ok (s1\<lparr>ClusterAffiliates := a\<rparr>)
        | Some affiliate \<Rightarrow>
            broadcast \<lparr>msg_ClusterAffiliates = [affiliate], Deleted = True\<rparr> (s1\<lparr>ClusterAffiliates := a\<rparr>))"

definition List_affiliates ::
  "gotime \<Rightarrow> cluster_affiliate_id list \<Rightarrow> cluster_affiliate_id list \<Rightarrow> cluster_affiliate_id list
   \<Rightarrow> string option \<Rightarrow> server \<Rightarrow> (affiliate option list \<times> server) outcome" where
  "List_affiliates gnow gks cks ks request s =
     and_then (collectGarbage gnow gks s) (\<lambda>s1.
     Ok (List_section (get_req [] request) cks ks (ClusterAffiliates s1), s1))"

section \<open>Watch\<close>

definition clusterAffiliateCount :: "cluster_affiliate list \<Rightarrow> string \<Rightarrow> nat" where
  "clusterAffiliateCount cas clusterID = length (filter (\<lambda>ca. ca_ClusterID ca = clusterID) cas)"

definition stripAffiliateContent :: "affiliate option list \<Rightarrow> affiliate list" where
  "stripAffiliateContent affiliates =
     List.map_filter
       (map_option (\<lambda>a. \<lparr>Affiliate_Id = Affiliate_Id a, Affiliate_Data = None, Affiliate_Endpoints = []\<rparr>))
       affiliates"

record sent_response =
  sent_Affiliates :: "affiliate list"
  sent_Deleted :: bool

text \<open>What one message makes \<^verbatim>\<open>Watch\<close> send; \<open>None\<close> is the \<^verbatim>\<open>continue\<close> for other clusters.\<close>

definition watch_message :: "string \<Rightarrow> watch_response \<Rightarrow> sent_response option" where
  "watch_message clusterID msg =
     (if clusterAffiliateCount (msg_ClusterAffiliates msg) clusterID = 0 then None
      else
        let affiliates = List.map_filter ca_Affiliate
              (filter (\<lambda>ca. \<not> ca_ClusterID ca \<noteq> clusterID) (msg_ClusterAffiliates msg));
            affiliates' = (if Deleted msg then stripAffiliateContent (map Some affiliates) else affiliates)
        in Some \<lparr>sent_Affiliates = affiliates', sent_Deleted = Deleted msg\<rparr>)"

text \<open>
  The start of \<^verbatim>\<open>Watch\<close>: a channel in a fresh variable \<open>w\<close>, referred to by the running handler,
  is registered, and garbage is collected.
\<close>

definition Watch_start ::
  "nat \<Rightarrow> nat \<Rightarrow> gotime \<Rightarrow> cluster_affiliate_id list \<Rightarrow> server \<Rightarrow> server outcome" where
  "Watch_start w c gnow gks s =
     collectGarbage gnow gks
       (s\<lparr>chanVars := (chanVars s)(w \<mapsto> c), frames := insert w (frames s),
         chans := (chans s)(c \<mapsto> make_chan watch_capacity), watchers := watchers s @ [w]\<rparr>)"

text \<open>
  The loop of \<^verbatim>\<open>Watch\<close>, one turn per event chosen by \<^verbatim>\<open>select\<close>: the stream's context ended with
  an error, or a receive from the channel (\<open>None\<close> when it is closed and drained), with the result
  \<^verbatim>\<open>Send\<close> would give. The handler returns with an error, with nil, or still runs; a nil request
  is dereferenced when the first message arrives.
\<close>

datatype watch_event =
    CtxDone string
  | Receive "watch_response option" "string option"

datatype watch_exit = Running | ReturnNil | ReturnErr string | NilDeref

fun Watch_loop :: "string option \<Rightarrow> watch_event list \<Rightarrow> sent_response list \<times> watch_exit" where
  "Watch_loop req [] = ([], Running)"
| "Watch_loop req (CtxDone err # es) = ([], ReturnErr err)"
| "Watch_loop req (Receive None send_err # es) = ([], ReturnNil)"
| "Watch_loop req (Receive (Some msg) send_err # es) =
     (case req of
        None \<Rightarrow> ([], NilDeref)
      | Some clusterID \<Rightarrow>
          (case watch_message clusterID msg of
             None \<Rightarrow> Watch_loop req es
           | Some r \<Rightarrow>
               (case send_err of
                  Some e \<Rightarrow> ([], ReturnErr e)
                | None \<Rightarrow> let (sent, x) = Watch_loop req es in (r # sent, x))))"

text \<open>Returning drops the handler's reference to its channel variable.\<close>

definition Watch_end :: "nat \<Rightarrow> server \<Rightarrow> server" where
  "Watch_end w s = s\<lparr>frames := frames s - {w}\<rparr>"

section \<open>Construction and closing\<close>

text \<open>
  \<^verbatim>\<open>NewClusterDiscoveryServer\<close>: \<open>provider\<close> is the result of \<^verbatim>\<open>StateProvider.Load\<close> when a provider is
  configured. With a provider, the channel \<open>c\<close> is given to the goroutine \<^verbatim>\<open>statePersister\<close> by
  value, and the variable \<open>w\<close> that held it is registered as a watcher; no function refers to the
  variable once the constructor has returned.
\<close>

record server_options =
  opt_StateProvider :: "cluster_affiliate list option"
  opt_GarbageCollectionInterval :: int

definition ClusterDiscoveryServerStateProvider ::
  "cluster_affiliate list \<Rightarrow> server_options \<Rightarrow> server_options" where
  "ClusterDiscoveryServerStateProvider loaded options = options\<lparr>opt_StateProvider := Some loaded\<rparr>"

definition ClusterDiscoveryServerGarbageCollectionInterval ::
  "int \<Rightarrow> server_options \<Rightarrow> server_options" where
  "ClusterDiscoveryServerGarbageCollectionInterval interval options =
     options\<lparr>opt_GarbageCollectionInterval := interval\<rparr>"

definition configured :: "(server_options \<Rightarrow> server_options) list \<Rightarrow> server_options" where
  "configured options =
     fold (\<lambda>option opts. option opts) options
       \<lparr>opt_StateProvider = None, opt_GarbageCollectionInterval = 0\<rparr>"

definition NewClusterDiscoveryServer ::
  "nat \<Rightarrow> nat \<Rightarrow> (server_options \<Rightarrow> server_options) list \<Rightarrow> server" where
  "NewClusterDiscoveryServer w c options =
     (let opts = configured options;
          clusterAffiliates = (case opt_StateProvider opts of None \<Rightarrow> [] | Some cas \<Rightarrow> cas);
          state = initial_store clusterAffiliates;
          save = (opt_StateProvider opts \<noteq> None)
      in \<lparr>garbageCollectionInterval = opt_GarbageCollectionInterval opts,
          killGarbageCollector_closed = False,
          watchers = (if save then [w] else []),
          ClusterAffiliates = Some state,
          chanVars = (if save then [w \<mapsto> c] else Map.empty),
          frames = {},
          chans = (if save then [c \<mapsto> make_chan watch_capacity] else Map.empty)\<rparr>)"

definition close_chan :: "nat \<Rightarrow> (nat \<rightharpoonup> channel) \<Rightarrow> (nat \<rightharpoonup> channel) outcome" where
  "close_chan c cs =
     (case cs c of
        None \<Rightarrow> Panic ''close of nil channel''
      | Some ch \<Rightarrow> if Closed ch then Panic ''close of closed channel''
                   else Ok (cs(c \<mapsto> ch\<lparr>Closed := True\<rparr>)))"

fun close_all :: "nat list \<Rightarrow> (nat \<rightharpoonup> nat) \<Rightarrow> (nat \<rightharpoonup> channel) \<Rightarrow> (nat \<rightharpoonup> channel) outcome" where
  "close_all [] vars cs = Ok cs"
| "close_all (w # ws) vars cs =
     (case vars w of
        None \<Rightarrow> close_all ws vars cs
      | Some c \<Rightarrow> and_then (close_chan c cs) (close_all ws vars))"

definition Close :: "server \<Rightarrow> server outcome" where
  "Close s =
     (if killGarbageCollector_closed s then Panic ''close of closed channel''
      else and_then (close_all (watchers s) (chanVars s) (chans s))
             (\<lambda>cs. Ok (s\<lparr>killGarbageCollector_closed := True, chans := cs\<rparr>)))"

end
