(* ===== verification/Discovery_Persist.thy ===== *)
theory Discovery_Persist
  imports Discovery_Server
begin

text \<open>
  Persistence of the discovery state: the goroutine \<^verbatim>\<open>statePersister\<close>, which follows the server's
  broadcasts and saves its own copy of the state after each (\<^verbatim>\<open>cluster_discovery_server.go\<close>), and
  the state providers it saves to (\<^verbatim>\<open>state_provider.go\<close>, \<^verbatim>\<open>discard_state_provider.go\<close>,
  \<^verbatim>\<open>json_file_state_provider.go\<close>).
\<close>

section \<open>statePersister\<close>

type_synonym persisted = "cluster_affiliate_id \<rightharpoonup> cluster_affiliate"

text \<open>The bodies of its loops: entries without an affiliate ID are skipped.\<close>

definition persist_put :: "cluster_affiliate \<Rightarrow> persisted \<Rightarrow> persisted" where
  "persist_put a state =
     (let ca = key_of a in if key_AffiliateID ca = [] then state else state(ca \<mapsto> a))"

definition persist_delete :: "cluster_affiliate \<Rightarrow> persisted \<Rightarrow> persisted" where
  "persist_delete a state =
     (let ca = key_of a in if key_AffiliateID ca = [] then state else state(ca := None))"

definition persister_init :: "cluster_affiliate list \<Rightarrow> persisted" where
  "persister_init initialState = fold persist_put initialState Map.empty"

definition persist_message :: "watch_response \<Rightarrow> persisted \<Rightarrow> persisted" where
  "persist_message request state =
     (if Deleted request then fold persist_delete (msg_ClusterAffiliates request) state
      else fold persist_put (msg_ClusterAffiliates request) state)"

text \<open>
  The loop over the channel: each message comes with the order of the range loop that collects
  the list to save. The result is the lists saved so far and the state.
\<close>

fun persister_loop ::
  "(watch_response \<times> cluster_affiliate_id list) list \<Rightarrow> persisted \<Rightarrow> cluster_affiliate list list \<times> persisted" where
  "persister_loop [] state = ([], state)"
| "persister_loop ((request, ks) # rest) state =
     (let state' = persist_message request state;
          affiliates = map snd (range_over ks state');
          (saves, final) = persister_loop rest state'
      in (affiliates # saves, final))"

definition statePersister ::
  "(watch_response \<times> cluster_affiliate_id list) list \<Rightarrow> cluster_affiliate list
   \<Rightarrow> cluster_affiliate list list \<times> persisted" where
  "statePersister watch initialState = persister_loop watch (persister_init initialState)"

section \<open>State providers\<close>

text \<open>
  The part of the operating system the providers use: the files, the watch callback's log, and
  how the next calls fail. \<^verbatim>\<open>os.Create\<close> truncates; a failing \<^verbatim>\<open>Write\<close> has written a prefix.
\<close>

datatype read_result = NotExist | ReadErr string | Content bytes

record os_world =
  files :: "string \<rightharpoonup> bytes"
  unreadable :: "string set"
  create_fails :: bool
  short_write :: "nat option"
  watch_log :: "cluster_affiliate list list"

text \<open>\<^verbatim>\<open>encoding/json\<close> on \<^verbatim>\<open>[]ClusterAffiliate\<close>: its form depends on the generated protobuf type.\<close>

record json_codec =
  Marshal :: "cluster_affiliate list \<Rightarrow> string + bytes"
  Unmarshal :: "bytes \<Rightarrow> string + cluster_affiliate list"

definition os_ReadFile :: "string \<Rightarrow> os_world \<Rightarrow> read_result" where
  "os_ReadFile path w =
     (case files w path of
        None \<Rightarrow> NotExist
      | Some b \<Rightarrow> if path \<in> unreadable w then ReadErr ''permission denied'' else Content b)"

definition os_Create :: "string \<Rightarrow> os_world \<Rightarrow> os_world option" where
  "os_Create path w =
     (if create_fails w then None else Some (w\<lparr>files := (files w)(path \<mapsto> [])\<rparr>))"

definition file_Write :: "string \<Rightarrow> bytes \<Rightarrow> os_world \<Rightarrow> bool \<times> os_world" where
  "file_Write path data w =
     (case short_write w of
        None \<Rightarrow> (True, w\<lparr>files := (files w)(path \<mapsto> data)\<rparr>)
      | Some n \<Rightarrow> (False, w\<lparr>files := (files w)(path \<mapsto> take n data)\<rparr>))"

definition os_WriteFile :: "string \<Rightarrow> bytes \<Rightarrow> os_world \<Rightarrow> os_world" where
  "os_WriteFile path data w =
     (case os_Create path w of None \<Rightarrow> w | Some w' \<Rightarrow> snd (file_Write path data w'))"

definition JSONFile_Load :: "json_codec \<Rightarrow> string \<Rightarrow> os_world \<Rightarrow> cluster_affiliate list \<times> os_world" where
  "JSONFile_Load json path w =
     (case os_ReadFile path w of
        NotExist \<Rightarrow> ([], os_WriteFile path ''[]'' w)
      | ReadErr e \<Rightarrow> ([], w)
      | Content content \<Rightarrow>
          (case Unmarshal json content of Inl e \<Rightarrow> ([], w) | Inr affiliates \<Rightarrow> (affiliates, w)))"

definition JSONFile_Save :: "json_codec \<Rightarrow> string \<Rightarrow> cluster_affiliate list \<Rightarrow> os_world \<Rightarrow> os_world" where
  "JSONFile_Save json path affiliates w =
     (case Marshal json affiliates of
        Inl e \<Rightarrow> w
      | Inr data \<Rightarrow>
          (case os_Create path w of
             None \<Rightarrow> w
           | Some w1 \<Rightarrow> (case file_Write path data w1 of (written, w2) \<Rightarrow> w2)))"

text \<open>The providers of the repository; \<^verbatim>\<open>AddWatch\<close> wraps one with a callback after each save.\<close>

datatype state_provider =
    DiscardStateProvider
  | JSONFileStateProvider string
  | WatchStateProvider state_provider

fun Load :: "json_codec \<Rightarrow> state_provider \<Rightarrow> os_world \<Rightarrow> cluster_affiliate list \<times> os_world" where
  "Load json DiscardStateProvider w = ([], w)"
| "Load json (JSONFileStateProvider path) w = JSONFile_Load json path w"
| "Load json (WatchStateProvider p) w = Load json p w"

fun Save :: "json_codec \<Rightarrow> state_provider \<Rightarrow> cluster_affiliate list \<Rightarrow> os_world \<Rightarrow> os_world" where
  "Save json DiscardStateProvider a w = w"
| "Save json (JSONFileStateProvider path) a w = JSONFile_Save json path a w"
| "Save json (WatchStateProvider p) a w =
     (let w' = Save json p a w in w'\<lparr>watch_log := watch_log w' @ [a]\<rparr>)"

definition AddWatch :: "state_provider \<Rightarrow> bool \<Rightarrow> state_provider" where
  "AddWatch p has_watch = (if \<not> has_watch then p else WatchStateProvider p)"

text \<open>How both binaries choose the provider from the state path flag (\<^verbatim>\<open>cmd/*/main.go\<close>).\<close>

definition select_provider :: "string \<Rightarrow> state_provider" where
  "select_provider discoveryStatePath =
     AddWatch (if discoveryStatePath = [] then DiscardStateProvider
               else JSONFileStateProvider discoveryStatePath) True"

end
