(* ===== verification/Discovery_Messages.thy ===== *)
theory Discovery_Messages
  imports Discovery_Persist
begin

text \<open>
  What the operations of the discovery server send to its watchers. Each operation that returns
  has appended the same list of messages to the channel of every live watcher and has touched no
  other channel; the list is computed from the affiliate map alone.
\<close>

section \<open>Channels of live watchers\<close>

definition live_chans :: "server \<Rightarrow> nat set" where
  "live_chans s = {c. \<exists>w \<in> set (watchers s). chanVars s w = Some c}"

definition enqueue :: "watch_response list \<Rightarrow> channel \<Rightarrow> channel" where
  "enqueue ms ch = ch\<lparr>Queue := Queue ch @ ms\<rparr>"

lemma enqueue_simps [simp]:
  "enqueue [] ch = ch" "enqueue ms (enqueue ns ch) = enqueue (ns @ ms) ch"
  "Queue (enqueue ms ch) = Queue ch @ ms" "Closed (enqueue ms ch) = Closed ch" "Cap (enqueue ms ch) = Cap ch"
  by (simp_all add: enqueue_def)

text \<open>Each watcher is registered once and no two variables hold the same channel.\<close>

definition wf_watchers :: "server \<Rightarrow> bool" where
  "wf_watchers s \<longleftrightarrow> distinct (watchers s) \<and>
     (\<forall>v w c. chanVars s v = Some c \<longrightarrow> chanVars s w = Some c \<longrightarrow> v = w)"

text \<open>\<open>s'\<close> is \<open>s\<close> after \<open>ms\<close> has been sent to every live watcher.\<close>

definition after_messages :: "watch_response list \<Rightarrow> server \<Rightarrow> server \<Rightarrow> bool" where
  "after_messages ms s s' \<longleftrightarrow>
     chans s' = (\<lambda>c. if c \<in> live_chans s then map_option (enqueue ms) (chans s c) else chans s c)
     \<and> live_chans s' = live_chans s \<and> chanVars s' = chanVars s \<and> frames s' = frames s
     \<and> garbageCollectionInterval s' = garbageCollectionInterval s
     \<and> killGarbageCollector_closed s' = killGarbageCollector_closed s
     \<and> wf_watchers s'"

lemma after_messages_refl [intro]: "wf_watchers s \<Longrightarrow> after_messages [] s s"
  by (auto simp: after_messages_def fun_eq_iff map_option.id [unfolded id_def] map_option_cong)

lemma after_messages_trans:
  "after_messages ms s s' \<Longrightarrow> after_messages ns s' s'' \<Longrightarrow> after_messages (ms @ ns) s s''"
  by (auto simp: after_messages_def fun_eq_iff option.map_comp comp_def)

lemma after_messages_queue:
  assumes "after_messages ms s s'" "c \<in> live_chans s" "chans s c = Some ch"
  shows "chans s' c = Some (enqueue ms ch)"
  using assms by (simp add: after_messages_def)

lemma send_on_Ok:
  "send_on c msg cs = Ok cs' \<longleftrightarrow>
     (\<exists>ch. cs c = Some ch \<and> \<not> Closed ch \<and> length (Queue ch) < Cap ch \<and> cs' = cs(c \<mapsto> enqueue [msg] ch))"
  by (auto simp: send_on_def chan_send_def enqueue_def split: option.splits)

lemma send_all_Ok:
  assumes "distinct ws" and inj: "\<And>v w c. vars v = Some c \<Longrightarrow> vars w = Some c \<Longrightarrow> v = w"
  shows "send_all ws msg vars cs = Ok cs' \<longleftrightarrow>
     (\<forall>w \<in> set ws. \<forall>c. vars w = Some c \<longrightarrow>
        (\<exists>ch. cs c = Some ch \<and> \<not> Closed ch \<and> length (Queue ch) < Cap ch))
     \<and> cs' = (\<lambda>c. if \<exists>w \<in> set ws. vars w = Some c then map_option (enqueue [msg]) (cs c) else cs c)"
  using assms(1)
proof (induction ws arbitrary: cs)
  case Nil
  then show ?case by auto
next
  case (Cons w ws)
  show ?case
  proof (cases "vars w")
    case None
    then show ?thesis using Cons by (simp add: Cons.IH)
  next
    case (Some c)
    have other: "vars v \<noteq> Some c" if "v \<in> set ws" for v
      using that Cons.prems inj [OF Some, of v] by auto
    show ?thesis
    proof (cases "\<exists>ch. cs c = Some ch \<and> \<not> Closed ch \<and> length (Queue ch) < Cap ch")
      case False
      then have "send_on c msg cs \<noteq> Ok z" for z by (auto simp: send_on_Ok)
      then show ?thesis using Some False by (auto simp: and_then_Ok_iff)
    next
      case True
      then obtain ch where ch: "cs c = Some ch" "\<not> Closed ch" "length (Queue ch) < Cap ch" by blast
      then have "send_on c msg cs = Ok (cs(c \<mapsto> enqueue [msg] ch))" by (simp add: send_on_Ok)
      then have "send_all (w # ws) msg vars cs = send_all ws msg vars (cs(c \<mapsto> enqueue [msg] ch))"
        by (simp add: Some)
      then show ?thesis
        using Cons.prems other ch Some
        by (auto simp: Cons.IH fun_eq_iff fun_upd_def) (metis option.sel)+
    qed
  qed
qed

lemma broadcast_Ok:
  assumes "wf_watchers s"
  shows "broadcast msg s = Ok s' \<longleftrightarrow>
     (\<forall>c \<in> live_chans s. \<exists>ch. chans s c = Some ch \<and> \<not> Closed ch \<and> length (Queue ch) < Cap ch)
     \<and> s' = s\<lparr>chans := (\<lambda>c. if c \<in> live_chans s then map_option (enqueue [msg]) (chans s c) else chans s c)\<rparr>"
proof -
  have iff: "send_all (watchers s) msg (chanVars s) (chans s) = Ok cs' \<longleftrightarrow>
     (\<forall>c \<in> live_chans s. \<exists>ch. chans s c = Some ch \<and> \<not> Closed ch \<and> length (Queue ch) < Cap ch)
     \<and> cs' = (\<lambda>c. if c \<in> live_chans s then map_option (enqueue [msg]) (chans s c) else chans s c)" for cs'
    using assms send_all_Ok [of "watchers s" "chanVars s" msg "chans s" cs']
    unfolding wf_watchers_def live_chans_def by auto
  show ?thesis by (auto simp: broadcast_def and_then_Ok_iff iff)
qed

lemma broadcast_messages:
  assumes "wf_watchers s" "broadcast msg s = Ok s'"
  shows "after_messages [msg] s s' \<and> ClusterAffiliates s' = ClusterAffiliates s \<and> watchers s' = watchers s"
  using assms by (auto simp: broadcast_Ok after_messages_def live_chans_def wf_watchers_def)

lemma clean_watchers_messages:
  assumes "wf_watchers s"
  shows "after_messages [] s (clean_watchers s) \<and> ClusterAffiliates (clean_watchers s) = ClusterAffiliates s"
proof -
  have "after_messages [] s s" using assms by blast
  moreover have "live_chans (s\<lparr>watchers := filter (\<lambda>w. chanVars s w \<noteq> None) (watchers s)\<rparr>) = live_chans s"
    by (auto simp: live_chans_def)
  ultimately show ?thesis
    using assms by (auto simp: clean_watchers_def Let_def after_messages_def wf_watchers_def)
qed

section \<open>The messages of each operation\<close>

definition gc_messages :: "gotime \<Rightarrow> cluster_affiliate_id list \<Rightarrow> store \<Rightarrow> watch_response list" where
  "gc_messages now ks a =
     (let deleted = fst (collectGarbage_section now ks a)
      in if deleted = [] then [] else [\<lparr>msg_ClusterAffiliates = deleted, Deleted = True\<rparr>])"

lemma wf_watchers_store [simp]: "wf_watchers (s\<lparr>ClusterAffiliates := a\<rparr>) = wf_watchers s"
  by (simp add: wf_watchers_def)

lemma live_chans_store [simp]: "live_chans (s\<lparr>ClusterAffiliates := a\<rparr>) = live_chans s"
  by (simp add: live_chans_def)

lemma after_messages_store [simp]:
  "after_messages ms (s\<lparr>ClusterAffiliates := a\<rparr>) s' = after_messages ms s s'"
  "after_messages ms s (s'\<lparr>ClusterAffiliates := a\<rparr>) = after_messages ms s s'"
  by (simp_all add: after_messages_def cong: if_cong)

lemma collectGarbage_messages:
  assumes "wf_watchers s" "collectGarbage now ks s = Ok s'"
  shows "after_messages (gc_messages now ks (ClusterAffiliates s)) s s'
         \<and> ClusterAffiliates s' = snd (collectGarbage_section now ks (ClusterAffiliates s))"
proof -
  obtain deleted a where sec: "collectGarbage_section now ks (ClusterAffiliates s) = (deleted, a)"
    by fastforce
  let ?s1 = "s\<lparr>ClusterAffiliates := a\<rparr>"
  obtain s2 where s2: "(if deleted \<noteq> [] then broadcast \<lparr>msg_ClusterAffiliates = deleted, Deleted = True\<rparr> ?s1
                        else Ok ?s1) = Ok s2" and s': "s' = clean_watchers s2"
    using assms(2) by (auto simp: collectGarbage_def sec and_then_Ok_iff Let_def)
  have "after_messages (gc_messages now ks (ClusterAffiliates s)) ?s1 s2 \<and> ClusterAffiliates s2 = a"
    using s2 assms(1) broadcast_messages [of ?s1 _ s2]
    by (auto simp: gc_messages_def sec split: if_splits)
  moreover from this have "wf_watchers s2" by (simp add: after_messages_def)
  then have "after_messages [] s2 s' \<and> ClusterAffiliates s' = ClusterAffiliates s2"
    unfolding s' by (rule clean_watchers_messages)
  ultimately show ?thesis
    using after_messages_trans [of "gc_messages now ks (ClusterAffiliates s)" s s2 "[]" s'] by (simp add: sec)
qed

text \<open>The messages of an update and of a delete, after those of the garbage collection.\<close>

definition update_messages ::
  "gotime \<Rightarrow> cluster_affiliate_id list \<Rightarrow> gotime \<Rightarrow> bytes list \<Rightarrow> affiliate_update_request option
   \<Rightarrow> store \<Rightarrow> watch_response list" where
  "update_messages gnow gks now eks r a =
     gc_messages gnow gks a @
     [\<lparr>msg_ClusterAffiliates =
         [fst (AffiliateUpdate_section now eks r (snd (collectGarbage_section gnow gks a)))],
       Deleted = False\<rparr>]"

definition delete_messages ::
  "gotime \<Rightarrow> cluster_affiliate_id list \<Rightarrow> affiliate_delete_request option \<Rightarrow> store \<Rightarrow> watch_response list" where
  "delete_messages gnow gks r a =
     gc_messages gnow gks a @
     (case fst (AffiliateDelete_section r (snd (collectGarbage_section gnow gks a))) of
        None \<Rightarrow> []
      | Some v \<Rightarrow> [\<lparr>msg_ClusterAffiliates = [v], Deleted = True\<rparr>])"

definition current_messages :: "cluster_affiliate_id list \<Rightarrow> store \<Rightarrow> watch_response list" where
  "current_messages ks a =
     (let cas = broadcastCurrentState_section ks a
      in if cas = [] then [] else [\<lparr>msg_ClusterAffiliates = cas, Deleted = False\<rparr>])"

lemma AffiliateUpdate_messages:
  assumes "wf_watchers s" "AffiliateUpdate gnow gks now eks r s = Ok s'"
  shows "after_messages (update_messages gnow gks now eks r (ClusterAffiliates s)) s s'
         \<and> ClusterAffiliates s' = snd (snd (AffiliateUpdate_section now eks r
              (snd (collectGarbage_section gnow gks (ClusterAffiliates s)))))"
proof -
  obtain s1 where s1: "collectGarbage gnow gks s = Ok s1"
    using assms(2) by (auto simp: AffiliateUpdate_def and_then_Ok_iff)
  note gc = collectGarbage_messages [OF assms(1) s1]
  obtain aff new a where sec: "AffiliateUpdate_section now eks r (ClusterAffiliates s1) = (aff, new, a)"
    by (metis prod_cases3)
  have "broadcast \<lparr>msg_ClusterAffiliates = [aff], Deleted = False\<rparr> (s1\<lparr>ClusterAffiliates := a\<rparr>) = Ok s'"
    using assms(2) by (simp add: AffiliateUpdate_def s1 sec)
  moreover have "wf_watchers s1" using gc by (simp add: after_messages_def)
  ultimately have "after_messages [\<lparr>msg_ClusterAffiliates = [aff], Deleted = False\<rparr>] s1 s'
      \<and> ClusterAffiliates s' = a"
    using broadcast_messages [of "s1\<lparr>ClusterAffiliates := a\<rparr>" _ s'] by simp
  then show ?thesis
    using gc sec after_messages_trans by (fastforce simp: update_messages_def)
qed

lemma AffiliateDelete_messages:
  assumes "wf_watchers s" "AffiliateDelete gnow gks r s = Ok s'"
  shows "after_messages (delete_messages gnow gks r (ClusterAffiliates s)) s s'
         \<and> ClusterAffiliates s' = snd (AffiliateDelete_section r
              (snd (collectGarbage_section gnow gks (ClusterAffiliates s))))"
proof -
  obtain s1 where s1: "collectGarbage gnow gks s = Ok s1"
    using assms(2) by (auto simp: AffiliateDelete_def and_then_Ok_iff)
  note gc = collectGarbage_messages [OF assms(1) s1]
  have wf1: "wf_watchers s1" using gc by (simp add: after_messages_def)
  obtain found a where sec: "AffiliateDelete_section r (ClusterAffiliates s1) = (found, a)"
    by fastforce
  show ?thesis
  proof (cases found)
    case None
    then have "s' = s1\<lparr>ClusterAffiliates := a\<rparr>"
      using assms(2) by (simp add: AffiliateDelete_def s1 sec)
    then show ?thesis using gc sec None by (simp add: delete_messages_def)
  next
    case (Some v)
    then have "broadcast \<lparr>msg_ClusterAffiliates = [v], Deleted = True\<rparr> (s1\<lparr>ClusterAffiliates := a\<rparr>) = Ok s'"
      using assms(2) by (simp add: AffiliateDelete_def s1 sec)
    then have "after_messages [\<lparr>msg_ClusterAffiliates = [v], Deleted = True\<rparr>] s1 s' \<and> ClusterAffiliates s' = a"
      using broadcast_messages [of "s1\<lparr>ClusterAffiliates := a\<rparr>" _ s'] wf1 by simp
    then show ?thesis
      using gc sec Some after_messages_trans by (fastforce simp: delete_messages_def)
  qed
qed

lemma broadcastCurrentState_messages:
  assumes "wf_watchers s" "broadcastCurrentState ks s = Ok s'"
  shows "after_messages (current_messages ks (ClusterAffiliates s)) s s'
         \<and> ClusterAffiliates s' = ClusterAffiliates s"
  using assms broadcast_messages [of s _ s']
  by (auto simp: broadcastCurrentState_def current_messages_def Let_def split: if_splits)

lemma List_affiliates_messages:
  assumes "wf_watchers s" "List_affiliates gnow gks cks ks r s = Ok (l, s')"
  shows "after_messages (gc_messages gnow gks (ClusterAffiliates s)) s s'
         \<and> ClusterAffiliates s' = snd (collectGarbage_section gnow gks (ClusterAffiliates s))
         \<and> l = List_section (get_req [] r) cks ks (ClusterAffiliates s')"
  using assms collectGarbage_messages [of s gnow gks s']
  by (auto simp: List_affiliates_def and_then_Ok_iff)

end
