(* ===== verification/Discovery_Mirror.thy ===== *)
theory Discovery_Mirror
  imports Discovery_Messages
begin

text \<open>
  Followers of the broadcasts. Whoever applies every message in order keeps a view of the affiliate
  map; the interface is a locale, interpreted for the state persister and for the stream that
  \<^verbatim>\<open>Watch\<close> sends to a client of one cluster.
\<close>

section \<open>The interface\<close>

text \<open>What a message says about the affiliate map. Every entry it carries has an affiliate.\<close>

definition message_effect ::
  "watch_response \<Rightarrow> (cluster_affiliate_id \<rightharpoonup> cluster_affiliate) \<Rightarrow> (cluster_affiliate_id \<rightharpoonup> cluster_affiliate)" where
  "message_effect msg m =
     (let vs = msg_ClusterAffiliates msg
      in if Deleted msg then delete_keys (map key_of vs) m
         else store_all (map (\<lambda>v. (key_of v, v)) vs) m)"

definition carries :: "watch_response \<Rightarrow> bool" where
  "carries msg \<longleftrightarrow> (\<forall>v \<in> set (msg_ClusterAffiliates msg). ca_Affiliate v \<noteq> None)"

locale mirror =
  fixes follow :: "watch_response \<Rightarrow> 'v \<Rightarrow> 'v"
    and view :: "(cluster_affiliate_id \<rightharpoonup> cluster_affiliate) \<Rightarrow> 'v"
  assumes follow_message: "carries msg \<Longrightarrow> follow msg (view m) = view (message_effect msg m)"
begin

lemma follow_messages:
  "(\<And>msg. msg \<in> set ms \<Longrightarrow> carries msg) \<Longrightarrow> fold follow ms (view m) = view (fold message_effect ms m)"
  by (induction ms arbitrary: m) (simp_all add: follow_message)

end

section \<open>The messages of each operation describe its effect\<close>

lemma gc_messages_effect:
  assumes wf: "wf_store a" and ord: "is_order ks (or_make a)"
  shows "fold message_effect (gc_messages now ks a) (or_make a)
           = or_make (snd (collectGarbage_section now ks a))"
    and "msg \<in> set (gc_messages now ks a) \<Longrightarrow> carries msg"
proof -
  let ?m = "or_make a" and ?d = "fst (collectGarbage_section now ks a)"
  note del = collectGarbage_section_deleted [OF ord, of now]
  have keys: "delete_keys (map key_of ?d) ?m = unexpired now ?m"
  proof
    fix k show "delete_keys (map key_of ?d) ?m k = unexpired now ?m k"
      using wf by (cases "?m k") (auto simp: del unexpired_def wf_map_def image_iff)
  qed
  then have "?d = [] \<Longrightarrow> unexpired now ?m = ?m" by simp
  then show "fold message_effect (gc_messages now ks a) (or_make a)
           = or_make (snd (collectGarbage_section now ks a))"
    using keys by (simp add: gc_messages_def collectGarbage_section_store [OF ord] message_effect_def Let_def)
  have "ca_Affiliate v \<noteq> None" if "v \<in> set ?d" for v
    using that wf unfolding del wf_map_def by blast
  then show "msg \<in> set (gc_messages now ks a) \<Longrightarrow> carries msg"
    by (auto simp: gc_messages_def carries_def Let_def split: if_splits)
qed

lemma update_messages_effect:
  assumes wf: "wf_store a" and ord: "is_order gks (or_make a)"
  shows "fold message_effect (update_messages gnow gks now eks r a) (or_make a)
           = or_make (snd (snd (AffiliateUpdate_section now eks r (snd (collectGarbage_section gnow gks a)))))"
    and "msg \<in> set (update_messages gnow gks now eks r a) \<Longrightarrow> carries msg"
proof -
  let ?a = "snd (collectGarbage_section gnow gks a)"
  obtain v new b where sec: "AffiliateUpdate_section now eks r ?a = (v, new, b)"
    by (metis prod_cases3)
  then have b: "or_make b = (or_make ?a)(key_of v \<mapsto> v)" and v: "ca_Affiliate v \<noteq> None"
    by (auto simp: AffiliateUpdate_section_def Let_def key_of_def GetId_def)
  then show "fold message_effect (update_messages gnow gks now eks r a) (or_make a)
      = or_make (snd (snd (AffiliateUpdate_section now eks r ?a)))"
    by (simp add: update_messages_def sec gc_messages_effect [OF wf ord] message_effect_def)
  show "msg \<in> set (update_messages gnow gks now eks r a) \<Longrightarrow> carries msg"
    using v gc_messages_effect(2) [OF wf ord] by (auto simp: update_messages_def sec carries_def)
qed

lemma delete_messages_effect:
  assumes wf: "wf_store a" and ord: "is_order gks (or_make a)"
  shows "fold message_effect (delete_messages gnow gks r a) (or_make a)
           = or_make (snd (AffiliateDelete_section r (snd (collectGarbage_section gnow gks a))))"
    and "msg \<in> set (delete_messages gnow gks r a) \<Longrightarrow> carries msg"
proof -
  let ?a = "snd (collectGarbage_section gnow gks a)"
  have wf': "wf_store ?a"
    using wf_map_le [OF unexpired_le wf] by (simp add: collectGarbage_section_store [OF ord])
  note gc = gc_messages_effect [OF wf ord, where now = gnow]
  have "fold message_effect (delete_messages gnow gks r a) (or_make a)
           = or_make (snd (AffiliateDelete_section r ?a)) \<and> (msg \<in> set (delete_messages gnow gks r a) \<longrightarrow> carries msg)"
  proof (cases "fst (AffiliateDelete_section r ?a)")
    case None
    then show ?thesis using gc
      by (auto simp: delete_messages_def AffiliateDelete_section_def Let_def split: option.splits)
  next
    case (Some v)
    then obtain k where k: "or_make ?a k = Some v"
      and b: "or_make (snd (AffiliateDelete_section r ?a)) = (or_make ?a)(k := None)"
      by (auto simp: AffiliateDelete_section_def Let_def split: option.splits)
    have "key_of v = k" "ca_Affiliate v \<noteq> None" using wf' k by (auto simp: wf_map_def)
    then show ?thesis using b gc
      by (auto simp: delete_messages_def Some message_effect_def delete_keys_Cons carries_def)
  qed
  then show "fold message_effect (delete_messages gnow gks r a) (or_make a)
           = or_make (snd (AffiliateDelete_section r ?a))"
    and "msg \<in> set (delete_messages gnow gks r a) \<Longrightarrow> carries msg" by blast+
qed

lemma current_messages_effect:
  assumes wf: "wf_store a" and ord: "is_order ks (or_make a)"
  shows "fold message_effect (current_messages ks a) (or_make a) = or_make a"
    and "msg \<in> set (current_messages ks a) \<Longrightarrow> carries msg"
proof -
  let ?vs = "broadcastCurrentState_section ks a"
  have vs: "ca_Affiliate v \<noteq> None \<and> or_make a (key_of v) = Some v" if "v \<in> set ?vs" for v
    using that wf ord
    by (auto simp: broadcastCurrentState_section_def set_range_over_order wf_map_def split: option.splits)
  then have "store_all (map (\<lambda>v. (key_of v, v)) ?vs) (or_make a) = or_make a"
    by (auto intro!: store_all_same)
  then show "fold message_effect (current_messages ks a) (or_make a) = or_make a"
    by (simp add: current_messages_def message_effect_def Let_def)
  show "msg \<in> set (current_messages ks a) \<Longrightarrow> carries msg"
    using vs by (auto simp: current_messages_def Let_def carries_def split: if_splits)
qed

section \<open>The state persister\<close>

text \<open>The persister keeps the entries that have an affiliate ID.\<close>

definition named :: "(cluster_affiliate_id \<rightharpoonup> 'v) \<Rightarrow> (cluster_affiliate_id \<rightharpoonup> 'v)" where
  "named m = m |` {k. key_AffiliateID k \<noteq> []}"

lemma named_apply [simp]: "named m k = (if key_AffiliateID k = [] then None else m k)"
  by (simp add: named_def restrict_map_def)

lemma persist_put_named: "persist_put v (named m) = named (m(key_of v \<mapsto> v))"
  by (auto simp: persist_put_def Let_def fun_eq_iff)

lemma persist_delete_named: "persist_delete v (named m) = named (m(key_of v := None))"
  by (auto simp: persist_delete_def Let_def fun_eq_iff)

lemma persist_puts: "fold persist_put vs (named m) = named (store_all (map (\<lambda>v. (key_of v, v)) vs) m)"
  by (induction vs arbitrary: m) (simp_all add: persist_put_named)

lemma persist_deletes: "fold persist_delete vs (named m) = named (delete_keys (map key_of vs) m)"
  by (induction vs arbitrary: m) (simp_all add: persist_delete_named delete_keys_Cons)

interpretation persister: mirror persist_message named
  by unfold_locales (simp add: persist_message_def message_effect_def persist_puts persist_deletes)

section \<open>A client of Watch\<close>

text \<open>
  The view of a client of one cluster: the affiliates by ID. It applies a response of the stream
  as the discovery protocol asks: responses marked deleted remove the IDs they name, the others
  add or replace.
\<close>

definition client_apply :: "sent_response \<Rightarrow> (string \<rightharpoonup> affiliate) \<Rightarrow> (string \<rightharpoonup> affiliate)" where
  "client_apply r v =
     (if sent_Deleted r then delete_keys (map Affiliate_Id (sent_Affiliates r)) v
      else store_all (map (\<lambda>a. (Affiliate_Id a, a)) (sent_Affiliates r)) v)"

definition client_follow ::
  "string \<Rightarrow> watch_response \<Rightarrow> (string \<rightharpoonup> affiliate) \<Rightarrow> (string \<rightharpoonup> affiliate)" where
  "client_follow clusterID msg v =
     (case watch_message clusterID msg of None \<Rightarrow> v | Some r \<Rightarrow> client_apply r v)"

text \<open>What \<^verbatim>\<open>watch_message\<close> sends, as a function of the entries of the cluster.\<close>

definition cluster_affiliates :: "string \<Rightarrow> cluster_affiliate list \<Rightarrow> affiliate list" where
  "cluster_affiliates clusterID cas =
     List.map_filter ca_Affiliate (filter (\<lambda>ca. ca_ClusterID ca = clusterID) cas)"

lemma cluster_affiliates_simps [simp]:
  "cluster_affiliates cid [] = []"
  "cluster_affiliates cid (v # vs) =
     (if ca_ClusterID v = cid
      then (case ca_Affiliate v of None \<Rightarrow> cluster_affiliates cid vs
                                 | Some a \<Rightarrow> a # cluster_affiliates cid vs)
      else cluster_affiliates cid vs)"
  by (simp_all add: cluster_affiliates_def map_filter_simps split: option.split)

lemma strip_ids: "map Affiliate_Id (stripAffiliateContent (map Some as)) = map Affiliate_Id as"
  by (induction as) (simp_all add: stripAffiliateContent_def map_filter_simps)

lemma client_follow_eq:
  "client_follow cid msg v =
     (let as = cluster_affiliates cid (msg_ClusterAffiliates msg)
      in if Deleted msg then delete_keys (map Affiliate_Id as) v
         else store_all (map (\<lambda>a. (Affiliate_Id a, a)) as) v)"
proof (cases "filter (\<lambda>ca. ca_ClusterID ca = cid) (msg_ClusterAffiliates msg) = []")
  case True
  then show ?thesis
    by (simp add: client_follow_def watch_message_def clusterAffiliateCount_def
        cluster_affiliates_def delete_keys_def map_filter_simps)
next
  case False
  then show ?thesis
    by (simp add: client_follow_def watch_message_def clusterAffiliateCount_def client_apply_def
        strip_ids cluster_affiliates_def Let_def)
qed

lemma cluster_view_put:
  assumes "ca_Affiliate v = Some a"
  shows "cluster_view cid (m(key_of v \<mapsto> v)) =
     (if ca_ClusterID v = cid then (cluster_view cid m)(Affiliate_Id a \<mapsto> a) else cluster_view cid m)"
  using assms by (auto simp: cluster_view_def key_of_def GetId_def fun_eq_iff)

lemma cluster_view_delete:
  assumes "ca_Affiliate v = Some a"
  shows "cluster_view cid (m(key_of v := None)) =
     (if ca_ClusterID v = cid then (cluster_view cid m)(Affiliate_Id a := None) else cluster_view cid m)"
  using assms by (auto simp: cluster_view_def key_of_def GetId_def fun_eq_iff)

lemma cluster_view_puts:
  assumes "\<And>v. v \<in> set vs \<Longrightarrow> ca_Affiliate v \<noteq> None"
  shows "store_all (map (\<lambda>a. (Affiliate_Id a, a)) (cluster_affiliates cid vs)) (cluster_view cid m)
           = cluster_view cid (store_all (map (\<lambda>v. (key_of v, v)) vs) m)"
  using assms
proof (induction vs arbitrary: m)
  case (Cons v vs)
  then obtain a where a: "ca_Affiliate v = Some a" by fastforce
  let ?kv = "map (\<lambda>a. (Affiliate_Id a, a)) (cluster_affiliates cid vs)"
  have "store_all (map (\<lambda>a. (Affiliate_Id a, a)) (cluster_affiliates cid (v # vs))) (cluster_view cid m)
          = store_all ?kv (cluster_view cid (m(key_of v \<mapsto> v)))"
    by (simp only: cluster_view_put [OF a]) (simp add: a)
  also have "\<dots> = cluster_view cid (store_all (map (\<lambda>v. (key_of v, v)) vs) (m(key_of v \<mapsto> v)))"
    using Cons.prems by (intro Cons.IH) simp
  finally show ?case by simp
qed simp

lemma cluster_view_deletes:
  assumes "\<And>v. v \<in> set vs \<Longrightarrow> ca_Affiliate v \<noteq> None"
  shows "delete_keys (map Affiliate_Id (cluster_affiliates cid vs)) (cluster_view cid m)
           = cluster_view cid (delete_keys (map key_of vs) m)"
  using assms
proof (induction vs arbitrary: m)
  case (Cons v vs)
  then obtain a where a: "ca_Affiliate v = Some a" by fastforce
  have "delete_keys (map Affiliate_Id (cluster_affiliates cid (v # vs))) (cluster_view cid m)
          = delete_keys (map Affiliate_Id (cluster_affiliates cid vs)) (cluster_view cid (m(key_of v := None)))"
    by (simp only: cluster_view_delete [OF a]) (simp add: a delete_keys_Cons)
  also have "\<dots> = cluster_view cid (delete_keys (map key_of vs) (m(key_of v := None)))"
    using Cons.prems by (intro Cons.IH) simp
  finally show ?case by (simp only: list.map delete_keys_Cons)
qed simp

interpretation client: mirror "client_follow cid" "cluster_view cid" for cid
  by unfold_locales
    (simp add: client_follow_eq message_effect_def carries_def Let_def cluster_view_puts cluster_view_deletes)

end
