(* ===== verification/Discovery_System.thy ===== *)
theory Discovery_System
  imports Discovery_Mirror
begin

text \<open>
  The discovery server as a state machine: one step per completed call, per turn of the garbage
  collection loop, per message a goroutine receives and per cycle of the runtime's garbage
  collector; its invariant; the persister running beside it.
\<close>

section \<open>Steps\<close>

datatype server_event =
    Served
  | Received nat watch_response
  | Reclaimed "nat set"
  | ServerClosed

abbreviation affiliates_of :: "server \<Rightarrow> (cluster_affiliate_id \<rightharpoonup> cluster_affiliate)" where
  "affiliates_of s \<equiv> or_make (ClusterAffiliates s)"

text \<open>The endpoints map an update ranges over, after the garbage collection it starts with.\<close>

definition update_key :: "affiliate_update_request option \<Rightarrow> cluster_affiliate_id" where
  "update_key r = (let req = get_req zero_update_request r
                   in ClusterAffiliateID (upd_ClusterId req) (upd_AffiliateId req))"

definition previous_affiliate ::
  "(cluster_affiliate_id \<rightharpoonup> cluster_affiliate) \<Rightarrow> cluster_affiliate_id \<Rightarrow> affiliate option" where
  "previous_affiliate m k = (case m k of None \<Rightarrow> None | Some v \<Rightarrow> ca_Affiliate v)"

definition update_endpoints ::
  "affiliate_update_request option \<Rightarrow> (cluster_affiliate_id \<rightharpoonup> cluster_affiliate) \<Rightarrow> (bytes \<rightharpoonup> bytes)" where
  "update_endpoints r m =
     merge_endpoints (GetEndpoints (previous_affiliate m (update_key r)))
       (upd_AffiliateEndpoints (get_req zero_update_request r))"

text \<open>
  A new watch takes a variable and a channel that do not exist yet; a weak pointer never comes to
  point to a new object.
\<close>

inductive server_step :: "server \<Rightarrow> server_event \<Rightarrow> server \<Rightarrow> bool" where
  update: "is_order gks (affiliates_of s) \<Longrightarrow>
     is_order eks (update_endpoints r (unexpired gnow (affiliates_of s))) \<Longrightarrow>
     AffiliateUpdate gnow gks now eks r s = Ok s' \<Longrightarrow> server_step s Served s'"
| delete: "is_order gks (affiliates_of s) \<Longrightarrow> AffiliateDelete gnow gks dr s = Ok s' \<Longrightarrow> server_step s Served s'"
| list: "is_order gks (affiliates_of s) \<Longrightarrow>
     is_order cks (unexpired gnow (affiliates_of s)) \<Longrightarrow> is_order ks (unexpired gnow (affiliates_of s)) \<Longrightarrow>
     List_affiliates gnow gks cks ks lr s = Ok (l, s') \<Longrightarrow> server_step s Served s'"
| tick: "is_order gks (affiliates_of s) \<Longrightarrow> is_order ks (unexpired gnow (affiliates_of s)) \<Longrightarrow>
     gc_turn (Tick gnow gks ks) s = Ok (True, s') \<Longrightarrow> server_step s Served s'"
| watch: "is_order gks (affiliates_of s) \<Longrightarrow>
     chanVars s w = None \<Longrightarrow> w \<notin> set (watchers s) \<Longrightarrow> chans s c = None \<Longrightarrow>
     Watch_start w c gnow gks s = Ok s' \<Longrightarrow> server_step s Served s'"
| watch_end: "server_step s Served (Watch_end w s)"
| receive: "chans s c = Some ch \<Longrightarrow> Queue ch = m # q \<Longrightarrow>
     server_step s (Received c m) (s\<lparr>chans := (chans s)(c \<mapsto> ch\<lparr>Queue := q\<rparr>)\<rparr>)"
| reclaim: "server_step s (Reclaimed R) (go_gc R s)"
| closing: "Close s = Ok s' \<Longrightarrow> server_step s ServerClosed s'"

section \<open>The invariant\<close>

definition server_inv :: "server \<Rightarrow> bool" where
  "server_inv s \<longleftrightarrow> wf_store (ClusterAffiliates s) \<and> wf_watchers s \<and>
     (\<forall>w c. chanVars s w = Some c \<longrightarrow> chans s c \<noteq> None)"

lemma AffiliateUpdate_section_store:
  assumes "AffiliateUpdate_section now eks r a = (aff, new, a')"
  shows "or_make a' = (or_make a)(update_key r \<mapsto> aff)" and "key_of aff = update_key r"
    and "\<exists>x. ca_Affiliate aff = Some x" and "new \<longleftrightarrow> or_make a (update_key r) = None"
  using assms by (auto simp: AffiliateUpdate_section_def Let_def update_key_def key_of_def GetId_def)

lemma AffiliateUpdate_section_entry:
  assumes "AffiliateUpdate_section now eks r a = (aff, new, a')"
    and ord: "is_order eks (update_endpoints r (or_make a))"
  shows "aff = \<lparr>ca_Affiliate = Some
        \<lparr>Affiliate_Id = key_AffiliateID (update_key r),
         Affiliate_Data = (case upd_AffiliateData (get_req zero_update_request r) of
             Some d \<Rightarrow> Some d | None \<Rightarrow> GetData (previous_affiliate (or_make a) (update_key r))),
         Affiliate_Endpoints = eks\<rparr>,
      ca_ClusterID = key_ClusterID (update_key r),
      RemoveAfter = time_add now (if upd_Ttl (get_req zero_update_request r) = 0 then minutes 15
                                  else upd_Ttl (get_req zero_update_request r))\<rparr>"
proof -
  let ?req = "get_req zero_update_request r"
  have prev: "ca_Affiliate (case or_make a (update_key r) of None \<Rightarrow> zero_cluster_affiliate | Some v \<Rightarrow> v)
      = previous_affiliate (or_make a) (update_key r)"
    by (simp add: previous_affiliate_def zero_cluster_affiliate_def split: option.split)
  have eks: "map snd (range_over eks (merge_endpoints
       (GetEndpoints (previous_affiliate (or_make a) (update_key r))) (upd_AffiliateEndpoints ?req))) = eks"
    using ord by (intro merged_endpoints(1)) (simp add: update_endpoints_def)
  show ?thesis
    using assms(1) prev eks
    by (cases "upd_AffiliateData ?req")
      (auto simp: AffiliateUpdate_section_def Let_def update_key_def split: option.splits)
qed

text \<open>The endpoints after an update: those known before and those given, each once.\<close>

lemma update_endpoints_order:
  assumes "is_order eks (update_endpoints r m)"
  shows "distinct eks" and "set eks = set (GetEndpoints (previous_affiliate m (update_key r)))
                                    \<union> set (upd_AffiliateEndpoints (get_req zero_update_request r))"
  using merged_endpoints(2,3) assms unfolding update_endpoints_def by blast+

lemma AffiliateDelete_section_store:
  "or_make (snd (AffiliateDelete_section r a)) =
     (or_make a)(ClusterAffiliateID (del_ClusterId (get_req zero_delete_request r))
                   (del_AffiliateId (get_req zero_delete_request r)) := None)"
  by (auto simp: AffiliateDelete_section_def Let_def fun_eq_iff split: option.splits)

text \<open>Everything that only sends messages and rewrites the map keeps the channel part.\<close>

lemma after_messages_inv:
  assumes "server_inv s" "after_messages ms s s'" "wf_store (ClusterAffiliates s')"
  shows "server_inv s'"
  using assms by (auto simp: server_inv_def after_messages_def split: if_splits)

lemma wf_store_gc:
  "wf_store a \<Longrightarrow> is_order ks (or_make a) \<Longrightarrow> wf_store (snd (collectGarbage_section now ks a))"
  by (simp add: collectGarbage_section_store wf_map_le [OF unexpired_le])

text \<open>
  Each served call, seen by a follower: the messages sent and the map afterwards, which the
  messages lead to from the map before.
\<close>

definition serves :: "server \<Rightarrow> server \<Rightarrow> bool" where
  "serves s s' \<longleftrightarrow> (\<exists>ms. after_messages ms s s' \<and> wf_store (ClusterAffiliates s') \<and>
     (\<forall>msg \<in> set ms. carries msg) \<and> fold message_effect ms (affiliates_of s) = affiliates_of s')"

lemma collectGarbage_serves:
  assumes inv: "server_inv s" and ord: "is_order gks (affiliates_of s)"
    and "collectGarbage gnow gks s = Ok s'"
  shows "serves s s' \<and> affiliates_of s' = unexpired gnow (affiliates_of s)"
proof -
  have wf: "wf_store (ClusterAffiliates s)" "wf_watchers s" using inv by (auto simp: server_inv_def)
  note g = collectGarbage_messages [OF wf(2) assms(3)]
  have "serves s s'"
    unfolding serves_def using g gc_messages_effect [OF wf(1) ord]
    by (intro exI [of _ "gc_messages gnow gks (ClusterAffiliates s)"]) (simp add: wf_store_gc [OF wf(1) ord])
  then show ?thesis using g by (simp add: collectGarbage_section_store [OF ord])
qed

lemma AffiliateUpdate_serves:
  assumes inv: "server_inv s" and ord: "is_order gks (affiliates_of s)"
    and "AffiliateUpdate gnow gks now eks r s = Ok s'"
  shows "serves s s'"
proof -
  let ?a = "ClusterAffiliates s"
  have wf: "wf_store ?a" "wf_watchers s" using inv by (auto simp: server_inv_def)
  note u = AffiliateUpdate_messages [OF wf(2) assms(3)]
  obtain aff new a' where sec:
    "AffiliateUpdate_section now eks r (snd (collectGarbage_section gnow gks ?a)) = (aff, new, a')"
    by (metis prod_cases3)
  have a': "ClusterAffiliates s' = a'" using u sec by simp
  have "wf_store a'"
    using AffiliateUpdate_section_store [OF sec] wf_store_gc [OF wf(1) ord] wf_map_upd by metis
  then show ?thesis
    unfolding serves_def using u a' update_messages_effect [OF wf(1) ord]
    by (intro exI [of _ "update_messages gnow gks now eks r ?a"]) simp
qed

lemma AffiliateDelete_serves:
  assumes inv: "server_inv s" and ord: "is_order gks (affiliates_of s)"
    and "AffiliateDelete gnow gks r s = Ok s'"
  shows "serves s s'"
proof -
  let ?a = "ClusterAffiliates s"
  have wf: "wf_store ?a" "wf_watchers s" using inv by (auto simp: server_inv_def)
  note d = AffiliateDelete_messages [OF wf(2) assms(3)]
  have "wf_store (ClusterAffiliates s')"
    using wf_store_gc [OF wf(1) ord, of gnow]
    by (simp add: d AffiliateDelete_section_store wf_map_del)
  then show ?thesis
    unfolding serves_def
    using d delete_messages_effect [OF wf(1) ord]
    by (intro exI [of _ "delete_messages gnow gks r ?a"]) simp
qed

lemma broadcastCurrentState_serves:
  assumes inv: "server_inv s" and ord: "is_order ks (affiliates_of s)"
    and "broadcastCurrentState ks s = Ok s'"
  shows "serves s s' \<and> ClusterAffiliates s' = ClusterAffiliates s"
proof -
  have wf: "wf_store (ClusterAffiliates s)" "wf_watchers s" using inv by (auto simp: server_inv_def)
  note b = broadcastCurrentState_messages [OF wf(2) assms(3)]
  then show ?thesis
    unfolding serves_def using wf(1) current_messages_effect [OF wf(1) ord]
    by (intro conjI exI [of _ "current_messages ks (ClusterAffiliates s)"]) simp_all
qed

lemma serves_trans:
  assumes "serves s s'" "serves s' s''"
  shows "serves s s''"
proof -
  obtain ms where "after_messages ms s s'" "\<forall>msg \<in> set ms. carries msg"
      "fold message_effect ms (affiliates_of s) = affiliates_of s'"
    using assms(1) by (auto simp: serves_def)
  moreover obtain ns where "after_messages ns s' s''" "\<forall>msg \<in> set ns. carries msg"
      "fold message_effect ns (affiliates_of s') = affiliates_of s''" "wf_store (ClusterAffiliates s'')"
    using assms(2) by (auto simp: serves_def)
  ultimately show ?thesis
    unfolding serves_def by (intro exI [of _ "ms @ ns"]) (auto intro: after_messages_trans)
qed

lemma serves_inv: "server_inv s \<Longrightarrow> serves s s' \<Longrightarrow> server_inv s'"
  unfolding serves_def using after_messages_inv by blast

lemma gc_turn_serves:
  assumes inv: "server_inv s" and ord: "is_order gks (affiliates_of s)"
    and ord': "is_order ks (unexpired gnow (affiliates_of s))"
    and "gc_turn (Tick gnow gks ks) s = Ok (go, s')"
  shows "serves s s' \<and> affiliates_of s' = unexpired gnow (affiliates_of s)"
proof -
  obtain s1 where s1: "collectGarbage gnow gks s = Ok s1" and b: "broadcastCurrentState ks s1 = Ok s'"
    using assms(4) by (auto simp: and_then_Ok_iff)
  note g = collectGarbage_serves [OF inv ord s1]
  then have "serves s1 s' \<and> ClusterAffiliates s' = ClusterAffiliates s1"
    using b ord' serves_inv [OF inv] by (intro broadcastCurrentState_serves) auto
  then show ?thesis using g serves_trans by auto
qed

lemma Watch_start_registers:
  assumes inv: "server_inv s" and "chanVars s w = None" "w \<notin> set (watchers s)" "chans s c = None"
  shows "server_inv (s\<lparr>chanVars := (chanVars s)(w \<mapsto> c), frames := insert w (frames s),
         chans := (chans s)(c \<mapsto> make_chan watch_capacity), watchers := watchers s @ [w]\<rparr>)"
proof -
  have "chanVars s v \<noteq> Some c" for v using assms(1,4) unfolding server_inv_def by metis
  then show ?thesis using assms unfolding server_inv_def wf_watchers_def by auto
qed

lemma Close_Ok:
  assumes "Close s = Ok s'"
  shows "\<exists>cs. s' = s\<lparr>killGarbageCollector_closed := True, chans := cs\<rparr> \<and>
     (\<forall>c. (cs c = None \<longleftrightarrow> chans s c = None) \<and> map_option Queue (cs c) = map_option Queue (chans s c))
     \<and> (\<forall>c. c \<notin> live_chans s \<longrightarrow> cs c = chans s c)"
proof -
  have "(\<forall>c. (cs' c = None \<longleftrightarrow> cs c = None) \<and> map_option Queue (cs' c) = map_option Queue (cs c))
        \<and> (\<forall>c. (\<forall>w \<in> set ws. vars w \<noteq> Some c) \<longrightarrow> cs' c = cs c)"
    if "close_all ws vars cs = Ok cs'" for ws vars cs cs'
    using that
  proof (induction ws arbitrary: cs)
    case (Cons w ws)
    show ?case
    proof (cases "vars w")
      case (Some c)
      then obtain ch where "cs c = Some ch" "close_all ws vars (cs(c \<mapsto> ch\<lparr>Closed := True\<rparr>)) = Ok cs'"
        using Cons.prems by (auto simp: close_chan_def and_then_Ok_iff split: option.splits if_splits)
      then show ?thesis using Cons.IH [of "cs(c \<mapsto> ch\<lparr>Closed := True\<rparr>)"] Some
        by (auto simp: fun_upd_def split: if_splits)
    qed (use Cons in auto)
  qed simp
  then show ?thesis
    using assms by (fastforce simp: Close_def and_then_Ok_iff live_chans_def split: if_splits)
qed

lemma Close_keeps_queue:
  assumes "Close s = Ok s'" "chans s c = Some ch"
  shows "\<exists>ch'. chans s' c = Some ch' \<and> Queue ch' = Queue ch \<and> ClusterAffiliates s' = ClusterAffiliates s"
proof -
  obtain cs where s': "s' = s\<lparr>killGarbageCollector_closed := True, chans := cs\<rparr>"
    and q: "map_option Queue (cs c) = map_option Queue (chans s c)"
    using Close_Ok [OF assms(1)] by blast
  then obtain ch' where "cs c = Some ch'" "Queue ch' = Queue ch"
    using assms(2) by (cases "cs c") auto
  then show ?thesis using s' by simp
qed

lemma go_gc_simps [simp]:
  "ClusterAffiliates (go_gc R s) = ClusterAffiliates s" "chans (go_gc R s) = chans s"
  "watchers (go_gc R s) = watchers s"
  by (simp_all add: go_gc_def)

lemma go_gc_inv: "server_inv s \<Longrightarrow> server_inv (go_gc R s)"
  by (auto simp: server_inv_def wf_watchers_def go_gc_def restrict_map_def split: if_splits)

lemma receive_inv:
  "server_inv s \<Longrightarrow> chans s c = Some ch \<Longrightarrow> server_inv (s\<lparr>chans := (chans s)(c \<mapsto> ch')\<rparr>)"
  by (auto simp: server_inv_def wf_watchers_def)

lemma Close_inv: "server_inv s \<Longrightarrow> Close s = Ok s' \<Longrightarrow> server_inv s'"
  by (fastforce simp: server_inv_def wf_watchers_def dest!: Close_Ok)

text \<open>The state in which \<^verbatim>\<open>Watch_start\<close> collects garbage: the new watcher is registered.\<close>

definition registered :: "nat \<Rightarrow> nat \<Rightarrow> server \<Rightarrow> server" where
  "registered w c s = s\<lparr>chanVars := (chanVars s)(w \<mapsto> c), frames := insert w (frames s),
     chans := (chans s)(c \<mapsto> make_chan watch_capacity), watchers := watchers s @ [w]\<rparr>"

lemma Watch_start_registered: "Watch_start w c gnow gks s = collectGarbage gnow gks (registered w c s)"
  by (simp add: Watch_start_def registered_def)

lemma registered_simps [simp]:
  "ClusterAffiliates (registered w c s) = ClusterAffiliates s"
  "chans (registered w c s) = (chans s)(c \<mapsto> make_chan watch_capacity)"
  by (simp_all add: registered_def)

lemma registered_live_old:
  "c' \<in> live_chans s \<Longrightarrow> chanVars s w = None \<Longrightarrow> c' \<in> live_chans (registered w c s)"
  unfolding registered_def live_chans_def by auto (metis option.distinct(1))

lemma registered_live: "c \<in> live_chans (registered w c s)"
  by (auto simp: registered_def live_chans_def)

lemma Watch_start_serves:
  assumes "server_inv s" "is_order gks (affiliates_of s)"
    and "chanVars s w = None" "w \<notin> set (watchers s)" "chans s c = None"
    and "Watch_start w c gnow gks s = Ok s'"
  shows "server_inv (registered w c s)" and "serves (registered w c s) s'"
proof -
  show inv: "server_inv (registered w c s)"
    unfolding registered_def using assms(1,3-5) by (rule Watch_start_registers)
  show "serves (registered w c s) s'"
    using collectGarbage_serves [OF inv] assms(2,6) by (simp add: Watch_start_registered)
qed

lemma List_affiliates_serves:
  assumes "server_inv s" "is_order gks (affiliates_of s)" "List_affiliates gnow gks cks ks r s = Ok (l, s')"
  shows "serves s s'"
  using assms collectGarbage_serves [of s gks gnow s'] by (auto simp: List_affiliates_def and_then_Ok_iff)

text \<open>
  Every step is one of: a call that serves messages (perhaps after registering a watcher), a
  message taken from a channel, a step that leaves queues and map alone, or closing.
\<close>

inductive step_kind :: "server \<Rightarrow> server_event \<Rightarrow> server \<Rightarrow> bool" where
  serving: "serves s s' \<Longrightarrow> step_kind s Served s'"
| registering: "server_inv (registered w c s) \<Longrightarrow> chanVars s w = None \<Longrightarrow> chans s c = None
    \<Longrightarrow> serves (registered w c s) s' \<Longrightarrow> step_kind s Served s'"
| ending: "step_kind s Served (Watch_end w s)"
| receiving: "chans s c = Some ch \<Longrightarrow> Queue ch = m # q
    \<Longrightarrow> step_kind s (Received c m) (s\<lparr>chans := (chans s)(c \<mapsto> ch\<lparr>Queue := q\<rparr>)\<rparr>)"
| reclaiming: "step_kind s (Reclaimed R) (go_gc R s)"
| shutting: "Close s = Ok s' \<Longrightarrow> step_kind s ServerClosed s'"

lemma server_step_kind: "server_step s e s' \<Longrightarrow> server_inv s \<Longrightarrow> step_kind s e s'"
  by (induction rule: server_step.induct)
    (blast intro: step_kind.intros AffiliateUpdate_serves AffiliateDelete_serves List_affiliates_serves
       gc_turn_serves [THEN conjunct1] Watch_start_serves)+

lemma server_step_inv:
  assumes "server_step s e s'" and "server_inv s"
  shows "server_inv s'"
  using server_step_kind [OF assms] assms(2)
proof cases
  case (ending w)
  then show ?thesis using assms(2) by (simp add: Watch_end_def server_inv_def wf_watchers_def)
qed (auto intro: serves_inv receive_inv go_gc_inv Close_inv)

section \<open>A follower beside the server\<close>

text \<open>
  The follower of channel \<open>c\<close> takes messages from it and applies them. Its view is in step when
  the messages still queued lead to the view of the current map.
\<close>

definition in_step ::
  "(watch_response \<Rightarrow> 'v \<Rightarrow> 'v) \<Rightarrow> ((cluster_affiliate_id \<rightharpoonup> cluster_affiliate) \<Rightarrow> 'v)
   \<Rightarrow> nat \<Rightarrow> server \<Rightarrow> 'v \<Rightarrow> bool" where
  "in_step follow view c s v \<longleftrightarrow>
     (\<exists>ch. chans s c = Some ch \<and> fold follow (Queue ch) v = view (affiliates_of s))"

definition follower_reacts ::
  "(watch_response \<Rightarrow> 'v \<Rightarrow> 'v) \<Rightarrow> nat \<Rightarrow> server_event \<Rightarrow> 'v \<Rightarrow> 'v" where
  "follower_reacts follow c e v =
     (case e of Received c' m \<Rightarrow> if c' = c then follow m v else v | _ \<Rightarrow> v)"

text \<open>Runs during which the follower's channel variable is not reclaimed.\<close>

inductive follower_run ::
  "(watch_response \<Rightarrow> 'v \<Rightarrow> 'v) \<Rightarrow> nat \<Rightarrow> server \<Rightarrow> 'v \<Rightarrow> server \<Rightarrow> 'v \<Rightarrow> bool"
  for follow c s0 v0 where
  run_start: "c \<in> live_chans s0 \<Longrightarrow> follower_run follow c s0 v0 s0 v0"
| run_step: "follower_run follow c s0 v0 s v \<Longrightarrow> server_step s e s' \<Longrightarrow> c \<in> live_chans s' \<Longrightarrow>
     follower_run follow c s0 v0 s' (follower_reacts follow c e v)"

lemma follower_run_live: "follower_run follow c s0 v0 s v \<Longrightarrow> c \<in> live_chans s"
  by (induction rule: follower_run.induct)

context mirror
begin

lemma in_step_serves:
  assumes "in_step follow view c s v" "serves s s'" "c \<in> live_chans s"
  shows "in_step follow view c s' v"
proof -
  obtain ms where ms: "after_messages ms s s'" "\<forall>msg \<in> set ms. carries msg"
      "fold message_effect ms (affiliates_of s) = affiliates_of s'"
    using assms(2) by (auto simp: serves_def)
  obtain ch where ch: "chans s c = Some ch" "fold follow (Queue ch) v = view (affiliates_of s)"
    using assms(1) by (auto simp: in_step_def)
  have "fold follow (Queue (enqueue ms ch)) v = fold follow ms (view (affiliates_of s))"
    by (simp add: ch(2))
  also have "\<dots> = view (affiliates_of s')"
    using follow_messages [of ms "affiliates_of s"] ms(2,3) by auto
  finally have "fold follow (Queue (enqueue ms ch)) v = view (affiliates_of s')" .
  then show ?thesis
    using after_messages_queue [OF ms(1) assms(3) ch(1)] unfolding in_step_def by blast
qed

lemma in_step_register:
  "in_step follow view c s v \<Longrightarrow> chans s c' = None \<Longrightarrow> in_step follow view c (registered w c' s) v"
  by (auto simp: in_step_def)

lemma in_step_step:
  assumes "server_step s e s'" "server_inv s" "c \<in> live_chans s" "in_step follow view c s v"
  shows "in_step follow view c s' (follower_reacts follow c e v)"
  using server_step_kind [OF assms(1,2)]
proof cases
  case serving
  then show ?thesis using in_step_serves assms(3,4) by (simp add: follower_reacts_def)
next
  case (registering w c')
  then show ?thesis
    using in_step_serves [OF in_step_register] assms(3,4) registered_live_old by (simp add: follower_reacts_def)
next
  case (ending w)
  then show ?thesis using assms(4) by (simp add: follower_reacts_def in_step_def Watch_end_def)
next
  case (receiving c' ch m q)
  then show ?thesis using assms(4) by (auto simp: follower_reacts_def in_step_def)
next
  case (reclaiming R)
  then show ?thesis using assms(4) by (simp add: follower_reacts_def in_step_def)
next
  case shutting
  obtain ch where ch: "chans s c = Some ch" using assms(4) by (auto simp: in_step_def)
  then have "\<exists>ch'. chans s' c = Some ch' \<and> Queue ch' = Queue ch \<and> ClusterAffiliates s' = ClusterAffiliates s"
    by (rule Close_keeps_queue [OF shutting(2)])
  then show ?thesis using assms(4) shutting(1) ch by (auto simp: follower_reacts_def in_step_def)
qed

lemma run_in_step:
  assumes "follower_run follow c s0 v0 s v" "server_inv s0" "in_step follow view c s0 v0"
  shows "server_inv s \<and> in_step follow view c s v"
  using assms(1)
proof (induction rule: follower_run.induct)
  case run_start
  then show ?case using assms(2,3) by blast
next
  case (run_step s v e s')
  then have "server_inv s" "in_step follow view c s v" by simp_all
  then show ?case
    using in_step_step [OF run_step.hyps(2) _ follower_run_live [OF run_step.hyps(1)]]
      server_step_inv [OF run_step.hyps(2)] by simp
qed

lemma drained_view:
  "in_step follow view c s v \<Longrightarrow> chans s c = Some ch \<Longrightarrow> Queue ch = [] \<Longrightarrow> v = view (affiliates_of s)"
  by (simp add: in_step_def)

end

section \<open>A new server\<close>

lemma wf_initial_store: "wf_map (initial_store cas)"
proof -
  have "wf_map (store_all (map (\<lambda>a. (key_of a, a)) (filter (\<lambda>a. ca_Affiliate a \<noteq> None) cas)) m)"
    if "wf_map m" for m
    using that by (induction cas arbitrary: m) (auto intro!: wf_map_upd)
  then show ?thesis by (simp add: initial_store_def)
qed

lemma persister_init_named: "persister_init cas = named (initial_store cas)"
proof -
  have "fold persist_put cas (named m)
          = named (store_all (map (\<lambda>a. (key_of a, a)) (filter (\<lambda>a. ca_Affiliate a \<noteq> None) cas)) m)" for m
  proof (induction cas arbitrary: m)
    case (Cons a cas)
    show ?case
    proof (cases "ca_Affiliate a")
      case None
      then have "persist_put a x = x" for x by (simp add: persist_put_def key_of_def GetId_def)
      then show ?thesis by (simp add: None Cons.IH del: named_apply)
    next
      case (Some x)
      then show ?thesis by (simp add: persist_put_named Cons.IH del: named_apply fun_upd_apply)
    qed
  qed simp
  from this [of Map.empty] show ?thesis
    by (simp add: persister_init_def initial_store_def named_def)
qed

lemma NewClusterDiscoveryServer_inv: "server_inv (NewClusterDiscoveryServer w c options)"
  by (auto simp: NewClusterDiscoveryServer_def Let_def server_inv_def wf_watchers_def wf_initial_store
      split: if_splits)

lemma NewClusterDiscoveryServer_persister:
  assumes "opt_StateProvider (configured options) = Some cas"
  shows "in_step persist_message named c (NewClusterDiscoveryServer w c options) (persister_init cas)"
    and "c \<in> live_chans (NewClusterDiscoveryServer w c options)"
  using assms
  by (auto simp: NewClusterDiscoveryServer_def Let_def in_step_def make_chan_def persister_init_named
      live_chans_def)

text \<open>A channel that no weak pointer leads to gets no more messages.\<close>

definition cut_off :: "nat \<Rightarrow> server \<Rightarrow> bool" where
  "cut_off c s \<longleftrightarrow> server_inv s \<and> (\<forall>w. chanVars s w \<noteq> Some c) \<and> chans s c = Some (make_chan watch_capacity)"

lemma cut_off_serves: "cut_off c s \<Longrightarrow> serves s s' \<Longrightarrow> cut_off c s'"
  unfolding cut_off_def using serves_inv
  by (auto simp: serves_def after_messages_def live_chans_def)

lemma cut_off_registered:
  "cut_off c s \<Longrightarrow> server_inv (registered w c' s) \<Longrightarrow> chans s c' = None \<Longrightarrow> cut_off c (registered w c' s)"
  by (auto simp: cut_off_def registered_def)

lemma cut_off_step:
  assumes "server_step s e s'" and "cut_off c s"
  shows "cut_off c s'"
proof -
  have inv: "server_inv s" using assms(2) by (simp add: cut_off_def)
  from server_step_kind [OF assms(1) inv] show ?thesis
  proof cases
    case serving
    then show ?thesis using cut_off_serves assms(2) by blast
  next
    case (registering w c')
    then show ?thesis using cut_off_serves [OF cut_off_registered [OF assms(2)]] by blast
  next
    case (ending w)
    then show ?thesis using assms(2) by (simp add: cut_off_def Watch_end_def server_inv_def wf_watchers_def)
  next
    case (receiving c' ch m q)
    then show ?thesis using assms(2) receive_inv by (auto simp: cut_off_def make_chan_def)
  next
    case (reclaiming R)
    then show ?thesis using assms(2) go_gc_inv by (auto simp: cut_off_def go_gc_def restrict_map_def)
  next
    case shutting
    have "c \<notin> live_chans s" using assms(2) by (auto simp: cut_off_def live_chans_def)
    then have "chans s' c = chans s c" "chanVars s' = chanVars s" using Close_Ok [OF shutting(2)] by auto
    then show ?thesis using assms(2) Close_inv [OF inv shutting(2)] by (simp add: cut_off_def)
  qed
qed

inductive server_run :: "server \<Rightarrow> server \<Rightarrow> bool" for s0 where
  begins: "server_run s0 s0"
| continues: "server_run s0 s \<Longrightarrow> server_step s e s' \<Longrightarrow> server_run s0 s'"

lemma server_run_inv: "server_run s0 s \<Longrightarrow> server_inv s0 \<Longrightarrow> server_inv s"
  by (induction rule: server_run.induct) (auto intro: server_step_inv)

lemma server_run_cut_off: "server_run s0 s \<Longrightarrow> cut_off c s0 \<Longrightarrow> cut_off c s"
  by (induction rule: server_run.induct) (auto intro: cut_off_step)

lemma reclaimed_persister_cut_off:
  assumes "opt_StateProvider (configured options) \<noteq> None"
  shows "cut_off c (go_gc {w} (NewClusterDiscoveryServer w c options))"
  using assms go_gc_inv [OF NewClusterDiscoveryServer_inv [of w c options], of "{w}"]
  by (auto simp: cut_off_def NewClusterDiscoveryServer_def Let_def go_gc_def restrict_map_def)

section \<open>Calls in terms of the map\<close>

lemma update_entry:
  assumes inv: "server_inv s" and gks: "is_order gks (affiliates_of s)"
    and eks: "is_order eks (update_endpoints r (unexpired gnow (affiliates_of s)))"
    and run: "AffiliateUpdate gnow gks now eks r s = Ok s'"
  shows "\<exists>v. affiliates_of s' = (unexpired gnow (affiliates_of s))(update_key r \<mapsto> v) \<and> key_of v = update_key r
    \<and> ca_Affiliate v = Some
        \<lparr>Affiliate_Id = key_AffiliateID (update_key r),
         Affiliate_Data = (case upd_AffiliateData (get_req zero_update_request r) of
             Some d \<Rightarrow> Some d
           | None \<Rightarrow> GetData (previous_affiliate (unexpired gnow (affiliates_of s)) (update_key r))),
         Affiliate_Endpoints = eks\<rparr>
    \<and> RemoveAfter v = time_add now (if upd_Ttl (get_req zero_update_request r) = 0 then minutes 15
                                    else upd_Ttl (get_req zero_update_request r))"
proof -
  have "wf_watchers s" using inv by (simp add: server_inv_def)
  note u = AffiliateUpdate_messages [OF this run]
  let ?a = "snd (collectGarbage_section gnow gks (ClusterAffiliates s))"
  have a: "or_make ?a = unexpired gnow (affiliates_of s)" by (simp add: collectGarbage_section_store [OF gks])
  obtain v new b where sec: "AffiliateUpdate_section now eks r ?a = (v, new, b)" by (metis prod_cases3)
  have "ClusterAffiliates s' = b" using u sec by simp
  moreover note AffiliateUpdate_section_store(1,2) [OF sec, unfolded a]
  moreover have "ca_Affiliate v = Some
        \<lparr>Affiliate_Id = key_AffiliateID (update_key r),
         Affiliate_Data = (case upd_AffiliateData (get_req zero_update_request r) of
             Some d \<Rightarrow> Some d
           | None \<Rightarrow> GetData (previous_affiliate (unexpired gnow (affiliates_of s)) (update_key r))),
         Affiliate_Endpoints = eks\<rparr>
    \<and> RemoveAfter v = time_add now (if upd_Ttl (get_req zero_update_request r) = 0 then minutes 15
                                    else upd_Ttl (get_req zero_update_request r))"
    by (subst (1 2) AffiliateUpdate_section_entry [OF sec, unfolded a, OF eks]) simp
  ultimately show ?thesis by (intro exI [of _ v]) simp
qed

lemma delete_entry:
  assumes inv: "server_inv s" and gks: "is_order gks (affiliates_of s)"
    and run: "AffiliateDelete gnow gks (Some r) s = Ok s'"
  shows "affiliates_of s' = (unexpired gnow (affiliates_of s))
           (ClusterAffiliateID (del_ClusterId r) (del_AffiliateId r) := None)"
proof -
  have "wf_watchers s" using inv by (simp add: server_inv_def)
  then show ?thesis
    using AffiliateDelete_messages [OF _ run]
    by (simp add: AffiliateDelete_section_store collectGarbage_section_store [OF gks])
qed

lemma list_result:
  assumes inv: "server_inv s" and gks: "is_order gks (affiliates_of s)"
    and cks: "is_order cks (unexpired gnow (affiliates_of s))"
    and ks: "is_order ks (unexpired gnow (affiliates_of s))"
    and run: "List_affiliates gnow gks cks ks r s = Ok (l, s')"
  shows "affiliates_of s' = unexpired gnow (affiliates_of s)"
    and "set l = Some ` ran (cluster_view (get_req [] r) (unexpired gnow (affiliates_of s)))"
    and "distinct (map GetId l)"
proof -
  have wf: "wf_watchers s" "wf_map (unexpired gnow (affiliates_of s))"
    using inv wf_map_le [OF unexpired_le] by (auto simp: server_inv_def)
  have a: "ClusterAffiliates s' = Some (unexpired gnow (affiliates_of s))"
    and l: "l = List_section (get_req [] r) cks ks (Some (unexpired gnow (affiliates_of s)))"
    using List_affiliates_messages [OF wf(1) run] by (simp_all add: collectGarbage_section_store [OF gks])
  show "affiliates_of s' = unexpired gnow (affiliates_of s)" by (simp add: a)
  show "set l = Some ` ran (cluster_view (get_req [] r) (unexpired gnow (affiliates_of s)))"
    and "distinct (map GetId l)"
    unfolding l by (rule List_section_view [OF wf(2) cks ks])+
qed

definition effective_ttl :: "affiliate_update_request \<Rightarrow> int" where
  "effective_ttl r = (if upd_Ttl r = 0 then minutes 15 else upd_Ttl r)"

lemma list_after_update:
  assumes inv: "server_inv s" and gks: "is_order gks (affiliates_of s)"
    and eks: "is_order eks (update_endpoints (Some r) (unexpired gnow (affiliates_of s)))"
    and run: "AffiliateUpdate gnow gks now eks (Some r) s = Ok s1"
    and lgks: "is_order lgks (affiliates_of s1)"
    and cks: "is_order cks (unexpired t (affiliates_of s1))"
    and ks: "is_order ks (unexpired t (affiliates_of s1))"
    and list: "List_affiliates t lgks cks ks (Some (upd_ClusterId r)) s1 = Ok (l, s2)"
  shows "(\<exists>y \<in> set l. GetId y = upd_AffiliateId r) \<longleftrightarrow> \<not> time_after t (time_add now (effective_ttl r))"
proof -
  let ?k = "ClusterAffiliateID (upd_ClusterId r) (upd_AffiliateId r)"
  let ?m = "unexpired t (affiliates_of s1)"
  obtain v where v: "affiliates_of s1 = (unexpired gnow (affiliates_of s))(?k \<mapsto> v)"
    "RemoveAfter v = time_add now (effective_ttl r)"
    using update_entry [OF inv gks eks run] by (auto simp: update_key_def effective_ttl_def)
  have inv1: "server_inv s1" using serves_inv [OF inv AffiliateUpdate_serves [OF inv gks run]] .
  then have wf: "wf_map ?m" using wf_map_le [OF unexpired_le] by (auto simp: server_inv_def)
  have l: "set l = Some ` ran (cluster_view (upd_ClusterId r) ?m)"
    using list_result(2) [OF inv1 lgks cks ks list] by simp
  have "(\<exists>y \<in> set l. GetId y = upd_AffiliateId r)
          \<longleftrightarrow> cluster_view (upd_ClusterId r) ?m (upd_AffiliateId r) \<noteq> None"
    unfolding l using cluster_view_Id [OF wf] by (force simp: ran_def GetId_def)
  also have "\<dots> \<longleftrightarrow> ?m ?k \<noteq> None"
    by (cases "?m ?k") (use wf_mapD [OF wf, of ?k] in \<open>auto simp: cluster_view_def simp del: unexpired_Some\<close>)
  also have "\<dots> \<longleftrightarrow> \<not> time_after t (time_add now (effective_ttl r))"
    by (simp add: unexpired_def v)
  finally show ?thesis .
qed

lemma watched_messages:
  "fst (Watch_loop (Some cid) (map (\<lambda>m. Receive (Some m) None) ms)) = List.map_filter (watch_message cid) ms"
  by (induction ms) (simp_all add: map_filter_simps case_prod_beta split: option.split)

lemma watch_message_Deleted: "watch_message cid msg = Some r \<Longrightarrow> sent_Deleted r = Deleted msg"
  by (auto simp: watch_message_def Let_def split: if_splits)

lemma watch_message_cluster:
  assumes "watch_message cid msg = Some r" and "x \<in> set (sent_Affiliates r)"
  shows "\<exists>v \<in> set (msg_ClusterAffiliates msg). \<exists>y. ca_ClusterID v = cid \<and> ca_Affiliate v = Some y
             \<and> Affiliate_Id x = Affiliate_Id y
             \<and> (if Deleted msg then Affiliate_Data x = None \<and> Affiliate_Endpoints x = [] else x = y)"
  using assms
  by (fastforce simp: watch_message_def Let_def stripAffiliateContent_def map_filter_def split: if_splits)

lemma Watch_loop_sends:
  assumes "r \<in> set (fst (Watch_loop req es))"
  shows "\<exists>cid msg err. req = Some cid \<and> Receive (Some msg) err \<in> set es \<and> watch_message cid msg = Some r"
  using assms
proof (induction req es rule: Watch_loop.induct)
  case (4 req msg send_err es)
  then obtain cid where cid: "req = Some cid" by (cases req) auto
  show ?case
  proof (cases "r \<in> set (fst (Watch_loop req es))")
    case True
    then have "watch_message cid msg = None \<or> (\<exists>s. watch_message cid msg = Some s \<and> send_err = None)"
      using 4(3) cid by (cases "watch_message cid msg"; cases send_err) auto
    then show ?thesis using 4(1,2) cid True by (auto, metis+)
  next
    case False
    then show ?thesis using 4(3) cid
      by (cases "watch_message cid msg"; cases send_err) (auto simp: case_prod_beta)
  qed
qed auto

end
