(* ===== verification/Discovery_Properties.thy ===== *)
theory Discovery_Properties
  imports Discovery_System
begin

text \<open>
  The properties of the discovery server, each with a run on concrete data.
\<close>

section \<open>Example data\<close>

definition ex_time :: "int \<Rightarrow> gotime" where
  "ex_time t = \<lparr>wall = 4449600000 * ns_per_second + t, mono = Some t\<rparr>"

definition ex_request :: affiliate_update_request where
  "ex_request = \<lparr>upd_ClusterId = ''c'', upd_AffiliateId = ''a'', upd_AffiliateData = None,
     upd_AffiliateEndpoints = [''e''], upd_Ttl = minutes 10\<rparr>"

definition ex_new :: server where
  "ex_new = NewClusterDiscoveryServer 0 0 []"

definition ex_affiliate :: affiliate where
  "ex_affiliate = \<lparr>Affiliate_Id = ''a'', Affiliate_Data = None, Affiliate_Endpoints = [''e'']\<rparr>"

definition ex_entry :: cluster_affiliate where
  "ex_entry = \<lparr>ca_Affiliate = Some ex_affiliate, ca_ClusterID = ''c'',
     RemoveAfter = time_add (ex_time 0) (minutes 10)\<rparr>"

text \<open>The state after one update, from an empty server without watchers.\<close>

definition ex_updated :: server where
  "ex_updated = ex_new\<lparr>ClusterAffiliates := Some [ClusterAffiliateID ''c'' ''a'' \<mapsto> ex_entry]\<rparr>"

lemma ex_new_simps [simp]:
  "ClusterAffiliates ex_new = Some Map.empty" "watchers ex_new = []" "chanVars ex_new = Map.empty"
  "server_inv ex_new"
  by (simp_all add: ex_new_def NewClusterDiscoveryServer_inv)
    (simp_all add: NewClusterDiscoveryServer_def configured_def initial_store_def Let_def)

lemma ex_update_runs:
  "AffiliateUpdate (ex_time 0) [] (ex_time 0) [''e''] (Some ex_request) ex_new = Ok ex_updated"
  by (simp add: AffiliateUpdate_def collectGarbage_def collectGarbage_section_def clean_watchers_def
      AffiliateUpdate_section_def broadcast_def ex_request_def ex_updated_def ex_entry_def ex_affiliate_def
      zero_cluster_affiliate_def GetData_def GetEndpoints_def merge_endpoints_def minutes_def ns_per_second_def Let_def)

lemma ex_unexpired_empty [simp]: "unexpired t Map.empty = Map.empty"
  by (simp add: unexpired_def)

lemma ex_update_endpoints: "is_order [''e''] (update_endpoints (Some ex_request) Map.empty)"
  by (simp add: update_endpoints_def previous_affiliate_def GetEndpoints_def ex_request_def)

section \<open>Updates\<close>



section \<open>Lists\<close>


lemma ex_updated_simps [simp]:
  "ClusterAffiliates ex_updated = Some [ClusterAffiliateID ''c'' ''a'' \<mapsto> ex_entry]"
  "watchers ex_updated = []" "chanVars ex_updated = Map.empty"
  by (simp_all add: ex_updated_def)

lemma ex_entry_alive:
  "unexpired (ex_time (minutes 10)) [ClusterAffiliateID ''c'' ''a'' \<mapsto> ex_entry] = [ClusterAffiliateID ''c'' ''a'' \<mapsto> ex_entry]"
  by (auto simp: unexpired_def ex_entry_def time_after_def time_add_def ex_time_def minutes_def
      ns_per_second_def fits_int64_def fun_eq_iff)

lemma ex_list_runs:
  "List_affiliates (ex_time (minutes 10)) [ClusterAffiliateID ''c'' ''a''] [ClusterAffiliateID ''c'' ''a'']
     [ClusterAffiliateID ''c'' ''a''] (Some ''c'') ex_updated = Ok ([Some ex_affiliate], ex_updated)"
proof -
  have "\<not> time_after (ex_time (minutes 10)) (RemoveAfter ex_entry)"
    by (simp add: ex_entry_def time_after_def time_add_def ex_time_def minutes_def
        ns_per_second_def fits_int64_def)
  then have "collectGarbage (ex_time (minutes 10)) [ClusterAffiliateID ''c'' ''a''] ex_updated = Ok ex_updated"
    by (simp add: collectGarbage_def collectGarbage_section_def clean_watchers_def ex_updated_def)
  then show ?thesis
    by (simp add: List_affiliates_def List_section_def ex_entry_def)
qed


text \<open>
  C5. A list returns exactly the affiliates of the requested cluster whose deadline has not passed,
  each once, and nothing of another cluster.
\<close>

theorem List_exact:
  assumes "server_inv s" and "is_order gks (affiliates_of s)"
    and "is_order cks (unexpired gnow (affiliates_of s))" and "is_order ks (unexpired gnow (affiliates_of s))"
    and "List_affiliates gnow gks cks ks (Some cid) s = Ok (l, s')"
  shows "distinct (map GetId l)
    \<and> set l = {ca_Affiliate v | v i. affiliates_of s (ClusterAffiliateID cid i) = Some v
                                   \<and> \<not> time_after gnow (RemoveAfter v)}"
proof -
  have "Some ` ran (cluster_view cid (unexpired gnow (affiliates_of s)))
          = {ca_Affiliate v | v i. affiliates_of s (ClusterAffiliateID cid i) = Some v
                                 \<and> \<not> time_after gnow (RemoveAfter v)}" (is "?L = ?R")
  proof (intro set_eqI iffI)
    fix y assume "y \<in> ?R"
    then obtain v i where v: "affiliates_of s (ClusterAffiliateID cid i) = Some v"
      "\<not> time_after gnow (RemoveAfter v)" "y = ca_Affiliate v" by blast
    moreover obtain x where "ca_Affiliate v = Some x"
      using v(1) assms(1) by (auto simp: server_inv_def dest: wf_mapD)
    ultimately have "cluster_view cid (unexpired gnow (affiliates_of s)) i = Some x" "y = Some x"
      by (simp_all add: cluster_view_def unexpired_def)
    then show "y \<in> ?L" by (auto simp: ran_def)
  next
    fix y assume "y \<in> ?L"
    then show "y \<in> ?R"
      by (auto simp: ran_def cluster_view_def split: option.splits) metis
  qed
  then show ?thesis using list_result(2,3) [OF assms] by simp
qed

theorem List_exact_witness:
  "distinct (map GetId [Some ex_affiliate])
   \<and> set [Some ex_affiliate] = {ca_Affiliate v | v i. affiliates_of ex_updated (ClusterAffiliateID ''c'' i) = Some v
                                   \<and> \<not> time_after (ex_time (minutes 10)) (RemoveAfter v)}"
proof (rule List_exact [OF _ _ _ _ ex_list_runs])
  show "server_inv ex_updated"
    using serves_inv [OF ex_new_simps(4) AffiliateUpdate_serves [OF ex_new_simps(4) _ ex_update_runs]] by simp
qed (simp_all add: ex_entry_alive is_order_def)

section \<open>Watch streams\<close>

text \<open>
  C6. Whatever \<^verbatim>\<open>Watch\<close> sends answers a message from its channel, carries only affiliates of the
  cluster the request names, and carries nothing but their IDs when it announces a removal.
\<close>

theorem Watch_sends_own_cluster:
  assumes "r \<in> set (fst (Watch_loop req es))"
  shows "\<exists>cid msg err. req = Some cid \<and> Receive (Some msg) err \<in> set es \<and> sent_Deleted r = Deleted msg
    \<and> (\<forall>x \<in> set (sent_Affiliates r).
         \<exists>v \<in> set (msg_ClusterAffiliates msg). \<exists>y. ca_ClusterID v = cid \<and> ca_Affiliate v = Some y
           \<and> Affiliate_Id x = Affiliate_Id y
           \<and> (if Deleted msg then Affiliate_Data x = None \<and> Affiliate_Endpoints x = [] else x = y))"
proof -
  obtain cid msg err where m: "req = Some cid" "Receive (Some msg) err \<in> set es"
    and w: "watch_message cid msg = Some r"
    using Watch_loop_sends [OF assms] by blast
  show ?thesis
    by (intro exI [of _ cid] exI [of _ msg] exI [of _ err] conjI ballI m watch_message_Deleted [OF w]
        watch_message_cluster [OF w])
qed

theorem Watch_sends_own_cluster_witness:
  "\<exists>cid msg err. Some ''c'' = Some cid
    \<and> Receive (Some msg) err \<in> set [Receive (Some \<lparr>msg_ClusterAffiliates = [ex_entry], Deleted = True\<rparr>) None]"
  using Watch_sends_own_cluster
    [of "\<lparr>sent_Affiliates = [ex_affiliate\<lparr>Affiliate_Endpoints := []\<rparr>], sent_Deleted = True\<rparr>" "Some ''c''"
        "[Receive (Some \<lparr>msg_ClusterAffiliates = [ex_entry], Deleted = True\<rparr>) None]"]
  by (simp add: watch_message_def clusterAffiliateCount_def ex_entry_def ex_affiliate_def
      stripAffiliateContent_def map_filter_simps)

section \<open>Followers\<close>

text \<open>A server created with a state provider that loads \<open>cas\<close>.\<close>

definition ex_options :: "cluster_affiliate list \<Rightarrow> (server_options \<Rightarrow> server_options) list" where
  "ex_options cas = [ClusterDiscoveryServerStateProvider cas, ClusterDiscoveryServerGarbageCollectionInterval (minutes 1)]"

lemma ex_options_provider [simp]: "opt_StateProvider (configured (ex_options cas)) = Some cas"
  by (simp add: configured_def ex_options_def ClusterDiscoveryServerStateProvider_def
      ClusterDiscoveryServerGarbageCollectionInterval_def)



text \<open>
  C8. But nothing keeps that variable: once a garbage collection of the Go runtime after
  \<^verbatim>\<open>NewClusterDiscoveryServer\<close> has returned reclaims it, no step of the server, whatever calls are
  served, ever puts a message into the persister's channel again or closes it, so
  \<^verbatim>\<open>statePersister\<close> waits for ever and nothing is saved.
\<close>

theorem reclaimed_persister_starves:
  assumes "opt_StateProvider (configured options) \<noteq> None"
    and "server_run (go_gc {w} (NewClusterDiscoveryServer w c options)) s"
  shows "chans s c = Some \<lparr>Queue = [], Cap = 1024, Closed = False\<rparr>"
  using server_run_cut_off [OF assms(2) reclaimed_persister_cut_off [OF assms(1)]]
  by (simp add: cut_off_def make_chan_def watch_capacity_def)

theorem reclaimed_persister_starves_witness:
  "\<exists>s. server_run (go_gc {0} (NewClusterDiscoveryServer 0 7 (ex_options []))) s
     \<and> affiliates_of s \<noteq> Map.empty
     \<and> chans s 7 = Some \<lparr>Queue = [], Cap = 1024, Closed = False\<rparr>"
proof -
  let ?s0 = "go_gc {0} (NewClusterDiscoveryServer 0 7 (ex_options []))"
  let ?s1 = "?s0\<lparr>watchers := [], ClusterAffiliates := Some [ClusterAffiliateID ''c'' ''a'' \<mapsto> ex_entry]\<rparr>"
  have s0: "ClusterAffiliates ?s0 = Some Map.empty" "watchers ?s0 = [0]" "chanVars ?s0 = Map.empty"
    by (simp_all add: go_gc_def NewClusterDiscoveryServer_def Let_def initial_store_def restrict_map_def fun_eq_iff)
  have run: "AffiliateUpdate (ex_time 0) [] (ex_time 0) [''e''] (Some ex_request) ?s0 = Ok ?s1"
    by (simp add: s0 AffiliateUpdate_def collectGarbage_def collectGarbage_section_def clean_watchers_def
      AffiliateUpdate_section_def broadcast_def ex_request_def ex_entry_def ex_affiliate_def
      zero_cluster_affiliate_def GetData_def GetEndpoints_def merge_endpoints_def minutes_def ns_per_second_def Let_def del: go_gc_simps)
  have "server_step ?s0 Served ?s1"
    by (rule server_step.update [OF _ _ run]) (simp_all add: s0(1) ex_update_endpoints del: go_gc_simps)
  then have reach: "server_run ?s0 ?s1" using begins continues by blast
  show ?thesis
    using reclaimed_persister_starves [OF _ reach] reach by (intro exI [of _ ?s1]) simp
qed



section \<open>Broadcasts and deletes\<close>

text \<open>
  C13. A broadcast returns exactly when the channel of every live watcher is open and has room, and
  then appends the message to each of these channels and changes nothing else. One watcher that
  does not drain its channel holds up every caller that has something to broadcast.
\<close>

theorem broadcast_returns_iff:
  assumes "wf_watchers s"
  shows "broadcast msg s = Ok s' \<longleftrightarrow>
     (\<forall>c \<in> live_chans s. \<exists>ch. chans s c = Some ch \<and> \<not> Closed ch \<and> length (Queue ch) < Cap ch)
     \<and> s' = s\<lparr>chans := (\<lambda>c. if c \<in> live_chans s
                           then map_option (\<lambda>ch. ch\<lparr>Queue := Queue ch @ [msg]\<rparr>) (chans s c)
                           else chans s c)\<rparr>"
  by (rule broadcast_Ok [OF assms, unfolded enqueue_def [abs_def]])

theorem broadcast_returns_iff_witness:
  "broadcast \<lparr>msg_ClusterAffiliates = [ex_entry], Deleted = False\<rparr>
     (ex_new\<lparr>watchers := [5], chanVars := [5 \<mapsto> 7],
             chans := [7 \<mapsto> \<lparr>Queue = [], Cap = 0, Closed = False\<rparr>]\<rparr>) \<noteq> Ok ex_new"
proof -
  let ?s = "ex_new\<lparr>watchers := [5], chanVars := [5 \<mapsto> 7], chans := [7 \<mapsto> \<lparr>Queue = [], Cap = 0, Closed = False\<rparr>]\<rparr>"
  have "wf_watchers ?s" by (simp add: wf_watchers_def)
  moreover have "7 \<in> live_chans ?s" by (simp add: live_chans_def)
  ultimately show ?thesis by (subst broadcast_returns_iff) force+
qed



end
