(* ===== verification/NetIP.thy ===== *)
theory NetIP
  imports Prelude
begin

text \<open>
  What the code uses of Go's \<^verbatim>\<open>net/netip\<close>, \<^verbatim>\<open>net\<close> and \<^verbatim>\<open>strconv\<close>: addresses and prefixes, their
  parsers and their text forms. The parsers follow the standard library's loops, so that the model
  accepts and refuses the same texts; an error is \<open>None\<close>.
\<close>

section \<open>Numbers as text\<close>

definition digit_char :: "nat \<Rightarrow> char" where
  "digit_char d = char_of (if d < 10 then 48 + d else 87 + d)"

fun digits_of :: "nat \<Rightarrow> nat \<Rightarrow> string" where
  "digits_of b n = (if b < 2 \<or> n < b then [digit_char n]
                    else digits_of b (n div b) @ [digit_char (n mod b)])"

declare digits_of.simps [simp del]

definition itoa :: "nat \<Rightarrow> string" where
  "itoa n = digits_of 10 n"

definition int_text :: "int \<Rightarrow> string" where
  "int_text i = (if i < 0 then CHR ''-'' # itoa (nat (- i)) else itoa (nat i))"

definition is_digit :: "char \<Rightarrow> bool" where
  "is_digit c \<longleftrightarrow> 48 \<le> (of_char c :: nat) \<and> (of_char c :: nat) \<le> 57"

definition digit_value :: "char \<Rightarrow> nat" where
  "digit_value c = of_char c - 48"

text \<open>The value of a hexadecimal digit, \<open>None\<close> for any other byte.\<close>

definition hex_value :: "char \<Rightarrow> nat option" where
  "hex_value c =
     (let n = of_char c :: nat
      in if 48 \<le> n \<and> n \<le> 57 then Some (n - 48)
         else if 97 \<le> n \<and> n \<le> 102 then Some (n - 97 + 10)
         else if 65 \<le> n \<and> n \<le> 70 then Some (n - 65 + 10)
         else None)"

text \<open>\<^verbatim>\<open>strconv.Atoi\<close> on digits; a value that overflows is out of every range the code accepts.\<close>

definition decimal :: "string \<Rightarrow> nat option" where
  "decimal s = (if s \<noteq> [] \<and> list_all is_digit s
                then Some (foldl (\<lambda>a c. a * 10 + digit_value c) 0 s) else None)"

section \<open>Addresses\<close>

text \<open>
  \<^verbatim>\<open>netip.Addr\<close>: the zero value, an IPv4 address of four bytes, or an IPv6 address of eight
  16-bit groups with a zone (\<open>[]\<close> for none).
\<close>

datatype addr = ZeroAddr | IPv4 "8 word list" | IPv6 "16 word list" string

fun wf_addr :: "addr \<Rightarrow> bool" where
  "wf_addr ZeroAddr \<longleftrightarrow> True"
| "wf_addr (IPv4 bs) \<longleftrightarrow> length bs = 4"
| "wf_addr (IPv6 gs zone) \<longleftrightarrow> length gs = 8"

fun Is6 :: "addr \<Rightarrow> bool" where
  "Is6 (IPv6 gs zone) \<longleftrightarrow> True"
| "Is6 _ \<longleftrightarrow> False"

fun Zone :: "addr \<Rightarrow> string" where
  "Zone (IPv6 gs zone) = zone"
| "Zone _ = []"

fun Is4In6 :: "addr \<Rightarrow> bool" where
  "Is4In6 (IPv6 gs zone) \<longleftrightarrow> take 5 gs = replicate 5 0 \<and> take 1 (drop 5 gs) = [0xFFFF]"
| "Is4In6 _ \<longleftrightarrow> False"

definition bytes_of_group :: "16 word \<Rightarrow> 8 word list" where
  "bytes_of_group g = [ucast (drop_bit 8 g), ucast g]"

definition group_of_bytes :: "8 word \<Rightarrow> 8 word \<Rightarrow> 16 word" where
  "group_of_bytes a b = push_bit 8 (ucast a) + ucast b"

fun Unmap :: "addr \<Rightarrow> addr" where
  "Unmap (IPv6 gs zone) =
     (if Is4In6 (IPv6 gs zone) then IPv4 (concat (map bytes_of_group (drop 6 gs))) else IPv6 gs zone)"
| "Unmap a = a"

fun first_byte :: "addr \<Rightarrow> nat" where
  "first_byte (IPv4 (b # bs)) = unat b"
| "first_byte (IPv6 (g # gs) zone) = unat g div 256"
| "first_byte _ = 0"

definition IsMulticast :: "addr \<Rightarrow> bool" where
  "IsMulticast a =
     (case Unmap a of
        ZeroAddr \<Rightarrow> False
      | IPv4 bs \<Rightarrow> first_byte (IPv4 bs) div 16 = 14
      | IPv6 gs zone \<Rightarrow> first_byte (IPv6 gs zone) = 255)"

text \<open>\<^verbatim>\<open>Addr.As16\<close>.\<close>

fun As16 :: "addr \<Rightarrow> 8 word list" where
  "As16 ZeroAddr = replicate 16 0"
| "As16 (IPv4 bs) = replicate 10 0 @ [0xFF, 0xFF] @ bs"
| "As16 (IPv6 gs zone) = concat (map bytes_of_group gs)"

section \<open>Parsing\<close>

text \<open>
  \<^verbatim>\<open>parseIPv4Fields\<close>: \<open>start\<close> says that no byte of the current field has been read, \<open>val\<close> and
  \<open>digLen\<close> are its value and number of digits, \<open>fields\<close> the fields before it.
\<close>

fun parse_v4_fields :: "string \<Rightarrow> bool \<Rightarrow> nat \<Rightarrow> nat \<Rightarrow> 8 word list \<Rightarrow> 8 word list option" where
  "parse_v4_fields [] start val digLen fields =
     (if length fields < 3 then None else Some (fields @ [word_of_nat val]))"
| "parse_v4_fields (c # s) start val digLen fields =
     (if is_digit c then
        if digLen = 1 \<and> val = 0 then None
        else let val' = val * 10 + digit_value c
             in if val' > 255 then None else parse_v4_fields s False val' (Suc digLen) fields
      else if c = CHR ''.'' then
        if start \<or> s = [] then None
        else if length fields = 3 then None
        else parse_v4_fields s True 0 0 (fields @ [word_of_nat val])
      else None)"

definition parseIPv4 :: "string \<Rightarrow> addr option" where
  "parseIPv4 s = map_option IPv4 (parse_v4_fields s True 0 0 [])"

text \<open>The leading hexadecimal digits: how many, their value and the rest; at most four.\<close>

fun hex_run :: "string \<Rightarrow> nat \<Rightarrow> nat \<Rightarrow> (nat \<times> nat \<times> string) option" where
  "hex_run [] off acc = Some (off, acc, [])"
| "hex_run (c # s) off acc =
     (case hex_value c of
        None \<Rightarrow> Some (off, acc, c # s)
      | Some d \<Rightarrow>
          let acc' = acc * 16 + d
          in if off > 3 then None else if acc' > 65535 then None else hex_run s (Suc off) acc')"

text \<open>
  One turn of the loop of \<^verbatim>\<open>parseIPv6\<close>: whether it goes on, the rest of the text, the groups read and
  the place of the \<^verbatim>\<open>::\<close>. Then the loop.
\<close>

type_synonym v6_state = "string \<times> 16 word list \<times> nat option"

definition parse_v6_turn :: "string \<Rightarrow> 16 word list \<Rightarrow> nat option \<Rightarrow> (bool \<times> v6_state) option" where
  "parse_v6_turn s gs ellipsis =
     (case hex_run s 0 0 of
        None \<Rightarrow> None
      | Some (off, acc, rest) \<Rightarrow>
          if off = 0 then None
          else if take 1 rest = ''.'' then
            if ellipsis = None \<and> length gs \<noteq> 6 then None
            else if length gs + 2 > 8 then None
            else (case parse_v4_fields s True 0 0 [] of
                    Some [a, b, c, d] \<Rightarrow>
                      Some (False, [], gs @ [group_of_bytes a b, group_of_bytes c d], ellipsis)
                  | _ \<Rightarrow> None)
          else
            let gs' = gs @ [word_of_nat acc]
            in (case rest of
                  [] \<Rightarrow> Some (False, [], gs', ellipsis)
                | c # s1 \<Rightarrow>
                    if c \<noteq> CHR '':'' then None
                    else (case s1 of
                            [] \<Rightarrow> None
                          | d # s2 \<Rightarrow>
                              if d = CHR '':'' then
                                if ellipsis \<noteq> None then None
                                else if s2 = [] then Some (False, [], gs', Some (length gs'))
                                else Some (True, s2, gs', Some (length gs'))
                              else Some (True, s1, gs', ellipsis))))"

lemma parse_v6_turn_groups:
  "parse_v6_turn s gs e = Some (cont, s', gs', e') \<Longrightarrow> length gs < 8 \<Longrightarrow>
     length gs < length gs' \<and> length gs' \<le> 8"
  by (auto simp: parse_v6_turn_def Let_def split: option.splits if_splits list.splits)

function parse_v6_groups :: "string \<Rightarrow> 16 word list \<Rightarrow> nat option \<Rightarrow> v6_state option" where
  "parse_v6_groups s gs ellipsis =
     (if 8 \<le> length gs then Some (s, gs, ellipsis)
      else (case parse_v6_turn s gs ellipsis of
              None \<Rightarrow> None
            | Some (cont, s', gs', ellipsis') \<Rightarrow>
                if cont then parse_v6_groups s' gs' ellipsis' else Some (s', gs', ellipsis')))"
  by pat_completeness auto
termination
  by (relation "measure (\<lambda>(s, gs, e). 8 - length gs)") (auto dest!: parse_v6_turn_groups)

declare parse_v6_groups.simps [simp del]

definition expand_ellipsis :: "16 word list \<Rightarrow> nat option \<Rightarrow> 16 word list option" where
  "expand_ellipsis gs ellipsis =
     (if length gs < 8 then
        case ellipsis of
          None \<Rightarrow> None
        | Some e \<Rightarrow> Some (take e gs @ replicate (8 - length gs) 0 @ drop e gs)
      else if ellipsis \<noteq> None then None
      else Some gs)"

text \<open>\<^verbatim>\<open>parseIPv6\<close>: the zone is split off at the first percent sign.\<close>

definition parseIPv6 :: "string \<Rightarrow> addr option" where
  "parseIPv6 str =
     (let s = takeWhile (\<lambda>c. c \<noteq> CHR ''%'') str;
          rest = dropWhile (\<lambda>c. c \<noteq> CHR ''%'') str;
          zone = drop 1 rest
      in if rest \<noteq> [] \<and> zone = [] then None
         else
           let lead = (take 2 s = ''::'');
               s' = (if lead then drop 2 s else s)
           in if lead \<and> s' = [] then Some (IPv6 (replicate 8 0) zone)
              else case parse_v6_groups s' [] (if lead then Some 0 else None) of
                     None \<Rightarrow> None
                   | Some (s2, gs, ellipsis) \<Rightarrow>
                       if s2 \<noteq> [] then None
                       else map_option (\<lambda>gs. IPv6 gs zone) (expand_ellipsis gs ellipsis))"

text \<open>\<^verbatim>\<open>netip.ParseAddr\<close>: the first dot, colon or percent sign decides.\<close>

definition ParseAddr :: "string \<Rightarrow> addr option" where
  "ParseAddr s =
     (case filter (\<lambda>c. c = CHR ''.'' \<or> c = CHR '':'' \<or> c = CHR ''%'') s of
        [] \<Rightarrow> None
      | c # cs \<Rightarrow> if c = CHR ''.'' then parseIPv4 s
                  else if c = CHR '':'' then parseIPv6 s
                  else None)"

text \<open>\<^verbatim>\<open>net.ParseIP\<close>: 16 bytes, and no zone.\<close>

definition ParseIP :: "string \<Rightarrow> 8 word list option" where
  "ParseIP s = (case ParseAddr s of None \<Rightarrow> None | Some a \<Rightarrow> if Zone a \<noteq> [] then None else Some (As16 a))"

section \<open>Prefixes\<close>

text \<open>\<^verbatim>\<open>netip.Prefix\<close>: the address and the length plus one, \<open>0\<close> when the prefix is not valid.\<close>

record prefix =
  Prefix_Addr :: addr
  bitsPlusOne :: nat

definition zero_prefix :: prefix where
  "zero_prefix = \<lparr>Prefix_Addr = ZeroAddr, bitsPlusOne = 0\<rparr>"

definition IsValid :: "prefix \<Rightarrow> bool" where
  "IsValid p \<longleftrightarrow> bitsPlusOne p > 0"

text \<open>\<^verbatim>\<open>netip.ParsePrefix\<close>: the last slash separates the length.\<close>

definition ParsePrefix :: "string \<Rightarrow> prefix option" where
  "ParsePrefix s =
     (if CHR ''/'' \<notin> set s then None
      else
        let bitsStr = rev (takeWhile (\<lambda>c. c \<noteq> CHR ''/'') (rev s));
            ip = take (length s - Suc (length bitsStr)) s
        in (case ParseAddr ip of
              None \<Rightarrow> None
            | Some a \<Rightarrow>
                if Is6 a \<and> Zone a \<noteq> [] then None
                else if length bitsStr > 1 \<and> (\<not> is_digit (hd bitsStr) \<or> hd bitsStr = CHR ''0'') then None
                else (case decimal bitsStr of
                        None \<Rightarrow> None
                      | Some bits \<Rightarrow>
                          if bits > (if Is6 a then 128 else 32) then None
                          else Some \<lparr>Prefix_Addr = a, bitsPlusOne = Suc bits\<rparr>)))"

section \<open>Text forms\<close>

definition string4 :: "8 word list \<Rightarrow> string" where
  "string4 bs = join ''.'' (map (\<lambda>b. itoa (unat b)) bs)"

definition hex_groups :: "16 word list \<Rightarrow> string" where
  "hex_groups gs = join '':'' (map (\<lambda>g. digits_of 16 (unat g)) gs)"

text \<open>The first longest run of at least two zero groups: where it starts and how long it is.\<close>

definition zero_run :: "16 word list \<Rightarrow> nat" where
  "zero_run gs = length (takeWhile (\<lambda>g. g = 0) gs)"

definition longest_run :: "16 word list \<Rightarrow> nat \<times> nat" where
  "longest_run gs =
     fold (\<lambda>i (start, len). let l = zero_run (drop i gs)
             in if l \<ge> 2 \<and> l > len then (i, l) else (start, len))
       [0..<length gs] (0, 0)"

definition string6 :: "16 word list \<Rightarrow> string" where
  "string6 gs =
     (case longest_run gs of
        (start, len) \<Rightarrow>
          if len = 0 then hex_groups gs
          else hex_groups (take start gs) @ ''::'' @ hex_groups (drop (start + len) gs))"

definition zone_suffix :: "string \<Rightarrow> string" where
  "zone_suffix zone = (if zone = [] then [] else ''%'' @ zone)"

text \<open>\<^verbatim>\<open>Addr.String\<close> and \<^verbatim>\<open>Prefix.String\<close>.\<close>

fun Addr_String :: "addr \<Rightarrow> string" where
  "Addr_String ZeroAddr = ''invalid IP''"
| "Addr_String (IPv4 bs) = string4 bs"
| "Addr_String (IPv6 gs zone) =
     (if Is4In6 (IPv6 gs zone)
      then ''::ffff:'' @ string4 (concat (map bytes_of_group (drop 6 gs))) @ zone_suffix zone
      else string6 gs @ zone_suffix zone)"

definition Prefix_String :: "prefix \<Rightarrow> string" where
  "Prefix_String p =
     (if \<not> IsValid p then ''invalid Prefix''
      else Addr_String (Prefix_Addr p) @ ''/'' @ itoa (bitsPlusOne p - 1))"

section \<open>Host and port\<close>

definition index_of :: "char \<Rightarrow> string \<Rightarrow> nat option" where
  "index_of c s = (if c \<in> set s then Some (length (takeWhile (\<lambda>d. d \<noteq> c) s)) else None)"

definition last_index_of :: "char \<Rightarrow> string \<Rightarrow> nat option" where
  "last_index_of c s = (if c \<in> set s then Some (length s - Suc (length (takeWhile (\<lambda>d. d \<noteq> c) (rev s)))) else None)"

text \<open>\<^verbatim>\<open>net.JoinHostPort\<close>.\<close>

definition JoinHostPort :: "string \<Rightarrow> string \<Rightarrow> string" where
  "JoinHostPort host port =
     (if CHR '':'' \<in> set host then ''['' @ host @ '']:'' @ port else host @ '':'' @ port)"

text \<open>\<^verbatim>\<open>net.SplitHostPort\<close>.\<close>

definition SplitHostPort :: "string \<Rightarrow> (string \<times> string) option" where
  "SplitHostPort s =
     (case last_index_of CHR '':'' s of
        None \<Rightarrow> None
      | Some i \<Rightarrow>
          let port = drop (Suc i) s
          in if take 1 s = ''['' then
               case index_of CHR '']'' s of
                 None \<Rightarrow> None
               | Some e \<Rightarrow>
                   if Suc e \<noteq> i then None
                   else if CHR ''['' \<in> set (drop 1 s) \<or> CHR '']'' \<in> set (drop (Suc e) s) then None
                   else Some (take (e - 1) (drop 1 s), port)
             else
               let host = take i s
               in if CHR '':'' \<in> set host then None
                  else if CHR ''['' \<in> set s \<or> CHR '']'' \<in> set s then None
                  else Some (host, port))"

end
