(* ===== verification/NetIP_Text.thy ===== *)
theory NetIP_Text
  imports NetIP
begin

text \<open>
  The text forms of addresses and prefixes determine them: different addresses have different
  texts, also across the compressed IPv6 form, the mapped form and zones. The route signatures
  compare addresses by their text, so this is what makes them compare the addresses.
\<close>

section \<open>Numbers\<close>

lemma hex_value_digit_char: "d < 16 \<Longrightarrow> hex_value (digit_char d) = Some d"
  by (simp add: hex_value_def digit_char_def Let_def)

lemma digits_of_digits: "2 \<le> b \<Longrightarrow> set (digits_of b n) \<subseteq> digit_char ` {..<b}"
proof (induction b n rule: digits_of.induct)
  case (1 b n)
  then show ?case by (subst digits_of.simps) auto
qed

lemma digits_of_not_Nil [simp]: "digits_of b n \<noteq> []"
  by (subst digits_of.simps) simp

lemma Nil_not_digits_of [simp]: "[] \<noteq> digits_of b n"
  by (metis digits_of_not_Nil)

lemma digits_of_hex: "2 \<le> b \<Longrightarrow> b \<le> 16 \<Longrightarrow> c \<in> set (digits_of b n) \<Longrightarrow> hex_value c \<noteq> None"
  using digits_of_digits [of b n] hex_value_digit_char by fastforce

text \<open>The separators and the first letter of the error texts are no digits.\<close>

lemma no_hex_values [simp]:
  "hex_value (CHR ''.'') = None" "hex_value (CHR '':'') = None" "hex_value (CHR ''%'') = None"
  "hex_value (CHR ''/'') = None" "hex_value (CHR ''i'') = None"
  by (simp_all add: hex_value_def)

lemma not_in_digits [simp]:
  assumes "hex_value c = None"
  shows "c \<notin> set (digits_of 16 n)" and "c \<notin> set (itoa n)"
  using digits_of_hex [of 16 c n] digits_of_hex [of 10 c n] assms by (auto simp: itoa_def)

definition value_in :: "nat \<Rightarrow> string \<Rightarrow> nat" where
  "value_in b s = foldl (\<lambda>a c. a * b + the (hex_value c)) 0 s"

lemma value_in_digits_of: "2 \<le> b \<Longrightarrow> b \<le> 16 \<Longrightarrow> value_in b (digits_of b n) = n"
proof (induction b n rule: digits_of.induct)
  case (1 b n)
  have d: "hex_value (digit_char (n mod b)) = Some (n mod b)"
    using mod_less_divisor [of b n] 1 by (intro hex_value_digit_char) linarith
  show ?case
  proof (cases "n < b")
    case True
    then show ?thesis using 1 by (subst digits_of.simps) (simp add: value_in_def hex_value_digit_char)
  next
    case False
    then show ?thesis using 1 d by (subst digits_of.simps) (simp add: value_in_def)
  qed
qed

lemma digits_of_inj: "2 \<le> b \<Longrightarrow> b \<le> 16 \<Longrightarrow> digits_of b m = digits_of b n \<longleftrightarrow> m = n"
  by (metis value_in_digits_of)

lemma itoa_inj [simp]: "itoa m = itoa n \<longleftrightarrow> m = n"
  by (simp add: itoa_def digits_of_inj)

section \<open>Dotted and colon forms\<close>

lemma map_inj_eq: "inj f \<Longrightarrow> map f xs = map f ys \<longleftrightarrow> xs = ys"
  by (simp add: inj_map_eq_map)

lemma string4_inj:
  "length bs = 4 \<Longrightarrow> length cs = 4 \<Longrightarrow> string4 bs = string4 cs \<longleftrightarrow> bs = cs"
proof
  assume len: "length bs = 4" "length cs = 4" and eq: "string4 bs = string4 cs"
  have "map (\<lambda>b. itoa (unat b)) bs = map (\<lambda>b. itoa (unat b)) cs"
    by (rule join_single_inj [of "CHR ''.''"]) (use len eq in \<open>auto simp: string4_def\<close>)
  moreover have "inj (\<lambda>b :: 8 word. itoa (unat b))" by (auto intro: injI simp: word_unat_eq_iff)
  ultimately show "bs = cs" by (simp add: inj_map_eq_map)
qed simp

lemma not_in_string4 [simp]: "hex_value c = None \<Longrightarrow> c \<noteq> CHR ''.'' \<Longrightarrow> c \<notin> set (string4 bs)"
  using set_join [of "''.''" "map (\<lambda>b. itoa (unat b)) bs"] by (fastforce simp: string4_def)

lemma longest_run_zero:
  assumes "longest_run gs = (start, len)"
  shows "start + len \<le> length gs \<and> take len (drop start gs) = replicate len 0"
proof -
  have run: "zero_run xs \<le> length xs \<and> take (zero_run xs) xs = replicate (zero_run xs) 0" for xs
    by (induction xs) (auto simp: zero_run_def)
  let ?step = "\<lambda>i (start, len). let l = zero_run (drop i gs)
             in if l \<ge> 2 \<and> l > len then (i, l) else (start, len)"
  let ?ok = "\<lambda>(start, len). start + len \<le> length gs \<and> take len (drop start gs) = replicate len 0"
  have "?ok (fold ?step is r)" if "?ok r" "\<forall>i \<in> set is. i < length gs" for "is" r
    using that
  proof (induction "is" arbitrary: r)
    case (Cons i "is")
    have "?ok (?step i r)"
      using Cons.prems run [of "drop i gs"] by (auto simp: Let_def split: prod.splits)
    then show ?case using Cons by simp
  qed simp
  from this [of "(0, 0)" "[0..<length gs]"] show ?thesis
    using assms by (simp add: longest_run_def)
qed

text \<open>The parts of the colon form; the ellipsis shows as an empty part.\<close>

definition hex_parts :: "16 word list \<Rightarrow> string list" where
  "hex_parts gs = map (\<lambda>g. digits_of 16 (unat g)) gs"

definition or_empty :: "string list \<Rightarrow> string list" where
  "or_empty xs = (if xs = [] then [[]] else xs)"

definition colon_parts :: "16 word list \<Rightarrow> string list" where
  "colon_parts gs =
     (case longest_run gs of
        (start, len) \<Rightarrow>
          if len = 0 then hex_parts gs
          else or_empty (hex_parts (take start gs)) @ [[]] @ or_empty (hex_parts (drop (start + len) gs)))"

lemma hex_parts_inj: "hex_parts gs = hex_parts hs \<longleftrightarrow> gs = hs"
proof -
  have "inj (\<lambda>g :: 16 word. digits_of 16 (unat g))" by (auto intro: injI simp: digits_of_inj word_unat_eq_iff)
  then show ?thesis by (simp add: hex_parts_def inj_map_eq_map)
qed

lemma hex_parts_nonempty [simp]: "[] \<notin> set (hex_parts gs)"
  by (auto simp: hex_parts_def)

lemma or_empty_not_Nil [simp]: "or_empty xs \<noteq> []"
  by (simp add: or_empty_def)

lemma join_or_empty [simp]: "join sep (or_empty xs) = join sep xs"
  by (simp add: or_empty_def)

lemma string6_colon_parts: "gs \<noteq> [] \<Longrightarrow> string6 gs = join '':'' (colon_parts gs)"
  by (cases "longest_run gs")
    (simp add: string6_def colon_parts_def hex_groups_def hex_parts_def join_append join_Cons)

lemma takeWhile_or_empty: "[] \<notin> set xs \<Longrightarrow> takeWhile (\<lambda>x. x \<noteq> []) (or_empty xs @ [] # ys) = xs"
  by (cases "xs = []") (simp add: or_empty_def, auto simp: or_empty_def intro!: takeWhile_append2 [THEN trans])

lemma filter_or_empty: "[] \<notin> set xs \<Longrightarrow> filter (\<lambda>x. x \<noteq> []) (or_empty xs) = xs"
  by (auto simp: or_empty_def filter_id_conv)

lemma colon_parts_read:
  assumes "colon_parts gs = ps"
  shows "gs = (let a = takeWhile (\<lambda>x. x \<noteq> []) ps; n = length gs - length (filter (\<lambda>x. x \<noteq> []) ps)
               in map (\<lambda>x. word_of_nat (value_in 16 x)) a @ replicate n 0
                  @ map (\<lambda>x. word_of_nat (value_in 16 x)) (drop (length a) (filter (\<lambda>x. x \<noteq> []) ps)))"
proof -
  have read: "map (\<lambda>x. word_of_nat (value_in 16 x)) (hex_parts xs) = xs" for xs
    by (simp add: hex_parts_def comp_def value_in_digits_of map_idI)
  obtain start len where run: "longest_run gs = (start, len)" by fastforce
  show ?thesis
  proof (cases "len = 0")
    case True
    then have ps: "ps = hex_parts gs" using assms run by (simp add: colon_parts_def)
    have tw: "takeWhile (\<lambda>x. x \<noteq> []) (hex_parts gs) = hex_parts gs"
      using hex_parts_nonempty [of gs] by auto
    have fl: "filter (\<lambda>x. x \<noteq> []) (hex_parts gs) = hex_parts gs"
      using hex_parts_nonempty [of gs] by (auto simp: filter_id_conv)
    have len: "length (hex_parts gs) = length gs" by (simp add: hex_parts_def)
    show ?thesis unfolding ps tw fl Let_def len read by (simp add: len)
  next
    case False
    let ?a = "take start gs" and ?b = "drop (start + len) gs"
    have ps: "ps = or_empty (hex_parts ?a) @ [[]] @ or_empty (hex_parts ?b)"
      using assms run False by (simp add: colon_parts_def)
    have tw: "takeWhile (\<lambda>x. x \<noteq> []) ps = hex_parts ?a" by (simp add: ps takeWhile_or_empty)
    have fl: "filter (\<lambda>x. x \<noteq> []) ps = hex_parts ?a @ hex_parts ?b"
      by (simp add: ps filter_or_empty)
    have zero: "start + len \<le> length gs" "take len (drop start gs) = replicate len 0"
      using longest_run_zero [OF run] by auto
    have "gs = ?a @ take len (drop start gs) @ ?b"
      by (metis append_take_drop_id drop_drop add.commute)
    then have "gs = ?a @ replicate len 0 @ ?b" using zero by simp
    moreover have "length gs - length (hex_parts ?a @ hex_parts ?b) = len"
      using zero(1) by (simp add: hex_parts_def)
    ultimately show ?thesis by (simp add: tw fl read Let_def)
  qed
qed

lemma not_in_colon_parts: "hex_value c = None \<Longrightarrow> p \<in> set (colon_parts gs) \<Longrightarrow> c \<notin> set p"
  by (auto simp: colon_parts_def hex_parts_def or_empty_def split: prod.splits if_splits)

lemma colon_parts_not_Nil: "gs \<noteq> [] \<Longrightarrow> colon_parts gs \<noteq> []"
  by (auto simp: colon_parts_def hex_parts_def split: prod.splits)

lemma string6_inj:
  assumes "length gs = 8" and "length hs = 8" and "string6 gs = string6 hs"
  shows "gs = hs"
proof -
  have ne: "gs \<noteq> []" "hs \<noteq> []" using assms by auto
  have "colon_parts gs = colon_parts hs"
    by (rule join_single_inj [of "CHR '':''"])
      (use ne assms(3) in \<open>simp_all add: string6_colon_parts colon_parts_not_Nil not_in_colon_parts\<close>)
  then show ?thesis using colon_parts_read [of gs] colon_parts_read [of hs] assms(1,2)
    by (metis (no_types, lifting))
qed

lemma not_in_string6: "gs \<noteq> [] \<Longrightarrow> hex_value c = None \<Longrightarrow> c \<noteq> CHR '':'' \<Longrightarrow> c \<notin> set (string6 gs)"
  using set_join [of "'':''" "colon_parts gs"] not_in_colon_parts
  by (fastforce simp: string6_colon_parts)

section \<open>Addresses\<close>

lemma bytes_of_group_inj: "bytes_of_group g = bytes_of_group h \<Longrightarrow> g = h"
proof -
  assume eq: "bytes_of_group g = bytes_of_group h"
  then have "unsigned (drop_bit 8 g) = (unsigned (drop_bit 8 h) :: 8 word)"
    and "unsigned g = (unsigned h :: 8 word)"
    by (simp_all add: bytes_of_group_def)
  then have hi: "bit (unsigned (drop_bit 8 g) :: 8 word) n = bit (unsigned (drop_bit 8 h) :: 8 word) n"
    and lo: "bit (unsigned g :: 8 word) n = bit (unsigned h :: 8 word) n" for n
    by simp_all
  show "g = h"
  proof (rule bit_word_eqI)
    fix n assume n: "n < LENGTH(16)"
    show "bit g n = bit h n"
    proof (cases "n < 8")
      case True
      then show ?thesis using lo [of n] by (simp add: bit_simps)
    next
      case False
      moreover have "n - 8 < 8" using n by simp
      ultimately show ?thesis using hi [of "n - 8"] n by (simp add: bit_simps)
    qed
  qed
qed

lemma concat_bytes_inj:
  "concat (map bytes_of_group gs) = concat (map bytes_of_group hs) \<Longrightarrow> gs = hs"
proof (induction gs hs rule: list_induct2')
  case (4 g gs h hs)
  have "bytes_of_group g = bytes_of_group h"
    and "concat (map bytes_of_group gs) = concat (map bytes_of_group hs)"
    using "4.prems" by (auto simp: bytes_of_group_def [of g] bytes_of_group_def [of h])
  then show ?case using "4.IH" bytes_of_group_inj by simp
qed (simp_all add: bytes_of_group_def)

lemma length_concat_bytes: "length (concat (map bytes_of_group gs)) = 2 * length gs"
  by (induction gs) (simp_all add: bytes_of_group_def)

lemma mapped_groups: "Is4In6 (IPv6 gs zone) \<Longrightarrow> length gs = 8 \<Longrightarrow> gs = [0, 0, 0, 0, 0, 0xFFFF] @ drop 6 gs"
proof -
  assume m: "Is4In6 (IPv6 gs zone)" and "length gs = 8"
  have "gs = take 5 gs @ take 1 (drop 5 gs) @ drop 1 (drop 5 gs)"
    by (metis append_take_drop_id)
  then show ?thesis using m by (simp add: numeral_eq_Suc)
qed

text \<open>The text before the zone, which has no percent sign.\<close>

fun plain_text :: "addr \<Rightarrow> string" where
  "plain_text (IPv6 gs zone) =
     (if Is4In6 (IPv6 gs zone) then ''::ffff:'' @ string4 (concat (map bytes_of_group (drop 6 gs)))
      else string6 gs)"
| "plain_text a = Addr_String a"

lemma Addr_String_plain: "Addr_String a = plain_text a @ zone_suffix (Zone a)"
  by (cases a) (simp_all add: zone_suffix_def)

lemma plain_text_percent: "wf_addr a \<Longrightarrow> CHR ''%'' \<notin> set (plain_text a)"
proof (cases a)
  case (IPv6 gs zone)
  assume "wf_addr a"
  then show ?thesis using IPv6 not_in_string6 [of gs "CHR ''%''"] by (cases gs) (auto simp del: Is4In6.simps)
qed simp_all

lemma plain_text_colon: "wf_addr a \<Longrightarrow> CHR '':'' \<in> set (plain_text a) \<longleftrightarrow> Is6 a"
proof (cases a)
  case (IPv6 gs zone)
  assume wf: "wf_addr a"
  have "CHR '':'' \<in> set (string6 gs)"
  proof (cases "longest_run gs")
    case (Pair start len)
    show ?thesis
    proof (cases "len = 0")
      case True
      obtain g h hs where "gs = g # h # hs" using wf IPv6 by (cases gs rule: remdups_adj.cases) auto
      then show ?thesis using Pair True by (simp add: string6_def hex_groups_def)
    qed (use Pair in \<open>simp add: string6_def\<close>)
  qed
  then show ?thesis using IPv6 by (simp del: Is4In6.simps)
qed simp_all

lemma plain_text_dot: "wf_addr a \<Longrightarrow> a \<noteq> ZeroAddr \<Longrightarrow> CHR ''.'' \<in> set (plain_text a) \<longleftrightarrow> \<not> Is6 a \<or> Is4In6 a"
proof -
  assume wf: "wf_addr a" and nz: "a \<noteq> ZeroAddr"
  have dot: "CHR ''.'' \<in> set (string4 bs)" if len: "length bs = 4" for bs
  proof -
    obtain b c cs where "bs = b # c # cs" using len by (cases bs rule: remdups_adj.cases) auto
    then show ?thesis by (simp add: string4_def)
  qed
  show ?thesis
  proof (cases a)
    case (IPv6 gs zone)
    then show ?thesis using wf dot [of "concat (map bytes_of_group (drop 6 gs))"]
        not_in_string6 [of gs "CHR ''.''"] by (cases gs) (auto simp: length_concat_bytes simp del: Is4In6.simps)
  qed (use wf nz dot in auto)
qed

lemma plain_text_zero: "wf_addr a \<Longrightarrow> plain_text a = ''invalid IP'' \<Longrightarrow> a = ZeroAddr"
proof -
  assume wf: "wf_addr a" and eq: "plain_text a = ''invalid IP''"
  then have "\<not> Is6 a" using plain_text_colon [OF wf] by simp
  moreover have "CHR ''i'' \<in> set (plain_text a)" by (simp add: eq)
  ultimately show "a = ZeroAddr" by (cases a) simp_all
qed

lemma plain_text_inj:
  assumes "wf_addr a" and "wf_addr b" and "plain_text a = plain_text b" and "Zone a = Zone b"
  shows "a = b"
proof (cases "a = ZeroAddr \<or> b = ZeroAddr")
  case True
  then show ?thesis using plain_text_zero assms by (metis Addr_String.simps(1) plain_text.simps(2))
next
  case False
  have six: "Is6 a = Is6 b" using assms plain_text_colon by metis
  have mapped: "\<not> Is6 a \<or> Is4In6 a \<longleftrightarrow> \<not> Is6 b \<or> Is4In6 b"
    using False assms plain_text_dot by metis
  show ?thesis
  proof (cases a)
    case a: (IPv4 bs)
    then obtain cs where b: "b = IPv4 cs" using six False by (cases b) auto
    then show ?thesis using a assms by (simp add: string4_inj)
  next
    case a: (IPv6 gs z)
    then obtain hs where b: "b = IPv6 hs z" using six assms(4) by (cases b) auto
    have len: "length gs = 8" "length hs = 8" using a b assms by auto
    show ?thesis
    proof (cases "Is4In6 a")
      case True
      then have both: "Is4In6 (IPv6 gs z)" "Is4In6 (IPv6 hs z)" using mapped a b by auto
      then have "string4 (concat (map bytes_of_group (drop 6 gs))) = string4 (concat (map bytes_of_group (drop 6 hs)))"
        using assms(3) a b by (simp del: Is4In6.simps)
      then have "drop 6 gs = drop 6 hs"
        using concat_bytes_inj by (subst (asm) string4_inj) (auto simp: length_concat_bytes len)
      then show ?thesis using mapped_groups [OF both(1) len(1)] mapped_groups [OF both(2) len(2)] a b by metis
    next
      case False
      then have "\<not> Is4In6 (IPv6 gs z)" "\<not> Is4In6 (IPv6 hs z)" using mapped a b by auto
      then show ?thesis using assms(3) a b len by (auto intro: string6_inj simp del: Is4In6.simps)
    qed
  qed (use False in simp)
qed

lemma Addr_String_inj:
  assumes "wf_addr a" and "wf_addr b"
  shows "Addr_String a = Addr_String b \<longleftrightarrow> a = b"
proof
  assume eq: "Addr_String a = Addr_String b"
  let ?plain = "takeWhile (\<lambda>c. c \<noteq> CHR ''%'')" and ?zone = "\<lambda>s. drop 1 (dropWhile (\<lambda>c. c \<noteq> CHR ''%'') s)"
  have "?plain (Addr_String x) = plain_text x \<and> ?zone (Addr_String x) = Zone x" if "wf_addr x" for x
  proof -
    have "\<forall>c \<in> set (plain_text x). c \<noteq> CHR ''%''" using plain_text_percent [OF that] by metis
    then show ?thesis by (simp add: Addr_String_plain zone_suffix_def takeWhile_append2 dropWhile_append2)
  qed
  then show "a = b" using plain_text_inj assms eq by metis
qed simp

section \<open>Prefixes\<close>

text \<open>A prefix of the code: the zero value, or a valid prefix, whose address has no zone.\<close>

definition wf_prefix :: "prefix \<Rightarrow> bool" where
  "wf_prefix p \<longleftrightarrow> p = zero_prefix \<or> IsValid p \<and> wf_addr (Prefix_Addr p) \<and> Zone (Prefix_Addr p) = []"

lemma Prefix_String_inj:
  assumes "wf_prefix p" and "wf_prefix q" and "p \<noteq> zero_prefix" and "q \<noteq> zero_prefix"
  shows "Prefix_String p = Prefix_String q \<longleftrightarrow> p = q"
proof -
  have v: "IsValid p" "wf_addr (Prefix_Addr p)" "IsValid q" "wf_addr (Prefix_Addr q)"
    using assms by (auto simp: wf_prefix_def)
  then have "Prefix_String p = Prefix_String q \<longleftrightarrow>
    Prefix_Addr p = Prefix_Addr q \<and> bitsPlusOne p - 1 = bitsPlusOne q - 1"
    by (simp add: Prefix_String_def append_last_sep_eq Addr_String_inj)
  then show ?thesis using v by (auto simp: IsValid_def)
qed

section \<open>What the parsers return\<close>

lemma parse_v4_fields_length:
  "parse_v4_fields s start val digLen acc = Some bs \<Longrightarrow> length acc \<le> 3 \<Longrightarrow> length bs = 4"
  by (induction s start val digLen acc rule: parse_v4_fields.induct)
    (auto simp: Let_def split: if_splits)

lemma parse_v6_groups_length:
  "parse_v6_groups s gs e = Some (s', gs', e') \<Longrightarrow> length gs \<le> 8 \<Longrightarrow> length gs' \<le> 8"
proof (induction s gs e rule: parse_v6_groups.induct)
  case (1 s gs e)
  show ?case
  proof (cases "8 \<le> length gs")
    case True
    then show ?thesis using "1.prems" by (simp add: parse_v6_groups.simps [of s gs e])
  next
    case False
    then obtain cont s1 gs1 e1 where turn: "parse_v6_turn s gs e = Some (cont, s1, gs1, e1)"
      and rest: "(if cont then parse_v6_groups s1 gs1 e1 else Some (s1, gs1, e1)) = Some (s', gs', e')"
      using "1.prems"(1) by (subst (asm) parse_v6_groups.simps) (auto split: option.splits prod.splits)
    have "length gs1 \<le> 8" using parse_v6_turn_groups [OF turn] False by simp
    then show ?thesis using rest "1.IH" [OF False turn refl refl refl] by (cases cont) auto
  qed
qed

lemma ParseAddr_wf: "ParseAddr s = Some a \<Longrightarrow> wf_addr a \<and> a \<noteq> ZeroAddr"
proof -
  assume "ParseAddr s = Some a"
  then consider "parseIPv4 s = Some a" | "parseIPv6 s = Some a"
    by (auto simp: ParseAddr_def split: list.splits if_splits)
  then show ?thesis
  proof cases
    case 1
    then show ?thesis by (auto simp: parseIPv4_def dest!: parse_v4_fields_length)
  next
    case 2
    have "length gs' = 8" if "expand_ellipsis gs e = Some gs'" "length gs \<le> 8" for gs e gs'
      using that by (auto simp: expand_ellipsis_def split: if_splits option.splits)
    then show ?thesis using 2
      by (auto simp: parseIPv6_def Let_def split: if_splits option.splits dest!: parse_v6_groups_length)
  qed
qed

lemma ParsePrefix_wf: "ParsePrefix s = Some p \<Longrightarrow> wf_prefix p \<and> IsValid p"
proof -
  assume "ParsePrefix s = Some p"
  then obtain ip a n where a: "ParseAddr ip = Some a" "Is6 a \<longrightarrow> Zone a = []"
    and p: "p = \<lparr>Prefix_Addr = a, bitsPlusOne = Suc n\<rparr>"
    by (auto simp: ParsePrefix_def Let_def split: if_splits option.splits)
  have "Zone a = []" using a(2) by (cases a) auto
  then show ?thesis using ParseAddr_wf [OF a(1)] by (simp add: p wf_prefix_def IsValid_def)
qed

end
