(* ===== verification/Routes_Config.thy ===== *)
theory Routes_Config
  imports NetIP_Text "HOL-Library.Multiset" "HOL-Library.AList"
begin

text \<open>
  The routes that \<^verbatim>\<open>TalosInjector\<close> wants in a node's machine config
  (\<^verbatim>\<open>internal/routes/injector.go\<close>, \<^verbatim>\<open>internal/routes/talos_injector.go\<close>): the route configs of
  each managed interface, their signatures and order, and the rewriting of the link documents of
  the machine config.
\<close>

section \<open>Data\<close>

record node =
  node_Address :: string
  node_Port :: int
  node_MachineKey :: string

record route =
  Network :: string
  Gateway :: string
  Metric :: u32
  Interface :: string

text \<open>The fields of \<^verbatim>\<open>netcfg.RouteConfig\<close>; an absent address or prefix is the zero value.\<close>

record route_config =
  RouteDestination :: prefix
  RouteGateway :: addr
  RouteSource :: addr
  RouteMetric :: u32
  RouteMTU :: u32
  RouteTable :: u32

datatype route_error =
    InterfaceEmpty nat
  | GatewayEmpty nat
  | GatewayUnparsable nat string
  | NetworkUnparsable nat string

section \<open>Signatures and order\<close>

datatype link_route_signature = LinkRouteSignature
  (sig_Destination: string) (sig_Gateway: string) (sig_Source: string)
  (sig_Metric: u32) (sig_MTU: u32) (sig_Table: u32)

definition routeConfigSignature :: "route_config \<Rightarrow> link_route_signature" where
  "routeConfigSignature r =
     (let destination = (if RouteDestination r \<noteq> zero_prefix then Prefix_String (RouteDestination r) else []);
          gateway = (if RouteGateway r \<noteq> ZeroAddr then Addr_String (RouteGateway r) else []);
          source = (if RouteSource r \<noteq> ZeroAddr then Addr_String (RouteSource r) else [])
      in LinkRouteSignature destination gateway source (RouteMetric r) (RouteMTU r) (RouteTable r))"

text \<open>The comparison of \<^verbatim>\<open>sortRouteConfigs\<close>, as the order of the type of signatures.\<close>

definition signature_less :: "link_route_signature \<Rightarrow> link_route_signature \<Rightarrow> bool" where
  "signature_less lhs rhs \<longleftrightarrow>
     (if sig_Destination lhs \<noteq> sig_Destination rhs then sig_Destination lhs < sig_Destination rhs
      else if sig_Gateway lhs \<noteq> sig_Gateway rhs then sig_Gateway lhs < sig_Gateway rhs
      else if sig_Source lhs \<noteq> sig_Source rhs then sig_Source lhs < sig_Source rhs
      else if sig_Metric lhs \<noteq> sig_Metric rhs then sig_Metric lhs < sig_Metric rhs
      else if sig_MTU lhs \<noteq> sig_MTU rhs then sig_MTU lhs < sig_MTU rhs
      else sig_Table lhs < sig_Table rhs)"

instantiation link_route_signature :: linorder
begin

definition less_link_route_signature :: "link_route_signature \<Rightarrow> link_route_signature \<Rightarrow> bool" where
  "less_link_route_signature lhs rhs \<longleftrightarrow> signature_less lhs rhs"

definition less_eq_link_route_signature :: "link_route_signature \<Rightarrow> link_route_signature \<Rightarrow> bool" where
  "less_eq_link_route_signature lhs rhs \<longleftrightarrow> lhs = rhs \<or> lhs < rhs"

instance
proof
  fix a b c :: link_route_signature
  note defs = less_eq_link_route_signature_def less_link_route_signature_def signature_less_def
  show "a < b \<longleftrightarrow> a \<le> b \<and> \<not> b \<le> a" by (cases a; cases b) (auto simp: defs)
  show "a \<le> a" by (simp add: defs)
  show "a \<le> b \<Longrightarrow> b \<le> c \<Longrightarrow> a \<le> c"
    by (cases a; cases b; cases c) (auto simp: defs split: if_splits)
  show "a \<le> b \<Longrightarrow> b \<le> a \<Longrightarrow> a = b" by (cases a; cases b) (auto simp: defs split: if_splits)
  show "a \<le> b \<or> b \<le> a" by (cases a; cases b) (auto simp: defs)
qed

end

text \<open>
  \<^verbatim>\<open>sortRouteConfigs\<close>. \<^verbatim>\<open>sort.Slice\<close> is not stable, but it permutes and orders, and
  \<open>sortRouteConfigs_unique\<close> below shows that this determines the result.
\<close>

definition sortRouteConfigs :: "route_config list \<Rightarrow> route_config list" where
  "sortRouteConfigs routes = (if length routes = 0 then [] else sort_key routeConfigSignature routes)"

fun sameRouteConfigs :: "route_config list \<Rightarrow> route_config list \<Rightarrow> bool" where
  "sameRouteConfigs [] [] \<longleftrightarrow> True"
| "sameRouteConfigs (a # as) (b # bs) \<longleftrightarrow>
     routeConfigSignature a = routeConfigSignature b \<and> sameRouteConfigs as bs"
| "sameRouteConfigs _ _ \<longleftrightarrow> False"

section \<open>Managed interfaces and desired routes\<close>

definition normalizeManagedInterfaces :: "string list \<Rightarrow> route list \<Rightarrow> string list" where
  "normalizeManagedInterfaces managedInterfaces desiredRoutes =
     sorted_list_of_set
       (set (filter (\<lambda>iface. iface \<noteq> []) (map TrimSpace managedInterfaces))
        \<union> set (filter (\<lambda>iface. iface \<noteq> []) (map (\<lambda>r. TrimSpace (Interface r)) desiredRoutes)))"

text \<open>The map of desired routes is an association list; nothing depends on its order.\<close>

type_synonym desired = "(string \<times> route_config list) list"

definition desired_of :: "desired \<Rightarrow> string \<Rightarrow> route_config list" where
  "desired_of out iface = (case map_of out iface of None \<Rightarrow> [] | Some rs \<Rightarrow> rs)"

definition managed_entries :: "string list \<Rightarrow> desired" where
  "managed_entries managedInterfaces =
     fold (\<lambda>iface out. let iface = TrimSpace iface
                       in if iface = [] then out else AList.update iface [] out)
       managedInterfaces []"

text \<open>The body of the loop over the routes: the interface and the config of \<open>routes[i]\<close>.\<close>

definition desired_route :: "nat \<Rightarrow> route \<Rightarrow> route_error + string \<times> route_config" where
  "desired_route i r =
     (let iface = TrimSpace (Interface r); gateway = TrimSpace (Gateway r); network = TrimSpace (Network r)
      in if iface = [] then Inl (InterfaceEmpty i)
         else if gateway = [] then Inl (GatewayEmpty i)
         else (case ParseAddr gateway of
                 None \<Rightarrow> Inl (GatewayUnparsable i gateway)
               | Some gwAddr \<Rightarrow>
                   let routeCfg = \<lparr>RouteDestination = zero_prefix, RouteGateway = gwAddr, RouteSource = ZeroAddr,
                                   RouteMetric = Metric r, RouteMTU = 0, RouteTable = 0\<rparr>
                   in if network \<noteq> [] then
                        (case ParsePrefix network of
                           None \<Rightarrow> Inl (NetworkUnparsable i network)
                         | Some prefix \<Rightarrow> Inr (iface, routeCfg\<lparr>RouteDestination := prefix\<rparr>))
                      else Inr (iface, routeCfg)))"

fun desired_loop :: "nat \<Rightarrow> route list \<Rightarrow> desired \<Rightarrow> route_error + desired" where
  "desired_loop i [] out = Inr out"
| "desired_loop i (r # rs) out =
     (case desired_route i r of
        Inl e \<Rightarrow> Inl e
      | Inr (iface, routeCfg) \<Rightarrow>
          desired_loop (Suc i) rs (AList.update iface (desired_of out iface @ [routeCfg]) out))"

definition desiredRouteConfigsByInterface :: "string list \<Rightarrow> route list \<Rightarrow> route_error + desired" where
  "desiredRouteConfigsByInterface managedInterfaces routes =
     (case desired_loop 0 routes (managed_entries managedInterfaces) of
        Inl e \<Rightarrow> Inl e
      | Inr out \<Rightarrow> Inr (map (\<lambda>(iface, rs). (iface, sortRouteConfigs rs)) out))"

section \<open>The machine config\<close>

text \<open>
  A machine config is a list of documents. Of a link document the code reads the name and
  replaces the routes; the other attributes (\<open>'x\<close>) and the other documents are carried along.
\<close>

record 'x link_config =
  MetaName :: string
  LinkRoutes :: "route_config list"
  link_attributes :: 'x

datatype 'x document = LinkDoc "'x link_config" | OtherDoc 'x

text \<open>
  The calls of the Talos machinery library: parsing a config into its documents, the new link
  document, assembling documents (an error text) and encoding them.
\<close>

record 'x config_lib =
  NewFromBytes :: "bytes \<Rightarrow> string + 'x document list"
  NewLinkConfigV1Alpha1 :: "string \<Rightarrow> 'x link_config"
  container_New :: "'x document list \<Rightarrow> string option"
  container_Bytes :: "'x document list \<Rightarrow> string + bytes"

datatype config_error = ParseConfig string | BuildConfig string | EncodeConfig string

text \<open>One document of the loop: the document to keep, whether it changed, the interface seen.\<close>

fun reconcile_document :: "desired \<Rightarrow> 'x document \<Rightarrow> 'x document \<times> bool \<times> string option" where
  "reconcile_document desired (OtherDoc x) = (OtherDoc x, False, None)"
| "reconcile_document desired (LinkDoc lc) =
     (let iface = TrimSpace (MetaName lc)
      in case map_of desired iface of
           None \<Rightarrow> (LinkDoc lc, False, None)
         | Some rs \<Rightarrow>
             let desiredRoutes = sortRouteConfigs rs;
                 existingRoutes = sortRouteConfigs (LinkRoutes lc)
             in (LinkDoc (lc\<lparr>LinkRoutes := desiredRoutes\<rparr>),
                 \<not> sameRouteConfigs existingRoutes desiredRoutes, Some iface))"

definition missing_interfaces :: "desired \<Rightarrow> string list \<Rightarrow> string list" where
  "missing_interfaces desired seen =
     sort (map fst (filter (\<lambda>(iface, desiredRoutes). iface \<notin> set seen \<and> length desiredRoutes \<noteq> 0) desired))"

text \<open>The documents after both loops and the flag \<^verbatim>\<open>changed\<close>.\<close>

definition reconcile_documents :: "'x config_lib \<Rightarrow> desired \<Rightarrow> 'x document list \<Rightarrow> 'x document list \<times> bool" where
  "reconcile_documents lib desired docs =
     (let visited = map (reconcile_document desired) docs;
          seen = List.map_filter (\<lambda>(d, c, s). s) visited;
          missing = missing_interfaces desired seen;
          new = map (\<lambda>iface. LinkDoc ((NewLinkConfigV1Alpha1 lib iface)\<lparr>LinkRoutes := desired_of desired iface\<rparr>)) missing
      in (map fst visited @ new, list_ex (\<lambda>(d, c, s). c) visited \<or> missing \<noteq> []))"

definition reconcileManagedLinkRoutes ::
  "'x config_lib \<Rightarrow> bytes \<Rightarrow> desired \<Rightarrow> config_error + bytes \<times> bool" where
  "reconcileManagedLinkRoutes lib machineConfig desired =
     (if length desired = 0 then Inr (machineConfig, False)
      else case NewFromBytes lib machineConfig of
        Inl e \<Rightarrow> Inl (ParseConfig e)
      | Inr docs \<Rightarrow>
          (case reconcile_documents lib desired docs of
             (docs', changed) \<Rightarrow>
               if \<not> changed then Inr (machineConfig, False)
               else (case container_New lib docs' of
                       Some e \<Rightarrow> Inl (BuildConfig e)
                     | None \<Rightarrow>
                         (case container_Bytes lib docs' of
                            Inl e \<Rightarrow> Inl (EncodeConfig e)
                          | Inr updatedBytes \<Rightarrow>
                              if TrimSpace updatedBytes = TrimSpace machineConfig
                              then Inr (machineConfig, False)
                              else Inr (updatedBytes, True)))))"

end
