(* ===== verification/Routes_Facts.thy ===== *)
theory Routes_Facts
  imports Routes_Config
begin

text \<open>
  Facts about the definitions of \<open>Routes_Config\<close>: signatures determine route configs, the sorted
  list is the only one, what the map of desired routes holds, and what the rewriting of the machine
  config does to each document.
\<close>

section \<open>Signatures and sorting\<close>

text \<open>A route config of the code: its addresses come from the parsers or are zero values.\<close>

definition wf_route_config :: "route_config \<Rightarrow> bool" where
  "wf_route_config r \<longleftrightarrow>
     wf_prefix (RouteDestination r) \<and> wf_addr (RouteGateway r) \<and> wf_addr (RouteSource r)"

lemma Addr_String_not_Nil: "wf_addr a \<Longrightarrow> Addr_String a \<noteq> []"
proof -
  assume wf: "wf_addr a"
  have "CHR '':'' \<in> set (plain_text a) \<or> a = ZeroAddr \<or> CHR ''.'' \<in> set (plain_text a)"
    using plain_text_colon [OF wf] plain_text_dot [OF wf] by blast
  then have "plain_text a \<noteq> []" by auto
  then show ?thesis by (simp add: Addr_String_plain)
qed

lemma optional_text_inj:
  "wf_addr a \<Longrightarrow> wf_addr b \<Longrightarrow>
     (if a \<noteq> ZeroAddr then Addr_String a else []) = (if b \<noteq> ZeroAddr then Addr_String b else []) \<longleftrightarrow> a = b"
  using Addr_String_inj [of a b] Addr_String_not_Nil [of a] Addr_String_not_Nil [of b] by auto

lemma optional_prefix_inj:
  "wf_prefix p \<Longrightarrow> wf_prefix q \<Longrightarrow>
     (if p \<noteq> zero_prefix then Prefix_String p else []) = (if q \<noteq> zero_prefix then Prefix_String q else []) \<longleftrightarrow> p = q"
  using Prefix_String_inj [of p q] by (auto simp: Prefix_String_def split: if_splits)

lemma routeConfigSignature_inj:
  "wf_route_config r \<Longrightarrow> wf_route_config q \<Longrightarrow> routeConfigSignature r = routeConfigSignature q \<longleftrightarrow> r = q"
  unfolding routeConfigSignature_def wf_route_config_def Let_def
  by (simp add: optional_text_inj optional_prefix_inj del: if_not_P) (auto intro: route_config.equality)

lemma mset_sortRouteConfigs [simp]: "mset (sortRouteConfigs rs) = mset rs"
  by (simp add: sortRouteConfigs_def)

lemma set_sortRouteConfigs [simp]: "set (sortRouteConfigs rs) = set rs"
  by (simp add: sortRouteConfigs_def)

lemma sortRouteConfigs_Nil [simp]: "sortRouteConfigs rs = [] \<longleftrightarrow> rs = []" "sortRouteConfigs [] = []"
  by (simp_all add: sortRouteConfigs_def) (metis length_0_conv length_sort)

lemma sorted_sortRouteConfigs: "sorted (map routeConfigSignature (sortRouteConfigs rs))"
  by (simp add: sortRouteConfigs_def)

lemma wf_configs_inj: "\<forall>r \<in> set rs. wf_route_config r \<Longrightarrow> inj_on routeConfigSignature (set rs)"
  by (auto simp: inj_on_def routeConfigSignature_inj)

lemma sortRouteConfigs_unique:
  "mset out = mset rs \<Longrightarrow> sorted (map routeConfigSignature out) \<Longrightarrow> \<forall>r \<in> set rs. wf_route_config r
   \<Longrightarrow> out = sortRouteConfigs rs"
  unfolding sortRouteConfigs_def using sort_key_inj_key_eq [of rs out routeConfigSignature] wf_configs_inj [of rs]
  by auto

lemma sortRouteConfigs_mset:
  "\<forall>r \<in> set rs. wf_route_config r \<Longrightarrow> mset rs = mset qs \<Longrightarrow> sortRouteConfigs rs = sortRouteConfigs qs"
  by (rule sortRouteConfigs_unique) (auto simp: sorted_sortRouteConfigs dest: mset_eq_setD)

lemma sortRouteConfigs_idem [simp]: "sortRouteConfigs (sortRouteConfigs rs) = sortRouteConfigs rs"
  unfolding sortRouteConfigs_def by (auto simp: sort_key_id_if_sorted)

lemma sameRouteConfigs_map:
  "sameRouteConfigs as bs \<longleftrightarrow> map routeConfigSignature as = map routeConfigSignature bs"
  by (induction as bs rule: sameRouteConfigs.induct) auto

lemma sameRouteConfigs_refl [simp]: "sameRouteConfigs rs rs"
  by (simp add: sameRouteConfigs_map)

lemma sameRouteConfigs_mset:
  assumes "\<forall>r \<in> set as. wf_route_config r" and "\<forall>r \<in> set bs. wf_route_config r"
  shows "sameRouteConfigs (sortRouteConfigs as) (sortRouteConfigs bs) \<longleftrightarrow> mset as = mset bs"
proof
  assume "sameRouteConfigs (sortRouteConfigs as) (sortRouteConfigs bs)"
  then have eq: "map routeConfigSignature (sortRouteConfigs as) = map routeConfigSignature (sortRouteConfigs bs)"
    by (simp add: sameRouteConfigs_map)
  have "inj_on routeConfigSignature (set (sortRouteConfigs as) \<union> set (sortRouteConfigs bs))"
    using assms by (auto simp: inj_on_def routeConfigSignature_inj)
  then have "sortRouteConfigs as = sortRouteConfigs bs" using eq by (rule map_inj_on [rotated])
  then show "mset as = mset bs" by (metis mset_sortRouteConfigs)
next
  assume "mset as = mset bs"
  then show "sameRouteConfigs (sortRouteConfigs as) (sortRouteConfigs bs)"
    using sortRouteConfigs_mset [OF assms(1)] by simp
qed

section \<open>The desired routes\<close>

text \<open>The interface and the config a route asks for, when it is valid.\<close>

definition wanted_config :: "route \<Rightarrow> (string \<times> route_config) option" where
  "wanted_config r = (case desired_route 0 r of Inl e \<Rightarrow> None | Inr x \<Rightarrow> Some x)"

definition configs_for :: "string \<Rightarrow> route list \<Rightarrow> route_config list" where
  "configs_for iface rs = map snd (filter (\<lambda>(i, c). i = iface) (List.map_filter wanted_config rs))"

lemma desired_route_index: "desired_route i r = Inr x \<longleftrightarrow> wanted_config r = Some x"
  by (auto simp: wanted_config_def desired_route_def Let_def split: option.splits if_splits)

lemma desired_route_error: "desired_route i r = Inl e \<Longrightarrow> wanted_config r = None"
  by (auto simp: wanted_config_def desired_route_def Let_def split: option.splits if_splits)

lemma configs_for_Nil [simp]: "configs_for iface [] = []"
  by (simp add: configs_for_def List.map_filter_simps)

lemma configs_for_Cons:
  "configs_for iface (r # rs) =
     (case wanted_config r of
        Some (i, c) \<Rightarrow> (if i = iface then c # configs_for iface rs else configs_for iface rs)
      | None \<Rightarrow> configs_for iface rs)"
  by (auto simp: configs_for_def List.map_filter_simps split: option.splits)

lemma desired_of_update: "desired_of (AList.update k v out) i = (if i = k then v else desired_of out i)"
  by (simp add: desired_of_def update_conv')

lemma desired_loop_exact:
  "desired_loop n rs out = Inr d \<Longrightarrow> distinct (map fst out) \<Longrightarrow>
     distinct (map fst d) \<and>
     map_of d iface = (if map_of out iface \<noteq> None \<or> configs_for iface rs \<noteq> []
                       then Some (desired_of out iface @ configs_for iface rs) else None)"
proof (induction n rs out rule: desired_loop.induct)
  case (1 n out)
  then show ?case by (auto simp: desired_of_def split: option.splits)
next
  case (2 n r rs out)
  show ?case
  proof (cases "desired_route n r")
    case (Inr x)
    obtain i c where x: "x = (i, c)" by fastforce
    have "wanted_config r = Some (i, c)" using Inr by (simp add: x desired_route_index)
    then show ?thesis
      using "2.IH" [OF Inr x [symmetric]] "2.prems" Inr
      by (auto simp: x configs_for_Cons desired_of_update update_conv' distinct_update)
  qed (use 2 in simp)
qed

lemma desired_loop_total:
  "(\<exists>d. desired_loop n rs out = Inr d) \<longleftrightarrow> (\<forall>r \<in> set rs. wanted_config r \<noteq> None)"
proof (induction n rs out rule: desired_loop.induct)
  case (2 n r rs out)
  show ?case
  proof (cases "desired_route n r")
    case (Inl e)
    then show ?thesis using desired_route_error [OF Inl] by simp
  next
    case (Inr x)
    obtain i c where x: "x = (i, c)" by fastforce
    have "wanted_config r = Some (i, c)" using Inr by (simp add: x desired_route_index)
    then show ?thesis using "2.IH" [OF Inr x [symmetric]] Inr by (simp add: x)
  qed
qed simp

lemma managed_entries_exact:
  "distinct (map fst (managed_entries ms)) \<and>
   map_of (managed_entries ms) iface = (if iface \<in> set (filter (\<lambda>i. i \<noteq> []) (map TrimSpace ms)) then Some [] else None)"
proof -
  have "distinct (map fst (fold (\<lambda>iface out. let iface = TrimSpace iface
                       in if iface = [] then out else AList.update iface [] out) ms out)) \<and>
    map_of (fold (\<lambda>iface out. let iface = TrimSpace iface
                       in if iface = [] then out else AList.update iface [] out) ms out) iface =
      (if iface \<in> set (filter (\<lambda>i. i \<noteq> []) (map TrimSpace ms)) then Some [] else map_of out iface)"
    if "distinct (map fst out)" for out
    using that
  proof (induction ms arbitrary: out)
    case (Cons m ms)
    then show ?case by (auto simp: Let_def update_conv' distinct_update simp del: map_of_eq_Some_iff Some_eq_map_of_iff)
  qed simp
  from this [of "[]"] show ?thesis unfolding managed_entries_def
    by (auto simp del: map_of_eq_Some_iff Some_eq_map_of_iff split: if_split_asm)
qed

lemma set_normalizeManagedInterfaces:
  "set (normalizeManagedInterfaces ms rs) =
     ((TrimSpace ` set ms) \<union> ((\<lambda>r. TrimSpace (Interface r)) ` set rs)) - {[]}"
  by (auto simp: normalizeManagedInterfaces_def)

lemma wanted_config_interface: "wanted_config r = Some (i, c) \<Longrightarrow> i = TrimSpace (Interface r) \<and> i \<noteq> []"
  by (auto simp: wanted_config_def desired_route_def Let_def split: sum.splits option.splits if_splits)

lemma wanted_config_wf: "wanted_config r = Some (i, c) \<Longrightarrow> wf_route_config c"
  by (auto simp: wanted_config_def desired_route_def Let_def wf_route_config_def wf_prefix_def
      split: sum.splits option.splits if_splits dest: ParseAddr_wf ParsePrefix_wf)

lemma configs_for_iff: "c \<in> set (configs_for iface rs) \<longleftrightarrow> (\<exists>r \<in> set rs. wanted_config r = Some (iface, c))"
  by (auto simp: configs_for_def map_filter_def image_iff)

lemma configs_for_wf: "c \<in> set (configs_for iface rs) \<Longrightarrow> wf_route_config c"
  by (auto simp: configs_for_iff dest: wanted_config_wf)

text \<open>What \<^verbatim>\<open>desiredRouteConfigsByInterface\<close> returns, interface by interface.\<close>

lemma desired_exact:
  assumes "desiredRouteConfigsByInterface ms rs = Inr d"
  shows "distinct (map fst d)"
    and "map_of d iface = (if iface \<in> set (normalizeManagedInterfaces ms rs)
                           then Some (sortRouteConfigs (configs_for iface rs)) else None)"
proof -
  obtain out where out: "desired_loop 0 rs (managed_entries ms) = Inr out"
    and d: "d = map (\<lambda>(iface, rs). (iface, sortRouteConfigs rs)) out"
    using assms by (auto simp: desiredRouteConfigsByInterface_def split: sum.splits)
  note entries = managed_entries_exact [of ms]
  have all: "\<forall>r \<in> set rs. wanted_config r \<noteq> None" using out desired_loop_total by metis
  have loop: "distinct (map fst out)"
    "map_of out iface = (if map_of (managed_entries ms) iface \<noteq> None \<or> configs_for iface rs \<noteq> []
                         then Some (desired_of (managed_entries ms) iface @ configs_for iface rs) else None)"
    using desired_loop_exact [OF out] entries by blast+
  show "distinct (map fst d)" using loop(1) by (simp add: d comp_def case_prod_beta')
  have "desired_of (managed_entries ms) iface = []"
    using entries by (simp add: desired_of_def split: option.splits)
  moreover have "map_of d iface = map_option sortRouteConfigs (map_of out iface)"
    by (simp add: d map_of_map)
  moreover have "configs_for iface rs \<noteq> [] \<longleftrightarrow> (\<exists>r \<in> set rs. TrimSpace (Interface r) = iface) \<and> iface \<noteq> []"
    using all configs_for_iff [of _ iface rs] wanted_config_interface
    by (metis (no_types, opaque_lifting) list.set_intros(1) neq_Nil_conv not_None_eq surj_pair empty_iff empty_set)
  ultimately show "map_of d iface = (if iface \<in> set (normalizeManagedInterfaces ms rs)
                           then Some (sortRouteConfigs (configs_for iface rs)) else None)"
    using entries loop(2) by (auto simp: set_normalizeManagedInterfaces)
qed

lemma desired_total:
  "(\<exists>d. desiredRouteConfigsByInterface ms rs = Inr d) \<longleftrightarrow> (\<forall>r \<in> set rs. wanted_config r \<noteq> None)"
  unfolding desired_loop_total [of 0 rs "managed_entries ms", symmetric]
  by (auto simp: desiredRouteConfigsByInterface_def split: sum.splits)

section \<open>The rewritten machine config\<close>

text \<open>
  The desired routes hold in a list of documents: every link document of a managed interface has
  exactly its routes, up to their order, and a managed interface that wants routes has a document.
\<close>

definition enforced :: "desired \<Rightarrow> 'x document list \<Rightarrow> bool" where
  "enforced desired docs \<longleftrightarrow>
     (\<forall>lc rs. LinkDoc lc \<in> set docs \<longrightarrow> map_of desired (TrimSpace (MetaName lc)) = Some rs
        \<longrightarrow> mset (LinkRoutes lc) = mset rs)
     \<and> (\<forall>iface rs. map_of desired iface = Some rs \<longrightarrow> rs \<noteq> []
        \<longrightarrow> (\<exists>lc. LinkDoc lc \<in> set docs \<and> TrimSpace (MetaName lc) = iface))"

text \<open>A document may only change in the routes of a managed interface.\<close>

inductive routes_changed :: "desired \<Rightarrow> 'x document \<Rightarrow> 'x document \<Rightarrow> bool" for desired where
  same: "routes_changed desired d d"
| managed: "map_of desired (TrimSpace (MetaName lc)) \<noteq> None
    \<Longrightarrow> routes_changed desired (LinkDoc lc) (LinkDoc (lc\<lparr>LinkRoutes := rs\<rparr>))"

inductive_simps routes_changed_OtherDoc: "routes_changed desired (OtherDoc x) d"

text \<open>What the code relies on of the library: the name of a new document, and parsed addresses.\<close>

definition wf_lib :: "'x config_lib \<Rightarrow> bool" where
  "wf_lib lib \<longleftrightarrow>
     (\<forall>iface. MetaName (NewLinkConfigV1Alpha1 lib iface) = iface)
     \<and> (\<forall>b docs lc. NewFromBytes lib b = Inr docs \<longrightarrow> LinkDoc lc \<in> set docs
          \<longrightarrow> (\<forall>r \<in> set (LinkRoutes lc). wf_route_config r))"

definition wf_desired :: "desired \<Rightarrow> bool" where
  "wf_desired desired \<longleftrightarrow> distinct (map fst desired)
     \<and> (\<forall>iface rs. map_of desired iface = Some rs \<longrightarrow>
          TrimSpace iface = iface \<and> sortRouteConfigs rs = rs \<and> (\<forall>r \<in> set rs. wf_route_config r))"

lemma desired_wf: "desiredRouteConfigsByInterface ms rs = Inr d \<Longrightarrow> wf_desired d"
  unfolding wf_desired_def
  by (auto simp: desired_exact set_normalizeManagedInterfaces split: if_splits dest: configs_for_wf)

lemma map_filter_Some: "x \<in> set (List.map_filter f xs) \<longleftrightarrow> (\<exists>y \<in> set xs. f y = Some x)"
  by (auto simp: map_filter_def image_iff)

lemma seen_interfaces:
  "iface \<in> set (List.map_filter (\<lambda>(d, c, s). s) (map (reconcile_document desired) docs)) \<longleftrightarrow>
     (\<exists>lc. LinkDoc lc \<in> set docs \<and> TrimSpace (MetaName lc) = iface \<and> map_of desired iface \<noteq> None)"
proof -
  have seen: "snd (snd (reconcile_document desired d)) = Some iface \<longleftrightarrow>
      (\<exists>lc. d = LinkDoc lc \<and> TrimSpace (MetaName lc) = iface \<and> map_of desired iface \<noteq> None)" for d
    by (cases d) (auto simp: Let_def split: option.splits)
  have "iface \<in> set (List.map_filter (\<lambda>(d, c, s). s) (map (reconcile_document desired) docs)) \<longleftrightarrow>
      (\<exists>d \<in> set docs. snd (snd (reconcile_document desired d)) = Some iface)"
    by (simp add: map_filter_Some case_prod_beta')
  then show ?thesis unfolding seen by blast
qed

lemma set_missing_interfaces:
  "distinct (map fst desired) \<Longrightarrow>
     iface \<in> set (missing_interfaces desired seen) \<longleftrightarrow>
       iface \<notin> set seen \<and> (\<exists>rs. map_of desired iface = Some rs \<and> rs \<noteq> [])"
  by (auto simp: missing_interfaces_def image_iff)

lemma reconcile_document_changed: "routes_changed desired d (fst (reconcile_document desired d))"
  by (cases d) (auto simp: Let_def intro: same managed split: option.splits)

lemma reconcile_document_routes:
  "fst (reconcile_document desired d) = LinkDoc lc \<Longrightarrow> map_of desired (TrimSpace (MetaName lc)) = Some rs
   \<Longrightarrow> LinkRoutes lc = sortRouteConfigs rs"
  by (cases d) (auto simp: Let_def split: option.splits)

lemma reconcile_document_name:
  "\<exists>lc'. fst (reconcile_document desired (LinkDoc lc)) = LinkDoc lc' \<and> MetaName lc' = MetaName lc"
  by (auto simp: Let_def split: option.splits)

lemma reconcile_documents_keep:
  assumes "reconcile_documents lib desired docs = (docs', changed)"
  shows "list_all2 (routes_changed desired) docs (take (length docs) docs')"
    and "wf_desired desired \<Longrightarrow> d \<in> set (drop (length docs) docs') \<Longrightarrow>
           \<exists>iface rs. map_of desired iface = Some rs \<and> rs \<noteq> []
             \<and> d = LinkDoc ((NewLinkConfigV1Alpha1 lib iface)\<lparr>LinkRoutes := rs\<rparr>)
             \<and> (\<forall>lc. LinkDoc lc \<in> set docs \<longrightarrow> TrimSpace (MetaName lc) \<noteq> iface)"
proof -
  let ?seen = "List.map_filter (\<lambda>(d, c, s). s) (map (reconcile_document desired) docs)"
  have docs': "docs' = map fst (map (reconcile_document desired) docs) @
    map (\<lambda>iface. LinkDoc ((NewLinkConfigV1Alpha1 lib iface)\<lparr>LinkRoutes := desired_of desired iface\<rparr>))
      (missing_interfaces desired ?seen)"
    using assms by (simp add: reconcile_documents_def Let_def del: map_map)
  show "list_all2 (routes_changed desired) docs (take (length docs) docs')"
    by (simp add: docs' list_all2_conv_all_nth reconcile_document_changed)
  assume "wf_desired desired" and d: "d \<in> set (drop (length docs) docs')"
  then have "distinct (map fst desired)" by (simp add: wf_desired_def)
  note missing = set_missing_interfaces [OF this, of _ ?seen]
  obtain iface where d: "d = LinkDoc ((NewLinkConfigV1Alpha1 lib iface)\<lparr>LinkRoutes := desired_of desired iface\<rparr>)"
    and "iface \<in> set (missing_interfaces desired ?seen)"
    using d unfolding docs' by (auto simp del: map_map)
  then obtain rs where rs: "map_of desired iface = Some rs" "rs \<noteq> []" "iface \<notin> set ?seen"
    using missing by blast
  then have "\<forall>lc. LinkDoc lc \<in> set docs \<longrightarrow> TrimSpace (MetaName lc) \<noteq> iface"
    unfolding seen_interfaces by simp
  then show "\<exists>iface rs. map_of desired iface = Some rs \<and> rs \<noteq> []
             \<and> d = LinkDoc ((NewLinkConfigV1Alpha1 lib iface)\<lparr>LinkRoutes := rs\<rparr>)
             \<and> (\<forall>lc. LinkDoc lc \<in> set docs \<longrightarrow> TrimSpace (MetaName lc) \<noteq> iface)"
    using rs(1,2) unfolding d by (intro exI [of _ iface] exI [of _ rs]) (simp add: desired_of_def)
qed

lemma reconcile_documents_enforce:
  assumes "reconcile_documents lib desired docs = (docs', changed)" and "wf_desired desired" and "wf_lib lib"
  shows "enforced desired docs'"
proof -
  let ?seen = "List.map_filter (\<lambda>(d, c, s). s) (map (reconcile_document desired) docs)"
  let ?new = "\<lambda>iface. LinkDoc ((NewLinkConfigV1Alpha1 lib iface)\<lparr>LinkRoutes := desired_of desired iface\<rparr>)"
  have docs': "set docs' = (\<lambda>d. fst (reconcile_document desired d)) ` set docs \<union> ?new ` set (missing_interfaces desired ?seen)"
    using assms(1) by (auto simp: reconcile_documents_def Let_def image_image simp del: map_map)
  have name: "MetaName (NewLinkConfigV1Alpha1 lib iface) = iface" for iface
    using assms(3) by (simp add: wf_lib_def)
  have dist: "distinct (map fst desired)" using assms(2) by (simp add: wf_desired_def)
  have "mset (LinkRoutes lc) = mset rs"
    if "LinkDoc lc \<in> set docs'" "map_of desired (TrimSpace (MetaName lc)) = Some rs" for lc rs
  proof -
    from that(1) consider d where "LinkDoc lc = fst (reconcile_document desired d)"
      | iface where "LinkDoc lc = ?new iface" "iface \<in> set (missing_interfaces desired ?seen)"
      unfolding docs' by blast
    then show ?thesis
    proof cases
      case 1
      then show ?thesis using reconcile_document_routes [OF _ that(2)] by (metis mset_sortRouteConfigs)
    next
      case (2 iface)
      then have "TrimSpace iface = iface"
        using assms(2) set_missing_interfaces [OF dist, of iface ?seen] unfolding wf_desired_def by blast
      then show ?thesis using 2(1) that(2) by (simp add: name desired_of_def)
    qed
  qed
  moreover have "\<exists>lc. LinkDoc lc \<in> set docs' \<and> TrimSpace (MetaName lc) = iface"
    if m: "map_of desired iface = Some rs" "rs \<noteq> []" for iface rs
  proof (cases "iface \<in> set ?seen")
    case True
    then obtain lc where lc: "LinkDoc lc \<in> set docs" "TrimSpace (MetaName lc) = iface"
      unfolding seen_interfaces by blast
    obtain lc' where lc': "fst (reconcile_document desired (LinkDoc lc)) = LinkDoc lc'" "MetaName lc' = MetaName lc"
      using reconcile_document_name by blast
    have "fst (reconcile_document desired (LinkDoc lc)) \<in> set docs'" unfolding docs' by (rule UnI1) (rule imageI [OF lc(1)])
    then have "LinkDoc lc' \<in> set docs'" unfolding lc'(1) .
    then show ?thesis using lc(2) by (intro exI [of _ lc'] conjI) (assumption, simp add: lc'(2))
  next
    case False
    then have "iface \<in> set (missing_interfaces desired ?seen)"
      using m set_missing_interfaces [OF dist, of iface ?seen] by blast
    then have "?new iface \<in> set docs'" unfolding docs' by blast
    moreover have "TrimSpace iface = iface" using assms(2) m by (simp add: wf_desired_def)
    moreover have "MetaName ((NewLinkConfigV1Alpha1 lib iface)\<lparr>LinkRoutes := desired_of desired iface\<rparr>) = iface"
      by (simp add: name)
    ultimately show ?thesis by (intro exI conjI) (assumption, simp)
  qed
  ultimately show ?thesis unfolding enforced_def by blast
qed

text \<open>No change means that the documents already were as desired.\<close>

lemma reconcile_documents_unchanged:
  assumes "reconcile_documents lib desired docs = (docs', False)" and "wf_desired desired"
    and wf: "\<And>lc r. LinkDoc lc \<in> set docs \<Longrightarrow> r \<in> set (LinkRoutes lc) \<Longrightarrow> wf_route_config r"
  shows "enforced desired docs"
proof -
  let ?seen = "List.map_filter (\<lambda>(d, c, s). s) (map (reconcile_document desired) docs)"
  have dist: "distinct (map fst desired)" using assms(2) by (simp add: wf_desired_def)
  have same: "\<forall>d \<in> set docs. \<not> fst (snd (reconcile_document desired d))"
    and none: "missing_interfaces desired ?seen = []"
    using assms(1) by (auto simp: reconcile_documents_def Let_def list_ex_iff case_prod_beta' simp del: map_map)
  have "mset (LinkRoutes lc) = mset rs"
    if lc: "LinkDoc lc \<in> set docs" "map_of desired (TrimSpace (MetaName lc)) = Some rs" for lc rs
  proof -
    have rs: "\<forall>r \<in> set rs. wf_route_config r" using assms(2) lc(2) by (auto simp: wf_desired_def)
    have "sameRouteConfigs (sortRouteConfigs (LinkRoutes lc)) (sortRouteConfigs rs)"
      using same lc by (auto simp: Let_def)
    then show ?thesis using sameRouteConfigs_mset wf [OF lc(1)] rs by metis
  qed
  moreover have "\<exists>lc. LinkDoc lc \<in> set docs \<and> TrimSpace (MetaName lc) = iface"
    if "map_of desired iface = Some rs" "rs \<noteq> []" for iface rs
    using that none set_missing_interfaces [OF dist, of iface ?seen] seen_interfaces [of iface desired docs] by auto
  ultimately show ?thesis unfolding enforced_def by blast
qed

text \<open>Conversely, documents that are as desired are left alone.\<close>

lemma reconcile_documents_fixpoint:
  assumes "enforced desired docs" and "wf_desired desired"
  shows "snd (reconcile_documents lib desired docs) = False"
proof -
  let ?seen = "List.map_filter (\<lambda>(d, c, s). s) (map (reconcile_document desired) docs)"
  have dist: "distinct (map fst desired)" using assms(2) by (simp add: wf_desired_def)
  have "\<not> fst (snd (reconcile_document desired d))" if d: "d \<in> set docs" for d
  proof (cases d)
    case (LinkDoc lc)
    show ?thesis
    proof (cases "map_of desired (TrimSpace (MetaName lc))")
      case (Some rs)
      then have "mset rs = mset (LinkRoutes lc)" and "\<forall>r \<in> set rs. wf_route_config r"
        using assms d LinkDoc unfolding enforced_def wf_desired_def by metis+
      then have "sortRouteConfigs rs = sortRouteConfigs (LinkRoutes lc)" by (metis sortRouteConfigs_mset)
      then show ?thesis using Some by (simp add: LinkDoc)
    qed (simp add: LinkDoc)
  qed simp
  moreover have "missing_interfaces desired ?seen = []"
    using assms(1) seen_interfaces [of _ desired docs] set_missing_interfaces [OF dist, of _ ?seen]
    unfolding enforced_def by (metis list.set_intros(1) neq_Nil_conv option.simps(3))
  ultimately show ?thesis
    by (auto simp: reconcile_documents_def Let_def list_ex_iff case_prod_beta')
qed

end
