(* ===== verification/Routes_Apply.thy ===== *)
theory Routes_Apply
  imports Routes_Facts GoTime
begin

text \<open>
  How \<^verbatim>\<open>TalosInjector\<close> brings the desired routes to a node
  (\<^verbatim>\<open>internal/routes/talos_injector.go\<close>): the route specs it expects, the wait for them, the
  request that applies the rewritten config, and \<^verbatim>\<open>EnsureRoutes\<close>, with every early return.
  The Talos client and the machinery library are parameters.
\<close>

section \<open>Expected route specs\<close>

datatype family = FamilyInet4 | FamilyInet6
datatype route_type = TypeUnspec | TypeUnicast | TypeMulticast
datatype routing_table = TableMain
datatype route_protocol = ProtocolStatic
datatype config_layer = ConfigMachineConfiguration

record route_spec =
  spec_Family :: family
  spec_Destination :: prefix
  spec_Gateway :: addr
  spec_OutLinkName :: string
  spec_Table :: routing_table
  spec_Priority :: u32
  spec_Type :: route_type
  spec_Protocol :: route_protocol
  spec_ConfigLayer :: config_layer

text \<open>
  What the code calls of \<^verbatim>\<open>resources/network\<close> and \<^verbatim>\<open>value\<close>. \<^verbatim>\<open>Normalize\<close> changes its receiver and
  returns a family, \<open>None\<close> for the zero family.
\<close>

record network_lib =
  DefaultRouteMetric :: u32
  Normalize :: "route_spec \<Rightarrow> family option \<times> route_spec"
  value_IsZero :: "prefix \<Rightarrow> bool"
  RouteID :: "routing_table \<Rightarrow> family \<Rightarrow> prefix \<Rightarrow> addr \<Rightarrow> u32 \<Rightarrow> string \<Rightarrow> string"
  LayeredID :: "config_layer \<Rightarrow> string \<Rightarrow> string"

datatype spec_error =
    RouteGatewayEmpty
  | RouteInterfaceEmpty
  | RouteNetworkUnparsable string
  | RouteGatewayUnparsable string

text \<open>The part of \<^verbatim>\<open>expectedMachineConfigRouteSpec\<close> that reads the route.\<close>

definition parse_expected :: "route \<Rightarrow> spec_error + prefix \<times> addr" where
  "parse_expected r =
     (if Gateway r = [] then Inl RouteGatewayEmpty
      else if TrimSpace (Interface r) = [] then Inl RouteInterfaceEmpty
      else
        let dst = (if TrimSpace (Network r) \<noteq> [] then ParsePrefix (Network r) else Some zero_prefix)
        in case dst of
             None \<Rightarrow> Inl (RouteNetworkUnparsable (Network r))
           | Some d \<Rightarrow>
               (case ParseAddr (Gateway r) of
                  None \<Rightarrow> Inl (RouteGatewayUnparsable (Gateway r))
                | Some gw \<Rightarrow> Inr (d, gw)))"

definition expectedMachineConfigRouteSpec :: "network_lib \<Rightarrow> route \<Rightarrow> spec_error + route_spec \<times> string" where
  "expectedMachineConfigRouteSpec net r =
     (case parse_expected r of
        Inl e \<Rightarrow> Inl e
      | Inr (dst, gw) \<Rightarrow>
          let priority = (if Metric r = 0 then DefaultRouteMetric net else Metric r);
              fam = (if \<not> IsValid dst then (if Is6 gw then FamilyInet6 else FamilyInet4)
                     else if Is6 (Prefix_Addr dst) then FamilyInet6 else FamilyInet4);
              spec = \<lparr>spec_Family = fam, spec_Destination = dst, spec_Gateway = gw,
                      spec_OutLinkName = TrimSpace (Interface r), spec_Table = TableMain,
                      spec_Priority = priority, spec_Type = TypeUnspec,
                      spec_Protocol = ProtocolStatic, spec_ConfigLayer = ConfigMachineConfiguration\<rparr>;
              (famn, specn) = Normalize net spec;
              spec2 = (case famn of None \<Rightarrow> specn | Some f \<Rightarrow> specn\<lparr>spec_Family := f\<rparr>);
              spec3 = spec2\<lparr>spec_Type :=
                        (if \<not> value_IsZero net (spec_Destination spec2) \<and> IsMulticast (Prefix_Addr (spec_Destination spec2))
                         then TypeMulticast else TypeUnicast)\<rparr>;
              route_id = LayeredID net (spec_ConfigLayer spec3)
                     (RouteID net (spec_Table spec3) (spec_Family spec3) (spec_Destination spec3)
                       (spec_Gateway spec3) (spec_Priority spec3) (spec_OutLinkName spec3))
          in Inr (spec3, route_id))"

section \<open>Waiting\<close>

text \<open>
  One round of the loop of \<^verbatim>\<open>waitForRoutesApplied\<close>: what the node's state answers, the time after
  the answers, and whether the context ended (with which error) before the two seconds passed.
\<close>

datatype get_result = Found | NotFoundError | OtherError string

record poll =
  poll_Get :: "string \<Rightarrow> get_result"
  poll_Now :: gotime
  poll_Done :: "string option"

datatype wait_error =
    RouteSpec spec_error
  | GetRouteSpec string string
  | TimedOut "string list" nat
  | ContextErr string

fun poll_missing :: "(string \<Rightarrow> get_result) \<Rightarrow> string list \<Rightarrow> wait_error + string list" where
  "poll_missing get [] = Inr []"
| "poll_missing get (i # ids) =
     (case get i of
        Found \<Rightarrow> poll_missing get ids
      | NotFoundError \<Rightarrow> map_sum (\<lambda>e. e) (Cons i) (poll_missing get ids)
      | OtherError e \<Rightarrow> Inl (GetRouteSpec i e))"

text \<open>The loop, over the rounds that take place; \<open>None\<close> when it still waits after them.\<close>

fun wait_rounds :: "gotime \<Rightarrow> string list \<Rightarrow> poll list \<Rightarrow> (wait_error + unit) option" where
  "wait_rounds deadline wantIDs [] = None"
| "wait_rounds deadline wantIDs (p # ps) =
     (case poll_missing (poll_Get p) wantIDs of
        Inl e \<Rightarrow> Some (Inl e)
      | Inr missing \<Rightarrow>
          if length missing = 0 then Some (Inr ())
          else if time_after (poll_Now p) deadline then Some (Inl (TimedOut missing (length wantIDs)))
          else (case poll_Done p of
                  Some e \<Rightarrow> Some (Inl (ContextErr e))
                | None \<Rightarrow> wait_rounds deadline wantIDs ps))"

fun want_ids :: "network_lib \<Rightarrow> route list \<Rightarrow> spec_error + string list" where
  "want_ids net [] = Inr []"
| "want_ids net (r # rs) =
     (case expectedMachineConfigRouteSpec net r of
        Inl e \<Rightarrow> Inl e
      | Inr (spec, i) \<Rightarrow> map_sum (\<lambda>e. e) (Cons i) (want_ids net rs))"

definition waitForRoutesApplied ::
  "network_lib \<Rightarrow> gotime \<Rightarrow> poll list \<Rightarrow> route list \<Rightarrow> int \<Rightarrow> (wait_error + unit) option" where
  "waitForRoutesApplied net now polls routes timeout =
     (if length routes = 0 then Some (Inr ())
      else
        let deadline = time_add now timeout
        in case want_ids net routes of
             Inl e \<Rightarrow> Some (Inl (RouteSpec e))
           | Inr wantIDs \<Rightarrow> wait_rounds deadline wantIDs polls)"

section \<open>Applying\<close>

text \<open>
  What a call of \<^verbatim>\<open>EnsureRoutes\<close> meets: the client configuration, the connection, the machine
  config resource (\<open>'s\<close> is its spec), YAML, the answer to an apply request, the clock when the
  wait starts and the rounds of the wait. Errors are their texts.
\<close>

record 's machine_config =
  mc_Annotations_Empty :: bool
  mc_Spec :: 's

record ('x, 's) talos_env =
  FromBytes :: "bytes \<Rightarrow> string option"
  talosclient_New :: "bytes \<Rightarrow> string \<Rightarrow> string option"
  COSI_Get :: "string + 's machine_config"
  yaml_Marshal :: "'s \<Rightarrow> string + bytes"
  yaml_Unmarshal :: "bytes \<Rightarrow> string + string"
  ApplyConfiguration :: "bytes \<Rightarrow> string option"
  wait_start :: gotime
  wait_polls :: "poll list"
  config :: "'x config_lib"
  net_lib :: network_lib

datatype ensure_error =
    TalosconfigEmpty
  | NodeAddressEmpty
  | MachineKeyEmpty
  | ParseTalosconfig string
  | CreateClient string string
  | GetMachineConfig string
  | ExtractMachineConfig string
  | DesiredRoutes route_error
  | ReconcileConfig config_error
  | ApplyConfig string
  | WaitRoutes wait_error

text \<open>
  An apply request, with no-reboot mode, and whether the node accepted it. A call yields the
  requests it sent and its result; the result is \<open>None\<close> while it waits.
\<close>

record apply_request =
  request_Data :: bytes
  accepted :: bool

type_synonym 'r talos_call = "apply_request list \<times> 'r"

definition applyMachineConfig ::
  "('x, 's) talos_env \<Rightarrow> bytes \<Rightarrow> bytes \<Rightarrow> (ensure_error + unit) talos_call" where
  "applyMachineConfig env baseConfig updatedConfig =
     (if TrimSpace updatedConfig = TrimSpace baseConfig then ([], Inr ())
      else case ApplyConfiguration env updatedConfig of
        Some e \<Rightarrow> ([\<lparr>request_Data = updatedConfig, accepted = False\<rparr>], Inl (ApplyConfig e))
      | None \<Rightarrow> ([\<lparr>request_Data = updatedConfig, accepted = True\<rparr>], Inr ()))"

definition wait_for_routes :: "('x, 's) talos_env \<Rightarrow> route list \<Rightarrow> (ensure_error + unit) option" where
  "wait_for_routes env routes =
     map_option (map_sum WaitRoutes id)
       (waitForRoutesApplied (net_lib env) (wait_start env) (wait_polls env) routes (30 * ns_per_second))"

definition ensureRouteSet ::
  "('x, 's) talos_env \<Rightarrow> bytes \<Rightarrow> string list \<Rightarrow> route list \<Rightarrow> (ensure_error + unit) option talos_call" where
  "ensureRouteSet env machineConfig managedInterfaces routes =
     (let managed = normalizeManagedInterfaces managedInterfaces routes
      in if length managed = 0 then ([], wait_for_routes env routes)
         else (case desiredRouteConfigsByInterface managed routes of
           Inl e \<Rightarrow> ([], Some (Inl (DesiredRoutes e)))
         | Inr desiredByIf \<Rightarrow>
             (case reconcileManagedLinkRoutes (config env) machineConfig desiredByIf of
                Inl e \<Rightarrow> ([], Some (Inl (ReconcileConfig e)))
              | Inr (updatedMachineConfig, changed) \<Rightarrow>
                  if changed then
                    (case applyMachineConfig env machineConfig updatedMachineConfig of
                       (sent, Inl e) \<Rightarrow> (sent, Some (Inl e))
                     | (sent, Inr u) \<Rightarrow> (sent, wait_for_routes env routes))
                  else ([], wait_for_routes env routes))))"

definition extractMachineConfigBody :: "('x, 's) talos_env \<Rightarrow> 's machine_config \<Rightarrow> string + bytes" where
  "extractMachineConfigBody env mc =
     (if mc_Annotations_Empty mc then yaml_Marshal env (mc_Spec mc)
      else (case yaml_Marshal env (mc_Spec mc) of
              Inl e \<Rightarrow> Inl e
            | Inr spec \<Rightarrow> yaml_Unmarshal env spec))"

text \<open>The endpoint a node is reached at.\<close>

definition node_endpoint :: "node \<Rightarrow> string" where
  "node_endpoint nd =
     (if node_Port nd \<noteq> 0 then JoinHostPort (node_Address nd) (int_text (node_Port nd)) else node_Address nd)"

definition all_routes :: "route list \<Rightarrow> route option \<Rightarrow> route list" where
  "all_routes staticRoutes defaultRoute =
     staticRoutes @ (case defaultRoute of None \<Rightarrow> [] | Some r \<Rightarrow> [r])"

definition EnsureRoutes ::
  "('x, 's) talos_env \<Rightarrow> node \<Rightarrow> bytes \<Rightarrow> route list \<Rightarrow> route option \<Rightarrow> string list
   \<Rightarrow> (ensure_error + unit) option talos_call" where
  "EnsureRoutes env nd talosConfig staticRoutes defaultRoute managedInterfaces =
     (if length talosConfig = 0 then ([], Some (Inl TalosconfigEmpty))
      else if node_Address nd = [] then ([], Some (Inl NodeAddressEmpty))
      else if node_MachineKey nd = [] then ([], Some (Inl MachineKeyEmpty))
      else (case FromBytes env talosConfig of
        Some e \<Rightarrow> ([], Some (Inl (ParseTalosconfig e)))
      | None \<Rightarrow>
        (case talosclient_New env talosConfig (node_endpoint nd) of
           Some e \<Rightarrow> ([], Some (Inl (CreateClient (node_endpoint nd) e)))
         | None \<Rightarrow>
           (case COSI_Get env of
              Inl e \<Rightarrow> ([], Some (Inl (GetMachineConfig e)))
            | Inr mcRes \<Rightarrow>
              (case extractMachineConfigBody env mcRes of
                 Inl e \<Rightarrow> ([], Some (Inl (ExtractMachineConfig e)))
               | Inr body \<Rightarrow>
                 let allRoutes = all_routes staticRoutes defaultRoute;
                     managed = normalizeManagedInterfaces managedInterfaces allRoutes
                 in if length managed > 0
                    then (case ensureRouteSet env body managed allRoutes of
                            (sent, Some (Inl e)) \<Rightarrow> (sent, Some (Inl e))
                          | (sent, Some (Inr u)) \<Rightarrow> (sent, Some (Inr ()))
                          | (sent, None) \<Rightarrow> (sent, None))
                    else ([], Some (Inr ())))))))"

text \<open>The injector that only logs.\<close>

definition NoopInjector_EnsureRoutes ::
  "node \<Rightarrow> bytes \<Rightarrow> route list \<Rightarrow> route option \<Rightarrow> string list \<Rightarrow> (ensure_error + unit) option talos_call" where
  "NoopInjector_EnsureRoutes nd talosConfig staticRoutes defaultRoute managedInterfaces = ([], Some (Inr ()))"

end
