(* ===== verification/Routes_Apply_Facts.thy ===== *)
theory Routes_Apply_Facts
  imports Routes_Apply
begin

text \<open>
  Facts about applying routes: what a reconciled machine config holds, what a successful
  \<^verbatim>\<open>EnsureRoutes\<close> has done on its way, and how the wait behaves.
\<close>

section \<open>The machine config\<close>

text \<open>Encoding documents that the library accepts and parsing the bytes gives the documents back.\<close>

definition codec_roundtrip :: "'x config_lib \<Rightarrow> bool" where
  "codec_roundtrip lib \<longleftrightarrow>
     (\<forall>docs b. container_New lib docs = None \<longrightarrow> container_Bytes lib docs = Inr b
        \<longrightarrow> NewFromBytes lib b = Inr docs)"

lemma reconcileManaged_result:
  assumes "reconcileManagedLinkRoutes lib body d = Inr (b, changed)"
    and "wf_desired d" and "wf_lib lib" and "codec_roundtrip lib" and "d \<noteq> []"
  shows "\<exists>docs0 docs b'. NewFromBytes lib body = Inr docs0 \<and> TrimSpace b' = TrimSpace b
    \<and> NewFromBytes lib b' = Inr docs \<and> enforced d docs
    \<and> list_all2 (routes_changed d) docs0 (take (length docs0) docs) \<and> (changed \<or> b = body)"
proof -
  obtain docs0 where docs0: "NewFromBytes lib body = Inr docs0"
    using assms(1,5) by (auto simp: reconcileManagedLinkRoutes_def split: sum.splits)
  obtain docs ch where rec: "reconcile_documents lib d docs0 = (docs, ch)" by fastforce
  show ?thesis
  proof (cases ch)
    case False
    then have same: "b = body"
      using assms(1,5) docs0 rec by (auto simp: reconcileManagedLinkRoutes_def)
    have rec': "reconcile_documents lib d docs0 = (docs, False)" using rec False by simp
    have "enforced d docs0"
      by (rule reconcile_documents_unchanged [OF rec' assms(2)]) (use assms(3) docs0 in \<open>auto simp: wf_lib_def\<close>)
    moreover have "list_all2 (routes_changed d) docs0 (take (length docs0) docs0)"
      by (simp add: list_all2_same routes_changed.same)
    ultimately show ?thesis using docs0 same by blast
  next
    case True
    have new: "container_New lib docs = None"
      using assms(1,5) docs0 rec True by (auto simp: reconcileManagedLinkRoutes_def split: option.splits)
    then obtain ub where ub: "container_Bytes lib docs = Inr ub"
      using assms(1,5) docs0 rec True by (auto simp: reconcileManagedLinkRoutes_def split: sum.splits)
    have res: "TrimSpace b = TrimSpace ub \<and> (changed \<or> b = body)"
      using assms(1,5) docs0 rec True new ub by (auto simp: reconcileManagedLinkRoutes_def split: if_splits)
    have "NewFromBytes lib ub = Inr docs" using assms(4) new ub by (simp add: codec_roundtrip_def)
    moreover have "enforced d docs" by (rule reconcile_documents_enforce [OF rec assms(2,3)])
    moreover have "list_all2 (routes_changed d) docs0 (take (length docs0) docs)"
      by (rule reconcile_documents_keep(1) [OF rec])
    ultimately show ?thesis using docs0 res by metis
  qed
qed

lemma reconcileManaged_quiet:
  assumes "NewFromBytes lib body = Inr docs" and "enforced d docs" and "wf_desired d"
  shows "reconcileManagedLinkRoutes lib body d = Inr (body, False)"
  using reconcile_documents_fixpoint [OF assms(2,3), of lib] assms(1)
  by (auto simp: reconcileManagedLinkRoutes_def split: prod.splits)

text \<open>
  The same in terms of the managed interfaces and the routes: what a config should hold, and what
  may differ from the config it was made from.
\<close>

definition routes_enforced :: "string list \<Rightarrow> route list \<Rightarrow> 'x document list \<Rightarrow> bool" where
  "routes_enforced managed rs docs \<longleftrightarrow>
     (\<forall>lc. LinkDoc lc \<in> set docs \<longrightarrow> TrimSpace (MetaName lc) \<in> set managed
        \<longrightarrow> mset (LinkRoutes lc) = mset (configs_for (TrimSpace (MetaName lc)) rs))
     \<and> (\<forall>iface \<in> set managed. configs_for iface rs \<noteq> []
        \<longrightarrow> (\<exists>lc. LinkDoc lc \<in> set docs \<and> TrimSpace (MetaName lc) = iface))"

definition managed_changes :: "string list \<Rightarrow> 'x document \<Rightarrow> 'x document \<Rightarrow> bool" where
  "managed_changes managed d d' \<longleftrightarrow>
     d' = d \<or> (\<exists>lc rs. d = LinkDoc lc \<and> d' = LinkDoc (lc\<lparr>LinkRoutes := rs\<rparr>)
                     \<and> TrimSpace (MetaName lc) \<in> set managed)"

lemma enforced_routes:
  assumes "desiredRouteConfigsByInterface ms rs = Inr d"
  shows "enforced d docs \<longleftrightarrow> routes_enforced (normalizeManagedInterfaces ms rs) rs docs"
  unfolding enforced_def routes_enforced_def desired_exact(2) [OF assms] by auto

lemma routes_changed_managed:
  assumes "desiredRouteConfigsByInterface ms rs = Inr d"
  shows "routes_changed d x y \<Longrightarrow> managed_changes (normalizeManagedInterfaces ms rs) x y"
  by (induction rule: routes_changed.induct)
    (auto simp: managed_changes_def desired_exact(2) [OF assms] split: if_splits)

section \<open>EnsureRoutes\<close>

lemma normalize_normalized:
  "normalizeManagedInterfaces (normalizeManagedInterfaces ms rs) rs = normalizeManagedInterfaces ms rs"
proof -
  let ?A = "((TrimSpace ` set ms) \<union> ((\<lambda>r. TrimSpace (Interface r)) ` set rs)) - {[]}"
  have "TrimSpace ` ?A = (\<lambda>x. x) ` ?A" by (rule image_cong) auto
  then have "set (normalizeManagedInterfaces (normalizeManagedInterfaces ms rs) rs) = set (normalizeManagedInterfaces ms rs)"
    unfolding set_normalizeManagedInterfaces by auto
  then show ?thesis unfolding normalizeManagedInterfaces_def
    by (metis finite_set finite_Un set_sorted_list_of_set)
qed

text \<open>The config a node has after some requests: the last accepted one, or the one before.\<close>

definition active_config :: "bytes \<Rightarrow> apply_request list \<Rightarrow> bytes" where
  "active_config base sent = fold (\<lambda>r b. if accepted r then request_Data r else b) sent base"

lemma active_config_simps [simp]:
  "active_config base [] = base"
  "active_config base [r] = (if accepted r then request_Data r else base)"
  by (simp_all add: active_config_def)

lemma applyMachineConfig_Ok:
  "applyMachineConfig env base updated = (sent, Inr u) \<Longrightarrow> TrimSpace (active_config base sent) = TrimSpace updated"
  by (auto simp: applyMachineConfig_def split: if_splits option.splits)

lemma ensureRouteSet_Ok:
  assumes "ensureRouteSet env body ms rs = (sent, Some (Inr u))" and "normalizeManagedInterfaces ms rs \<noteq> []"
  shows "\<exists>d b changed.
    desiredRouteConfigsByInterface (normalizeManagedInterfaces ms rs) rs = Inr d
    \<and> reconcileManagedLinkRoutes (config env) body d = Inr (b, changed)
    \<and> (changed \<or> b = body \<longrightarrow> TrimSpace (active_config body sent) = TrimSpace b)
    \<and> wait_for_routes env rs = Some (Inr ())"
proof (cases "desiredRouteConfigsByInterface (normalizeManagedInterfaces ms rs) rs")
  case (Inl e)
  then show ?thesis using assms by (simp add: ensureRouteSet_def Let_def)
next
  case d: (Inr d)
  show ?thesis
  proof (cases "reconcileManagedLinkRoutes (config env) body d")
    case (Inl e)
    then show ?thesis using assms d by (simp add: ensureRouteSet_def Let_def)
  next
    case (Inr x)
    obtain b changed where x: "x = (b, changed)" by fastforce
    show ?thesis
    proof (cases changed)
      case True
      obtain sent' res where ap: "applyMachineConfig env body b = (sent', res)" by fastforce
      have "\<exists>v. res = Inr v" and "sent' = sent" and "wait_for_routes env rs = Some (Inr ())"
        using assms d Inr x True ap by (auto simp: ensureRouteSet_def Let_def split: sum.splits)
      then show ?thesis using d Inr x ap applyMachineConfig_Ok by fastforce
    next
      case False
      then show ?thesis using assms d Inr x by (auto simp: ensureRouteSet_def Let_def)
    qed
  qed
qed

lemma EnsureRoutes_Ok:
  assumes "EnsureRoutes env nd tc st df ms = (sent, Some (Inr u))"
  shows "\<exists>mc body. COSI_Get env = Inr mc \<and> extractMachineConfigBody env mc = Inr body
    \<and> (if normalizeManagedInterfaces ms (all_routes st df) = [] then sent = []
       else ensureRouteSet env body (normalizeManagedInterfaces ms (all_routes st df)) (all_routes st df)
              = (sent, Some (Inr ())))"
  using assms
  by (auto simp: EnsureRoutes_def Let_def split: if_splits option.splits sum.splits prod.splits)

text \<open>The requests of a call: none, or one that carries the rewritten config.\<close>

lemma ensureRouteSet_sent:
  "ensureRouteSet env body ms rs = (sent, r) \<Longrightarrow> sent \<noteq> [] \<Longrightarrow>
     \<exists>d b. desiredRouteConfigsByInterface (normalizeManagedInterfaces ms rs) rs = Inr d
       \<and> reconcileManagedLinkRoutes (config env) body d = Inr (b, True)
       \<and> sent = [\<lparr>request_Data = b, accepted = (ApplyConfiguration env b = None)\<rparr>]
       \<and> TrimSpace b \<noteq> TrimSpace body"
  by (auto simp: ensureRouteSet_def applyMachineConfig_def Let_def
      split: sum.splits prod.splits if_splits option.splits)

lemma EnsureRoutes_sent:
  "EnsureRoutes env nd tc st df ms = (sent, r) \<Longrightarrow> sent \<noteq> [] \<Longrightarrow>
     \<exists>mc body. COSI_Get env = Inr mc \<and> extractMachineConfigBody env mc = Inr body
       \<and> ensureRouteSet env body (normalizeManagedInterfaces ms (all_routes st df)) (all_routes st df) = (sent, r)"
  by (auto simp: EnsureRoutes_def Let_def split: if_splits option.splits sum.splits prod.splits)

section \<open>The wait\<close>

lemma poll_missing_Nil: "poll_missing get ids = Inr [] \<longleftrightarrow> (\<forall>i \<in> set ids. get i = Found)"
proof (induction ids)
  case (Cons i ids)
  then show ?case by (cases "get i"; cases "poll_missing get ids") auto
qed simp

lemma wait_rounds_Ok: "wait_rounds deadline ids ps = Some (Inr ()) \<Longrightarrow>
  \<exists>p \<in> set ps. \<forall>i \<in> set ids. poll_Get p i = Found"
proof (induction deadline ids ps rule: wait_rounds.induct)
  case (2 deadline ids p ps)
  then show ?case
    by (cases "poll_missing (poll_Get p) ids")
      (auto simp: poll_missing_Nil split: if_splits option.splits)
qed simp

lemma want_ids_set: "want_ids net rs = Inr ids \<Longrightarrow>
  (\<forall>r \<in> set rs. \<exists>spec i. expectedMachineConfigRouteSpec net r = Inr (spec, i) \<and> i \<in> set ids)"
proof (induction rs arbitrary: ids)
  case (Cons r rs)
  then show ?case by (cases "want_ids net rs") (auto split: sum.splits)
qed simp

lemma wait_rounds_deadline:
  "p \<in> set ps \<Longrightarrow> time_after (poll_Now p) deadline \<Longrightarrow> wait_rounds deadline ids ps \<noteq> None"
  by (induction deadline ids ps rule: wait_rounds.induct) (auto split: sum.splits option.splits)

lemma want_ids_error:
  "r \<in> set rs \<Longrightarrow> parse_expected r = Inl e \<Longrightarrow> \<exists>e'. want_ids net rs = Inl e'"
proof (induction rs)
  case (Cons q rs)
  then show ?case
    by (cases "want_ids net rs") (auto simp: expectedMachineConfigRouteSpec_def split: sum.splits prod.splits)
qed simp

lemma wait_for_routes_Ok:
  "wait_for_routes env rs = Some (Inr ()) \<longleftrightarrow>
     waitForRoutesApplied (net_lib env) (wait_start env) (wait_polls env) rs (30 * ns_per_second) = Some (Inr ())"
proof (cases "waitForRoutesApplied (net_lib env) (wait_start env) (wait_polls env) rs (30 * ns_per_second)")
  case (Some x)
  then show ?thesis by (cases x) (simp_all add: wait_for_routes_def)
qed (simp add: wait_for_routes_def)

text \<open>A route without an expected spec makes every wait fail.\<close>

lemma wait_needs_specs:
  assumes "wait_for_routes env rs = Some (Inr ())" and "rs \<noteq> []"
  shows "\<exists>ids. want_ids (net_lib env) rs = Inr ids
    \<and> wait_rounds (time_add (wait_start env) (30 * ns_per_second)) ids (wait_polls env) = Some (Inr ())"
  using assms by (auto simp: wait_for_routes_Ok waitForRoutesApplied_def Let_def split: sum.splits)

text \<open>What a success of the whole call says about a route of a named interface.\<close>

lemma EnsureRoutes_waited:
  assumes "EnsureRoutes env nd tc st df ms = (sent, Some (Inr u))" and "r \<in> set (all_routes st df)"
    and "TrimSpace (Interface r) \<noteq> []"
  shows "wait_for_routes env (all_routes st df) = Some (Inr ())"
proof -
  let ?rs = "all_routes st df" and ?m = "normalizeManagedInterfaces ms (all_routes st df)"
  have "TrimSpace (Interface r) \<in> set ?m" using assms(2,3) by (auto simp: set_normalizeManagedInterfaces)
  then have m: "?m \<noteq> []" by auto
  then obtain body where "ensureRouteSet env body ?m ?rs = (sent, Some (Inr ()))"
    using EnsureRoutes_Ok [OF assms(1)] by auto
  then show ?thesis using ensureRouteSet_Ok [of env body ?m ?rs] m by (auto simp: normalize_normalized)
qed

text \<open>What the node's config holds after a success.\<close>

lemma EnsureRoutes_Ok_enforced:
  assumes "EnsureRoutes env nd tc st df ms = (sent, Some (Inr u))"
    and "wf_lib (config env)" and "codec_roundtrip (config env)"
    and "normalizeManagedInterfaces ms (all_routes st df) \<noteq> []"
  shows "\<exists>mc body docs0 b docs. COSI_Get env = Inr mc \<and> extractMachineConfigBody env mc = Inr body
    \<and> NewFromBytes (config env) body = Inr docs0
    \<and> TrimSpace b = TrimSpace (active_config body sent) \<and> NewFromBytes (config env) b = Inr docs
    \<and> routes_enforced (normalizeManagedInterfaces ms (all_routes st df)) (all_routes st df) docs
    \<and> list_all2 (managed_changes (normalizeManagedInterfaces ms (all_routes st df))) docs0 (take (length docs0) docs)"
proof -
  let ?rs = "all_routes st df" and ?m = "normalizeManagedInterfaces ms (all_routes st df)"
  obtain mc body where mc: "COSI_Get env = Inr mc" "extractMachineConfigBody env mc = Inr body"
    and "ensureRouteSet env body ?m ?rs = (sent, Some (Inr ()))"
    using EnsureRoutes_Ok [OF assms(1)] assms(4) by auto
  then obtain d b changed where d: "desiredRouteConfigsByInterface ?m ?rs = Inr d"
    and rec: "reconcileManagedLinkRoutes (config env) body d = Inr (b, changed)"
    and active: "changed \<or> b = body \<Longrightarrow> TrimSpace (active_config body sent) = TrimSpace b"
    using ensureRouteSet_Ok [of env body ?m ?rs] assms(4) by (auto simp: normalize_normalized)
  have "d \<noteq> []"
    using desired_exact(2) [OF d] assms(4) by (auto simp: normalize_normalized) (metis ex_in_conv option.simps(3) set_empty)
  then obtain docs0 docs b' where *: "NewFromBytes (config env) body = Inr docs0" "TrimSpace b' = TrimSpace b"
    "NewFromBytes (config env) b' = Inr docs" "enforced d docs"
    "list_all2 (routes_changed d) docs0 (take (length docs0) docs)" "changed \<or> b = body"
    using reconcileManaged_result [OF rec desired_wf [OF d] assms(2,3)] by blast
  have "routes_enforced ?m ?rs docs" using *(4) enforced_routes [OF d, of docs] by (simp add: normalize_normalized)
  moreover have "list_all2 (managed_changes ?m) docs0 (take (length docs0) docs)"
    using *(5) routes_changed_managed [OF d] unfolding normalize_normalized by (rule list_all2_mono)
  ultimately show ?thesis using mc * active by metis
qed

end
