(* ===== verification/Routes_Properties.thy ===== *)
theory Routes_Properties
  imports Routes_Apply_Facts
begin

text \<open>
  What \<^verbatim>\<open>TalosInjector\<close> guarantees: the routes of a managed interface in a node's machine config are
  exactly the wanted ones after a call that succeeded, nothing else in the config changes, nothing is
  sent when nothing has to change, and the wait ends.
\<close>

section \<open>A node for the witnesses\<close>

text \<open>A library that knows two configs: A, whose link has no routes, and B, which has one.\<close>

definition ex_route :: route where
  "ex_route = \<lparr>Network = [], Gateway = ''10.79.130.1'', Metric = 100, Interface = ''eth1''\<rparr>"

definition ex_config :: route_config where
  "ex_config = \<lparr>RouteDestination = zero_prefix, RouteGateway = IPv4 [10, 79, 130, 1], RouteSource = ZeroAddr,
                RouteMetric = 100, RouteMTU = 0, RouteTable = 0\<rparr>"

definition ex_link :: "route_config list \<Rightarrow> unit document" where
  "ex_link rs = LinkDoc \<lparr>MetaName = ''eth1'', LinkRoutes = rs, link_attributes = ()\<rparr>"

definition ex_lib :: "unit config_lib" where
  "ex_lib = \<lparr>NewFromBytes = (\<lambda>b. if b = ''A'' then Inr [ex_link []]
                                else if b = ''B'' then Inr [ex_link [ex_config]] else Inl ''bad''),
             NewLinkConfigV1Alpha1 = (\<lambda>iface. \<lparr>MetaName = iface, LinkRoutes = [], link_attributes = ()\<rparr>),
             container_New = (\<lambda>docs. if docs = [ex_link [ex_config]] then None else Some ''unknown''),
             container_Bytes = (\<lambda>docs. Inr ''B'')\<rparr>"

definition ex_net :: network_lib where
  "ex_net = \<lparr>DefaultRouteMetric = 1024, Normalize = (\<lambda>s. (None, s)), value_IsZero = (\<lambda>p. p = zero_prefix),
             RouteID = (\<lambda>t f p a m l. l), LayeredID = (\<lambda>l i. ''configuration/'' @ i)\<rparr>"

definition ex_at :: "int \<Rightarrow> gotime" where
  "ex_at s = \<lparr>wall = s * ns_per_second, mono = Some (s * ns_per_second)\<rparr>"

definition ex_env :: "bytes \<Rightarrow> (unit, bytes) talos_env" where
  "ex_env body =
     \<lparr>FromBytes = (\<lambda>b. None), talosclient_New = (\<lambda>b e. None),
      COSI_Get = Inr \<lparr>mc_Annotations_Empty = True, mc_Spec = body\<rparr>,
      yaml_Marshal = Inr, yaml_Unmarshal = Inr, ApplyConfiguration = (\<lambda>b. None),
      wait_start = ex_at 0, wait_polls = [\<lparr>poll_Get = (\<lambda>i. Found), poll_Now = ex_at 0, poll_Done = None\<rparr>],
      config = ex_lib, net_lib = ex_net\<rparr>"

lemma ex_env_simps [simp]:
  "FromBytes (ex_env b) x = None" "talosclient_New (ex_env b) x y = None"
  "COSI_Get (ex_env b) = Inr \<lparr>mc_Annotations_Empty = True, mc_Spec = b\<rparr>"
  "extractMachineConfigBody (ex_env b) \<lparr>mc_Annotations_Empty = True, mc_Spec = b\<rparr> = Inr b"
  "ApplyConfiguration (ex_env b) x = None" "wait_start (ex_env b) = ex_at 0"
  "wait_polls (ex_env b) = [\<lparr>poll_Get = (\<lambda>i. Found), poll_Now = ex_at 0, poll_Done = None\<rparr>]"
  "config (ex_env b) = ex_lib" "net_lib (ex_env b) = ex_net"
  by (simp_all add: ex_env_def extractMachineConfigBody_def)

definition ex_node :: node where
  "ex_node = \<lparr>node_Address = ''10.0.0.5'', node_Port = 50000, node_MachineKey = ''c/n/m''\<rparr>"

lemma ex_trim [simp]:
  "TrimSpace ''eth1'' = ''eth1''" "TrimSpace ''10.79.130.1'' = ''10.79.130.1''"
  "TrimSpace ''A'' = ''A''" "TrimSpace ''B'' = ''B''"
  by (simp_all add: TrimSpace_printable printable_def)

lemma ex_gateway [simp]: "ParseAddr ''10.79.130.1'' = Some (IPv4 [10, 79, 130, 1])"
  by (simp add: ParseAddr_def parseIPv4_def is_digit_def digit_value_def)

lemma ex_desired_route: "desired_route i ex_route = Inr (''eth1'', ex_config)"
  by (simp add: desired_route_def ex_route_def ex_config_def)

lemma ex_wanted: "wanted_config ex_route = Some (''eth1'', ex_config)"
  by (simp add: wanted_config_def ex_desired_route)

lemma ex_wf_config: "wf_route_config ex_config"
  using wanted_config_wf [OF ex_wanted] .

lemma ex_wf_lib: "wf_lib ex_lib"
  by (auto simp: wf_lib_def ex_lib_def ex_link_def ex_wf_config split: if_splits)

lemma ex_roundtrip: "codec_roundtrip ex_lib"
  by (auto simp: codec_roundtrip_def ex_lib_def split: if_splits)

lemma ex_managed:
  "normalizeManagedInterfaces [] [ex_route] = [''eth1'']"
  "normalizeManagedInterfaces [''eth1''] [ex_route] = [''eth1'']"
  by (simp_all add: normalizeManagedInterfaces_def ex_route_def)

lemma ex_desired: "desiredRouteConfigsByInterface [''eth1''] [ex_route] = Inr [(''eth1'', [ex_config])]"
  by (simp add: desiredRouteConfigsByInterface_def managed_entries_def ex_desired_route desired_of_def
      sortRouteConfigs_def)

lemma ex_reconcile: "reconcileManagedLinkRoutes ex_lib ''A'' [(''eth1'', [ex_config])] = Inr (''B'', True)"
  by (simp add: reconcileManagedLinkRoutes_def reconcile_documents_def missing_interfaces_def
      ex_lib_def ex_link_def List.map_filter_simps sortRouteConfigs_def Let_def)

lemma ex_expected: "expectedMachineConfigRouteSpec ex_net ex_route =
  Inr (\<lparr>spec_Family = FamilyInet4, spec_Destination = zero_prefix, spec_Gateway = IPv4 [10, 79, 130, 1],
        spec_OutLinkName = ''eth1'', spec_Table = TableMain, spec_Priority = 100, spec_Type = TypeUnicast,
        spec_Protocol = ProtocolStatic, spec_ConfigLayer = ConfigMachineConfiguration\<rparr>, ''configuration/eth1'')"
  by (simp add: expectedMachineConfigRouteSpec_def parse_expected_def ex_route_def ex_net_def
      zero_prefix_def IsValid_def)

lemma ex_wait: "wait_for_routes (ex_env b) [ex_route] = Some (Inr ())"
  by (simp add: wait_for_routes_def waitForRoutesApplied_def ex_expected)

lemma ex_ensure_routes:
  assumes "all_routes st df = [ex_route]" and "normalizeManagedInterfaces ms [ex_route] = [''eth1'']"
  shows "EnsureRoutes (ex_env ''A'') ex_node ''cfg'' st df ms =
     ([\<lparr>request_Data = ''B'', accepted = True\<rparr>], Some (Inr ()))"
proof -
  have "ensureRouteSet (ex_env ''A'') ''A'' [''eth1''] [ex_route] =
     ([\<lparr>request_Data = ''B'', accepted = True\<rparr>], Some (Inr ()))"
    by (simp add: ensureRouteSet_def ex_managed ex_desired ex_wait ex_reconcile applyMachineConfig_def)
  then show ?thesis
    by (simp add: EnsureRoutes_def assms ex_node_def Let_def)
qed

lemma ex_ensure:
  "EnsureRoutes (ex_env ''A'') ex_node ''cfg'' [ex_route] None [] =
     ([\<lparr>request_Data = ''B'', accepted = True\<rparr>], Some (Inr ()))"
  by (rule ex_ensure_routes) (simp_all add: all_routes_def ex_managed)

section \<open>The node's machine config\<close>



text \<open>
  A call sends at most one apply request, and only when the wanted config differs from the
  one it read.
\<close>

theorem EnsureRoutes_sends_once:
  "EnsureRoutes env nd tc st df ms = (sent, r) \<Longrightarrow> sent \<noteq> [] \<Longrightarrow>
     \<exists>mc body b. COSI_Get env = Inr mc \<and> extractMachineConfigBody env mc = Inr body
       \<and> sent = [\<lparr>request_Data = b, accepted = (ApplyConfiguration env b = None)\<rparr>]
       \<and> TrimSpace b \<noteq> TrimSpace body"
  using EnsureRoutes_sent ensureRouteSet_sent by blast

theorem EnsureRoutes_sends_once_witness:
  "\<exists>mc body. COSI_Get (ex_env ''A'') = Inr mc \<and> extractMachineConfigBody (ex_env ''A'') mc = Inr body
     \<and> TrimSpace ''B'' \<noteq> TrimSpace body \<and> ApplyConfiguration (ex_env ''A'') ''B'' = None"
proof -
  obtain mc body b where *: "COSI_Get (ex_env ''A'') = Inr mc" "extractMachineConfigBody (ex_env ''A'') mc = Inr body"
    "[\<lparr>request_Data = ''B'', accepted = True\<rparr>] =
       [\<lparr>request_Data = b, accepted = (ApplyConfiguration (ex_env ''A'') b = None)\<rparr>]"
    "TrimSpace b \<noteq> TrimSpace body"
    using EnsureRoutes_sends_once [OF ex_ensure] by blast
  then show ?thesis by auto
qed

text \<open>
  When the documents of the node's config already are as wanted, nothing is sent: reconciling
  again after a success is silent.
\<close>

theorem EnsureRoutes_quiet:
  assumes "COSI_Get env = Inr mc" and "extractMachineConfigBody env mc = Inr body"
    and "NewFromBytes (config env) body = Inr docs"
    and "routes_enforced (normalizeManagedInterfaces ms (all_routes st df)) (all_routes st df) docs"
  shows "fst (EnsureRoutes env nd tc st df ms) = []"
proof (rule ccontr)
  let ?rs = "all_routes st df" and ?m = "normalizeManagedInterfaces ms (all_routes st df)"
  assume sent: "fst (EnsureRoutes env nd tc st df ms) \<noteq> []"
  then obtain r where "ensureRouteSet env body ?m ?rs = (fst (EnsureRoutes env nd tc st df ms), r)"
    using EnsureRoutes_sent [of env nd tc st df ms] assms(1,2) by (metis Inr_inject prod.collapse)
  from ensureRouteSet_sent [OF this sent] obtain d b where d: "desiredRouteConfigsByInterface ?m ?rs = Inr d"
    and rec: "reconcileManagedLinkRoutes (config env) body d = Inr (b, True)"
    by (auto simp: normalize_normalized)
  have "enforced d docs" using assms(4) enforced_routes [OF d, of docs] by (simp add: normalize_normalized)
  then show False using reconcileManaged_quiet [OF assms(3) _ desired_wf [OF d]] rec by simp
qed

theorem EnsureRoutes_quiet_witness: "fst (EnsureRoutes (ex_env ''B'') ex_node ''cfg'' [ex_route] None []) = []"
proof -
  have "configs_for iface [ex_route] = (if iface = ''eth1'' then [ex_config] else [])" for iface
    by (simp add: configs_for_Cons ex_wanted)
  then have "routes_enforced [''eth1''] [ex_route] [ex_link [ex_config]]"
    by (simp add: routes_enforced_def ex_link_def)
  then show ?thesis
    using EnsureRoutes_quiet [of "ex_env ''B''" _ "''B''" "[ex_link [ex_config]]" "[]" "[ex_route]" None ex_node "''cfg''"]
    by (simp add: all_routes_def ex_managed) (simp add: ex_lib_def)
qed

text \<open>
  C16. A call sends at most one apply request, only when the wanted config differs from the one it read,
  and none when the documents of the node's config already are as wanted: reconciling again after a
  success is silent.
\<close>

theorem EnsureRoutes_minimal:
  assumes "EnsureRoutes env nd tc st df ms = (sent, r)"
  shows "(sent = [] \<or> (\<exists>mc body b. COSI_Get env = Inr mc \<and> extractMachineConfigBody env mc = Inr body
       \<and> sent = [\<lparr>request_Data = b, accepted = (ApplyConfiguration env b = None)\<rparr>] \<and> TrimSpace b \<noteq> TrimSpace body))
    \<and> (\<forall>mc body docs. COSI_Get env = Inr mc \<longrightarrow> extractMachineConfigBody env mc = Inr body
         \<longrightarrow> NewFromBytes (config env) body = Inr docs
         \<longrightarrow> routes_enforced (normalizeManagedInterfaces ms (all_routes st df)) (all_routes st df) docs \<longrightarrow> sent = [])"
  using EnsureRoutes_sends_once [OF assms] EnsureRoutes_quiet [of env _ _ _ ms st df nd tc] assms by fastforce

theorem EnsureRoutes_minimal_witness:
  "fst (EnsureRoutes (ex_env ''B'') ex_node ''cfg'' [ex_route] None []) = []
   \<and> fst (EnsureRoutes (ex_env ''A'') ex_node ''cfg'' [ex_route] None []) \<noteq> []"
proof -
  have "configs_for iface [ex_route] = (if iface = ''eth1'' then [ex_config] else [])" for iface
    by (simp add: configs_for_Cons ex_wanted)
  then have "routes_enforced [''eth1''] [ex_route] [ex_link [ex_config]]"
    by (simp add: routes_enforced_def ex_link_def)
  moreover have "NewFromBytes ex_lib ''B'' = Inr [ex_link [ex_config]]" by (simp add: ex_lib_def)
  ultimately have "fst (EnsureRoutes (ex_env ''B'') ex_node ''cfg'' [ex_route] None []) = []"
    using EnsureRoutes_minimal [OF prod.collapse [symmetric], of "ex_env ''B''" ex_node "''cfg''" "[ex_route]" None "[]"]
    by (simp add: all_routes_def ex_managed)
  then show ?thesis by (simp add: ex_ensure)
qed

text \<open>
  C17. The routes wanted for an interface do not depend on the order of the routes in the link
  config: a permutation of them gives the same map.
\<close>

theorem desired_routes_order:
  assumes "mset rs = mset qs" and "desiredRouteConfigsByInterface ms rs = Inr d"
  shows "\<exists>d'. desiredRouteConfigsByInterface ms qs = Inr d' \<and> map_of d' = map_of d"
proof -
  have set: "set rs = set qs" using assms(1) by (rule mset_eq_setD)
  then obtain d' where d': "desiredRouteConfigsByInterface ms qs = Inr d'"
    using desired_total assms(2) by metis
  have configs: "mset (configs_for iface rs) = mset (configs_for iface qs)" for iface
    using assms(1) by (simp add: configs_for_def map_filter_def mset_filter)
  have "map_of d' iface = map_of d iface" for iface
    using sortRouteConfigs_mset [OF _ configs [of iface]] configs_for_wf
    by (auto simp: desired_exact(2) [OF d'] desired_exact(2) [OF assms(2)] normalizeManagedInterfaces_def set)
  then show ?thesis using d' by blast
qed

theorem desired_routes_order_witness:
  "\<exists>d'. desiredRouteConfigsByInterface [''eth1''] [ex_route] = Inr d' \<and> map_of d' = [''eth1'' \<mapsto> [ex_config]]"
  using desired_routes_order [OF refl ex_desired] by simp

section \<open>Waiting for the routes\<close>

text \<open>
  C18. The wait ends: with rounds two seconds apart it returns within seventeen of them, the
  timeout being thirty seconds.
\<close>

theorem waitForRoutesApplied_returns:
  assumes "16 < length polls"
    and "\<forall>i < length polls. elapsed_at_least now (poll_Now (polls ! i)) (int i * (2 * ns_per_second))"
  shows "waitForRoutesApplied net now polls routes (30 * ns_per_second) \<noteq> None"
proof -
  let ?p = "polls ! 16"
  have "elapsed_at_least now (poll_Now ?p) (32 * ns_per_second)" using assms by fastforce
  then have "time_after (poll_Now ?p) (time_add now (30 * ns_per_second))"
    by (intro elapsed_more_than_deadline elapsed_at_least_more [of _ _ "32 * ns_per_second"])
      (simp_all add: ns_per_second_def)
  moreover have "?p \<in> set polls" using assms(1) by simp
  ultimately have "wait_rounds (time_add now (30 * ns_per_second)) ids polls \<noteq> None" for ids
    using wait_rounds_deadline by blast
  then show ?thesis by (auto simp: waitForRoutesApplied_def Let_def split: sum.splits)
qed

theorem waitForRoutesApplied_returns_witness:
  "waitForRoutesApplied ex_net (ex_at 0)
     (map (\<lambda>i. \<lparr>poll_Get = (\<lambda>id. NotFoundError), poll_Now = ex_at (2 * int i), poll_Done = None\<rparr>) [0..<17])
     [ex_route] (30 * ns_per_second) \<noteq> None"
  by (rule waitForRoutesApplied_returns) (simp_all add: elapsed_at_least_def ex_at_def)





end
