(* ===== verification/LinkConfig_API.thy ===== *)
theory LinkConfig_API
  imports Prelude
begin

text \<open>
  The API types of \<^verbatim>\<open>talos.dockyards.io/v1alpha3\<close> (\<^verbatim>\<open>api/v1alpha3/linkconfig_types.go\<close>) and their
  deep copies, hand-written there and generated in \<^verbatim>\<open>zz_generated.deepcopy.go\<close>. A Go value of
  these types refers to a slice of routes and to a default route in memory, so a copy is modelled
  on a heap: what matters is that it shares nothing with the original.
\<close>

section \<open>Types\<close>

record link_config_node =
  lcn_Address :: string
  lcn_Port :: "32 word"

record link_config_route =
  lcr_Network :: string
  lcr_Interface :: string
  lcr_Gateway :: string
  lcr_Metric :: u32

record link_config_default_route =
  lcd_Interface :: string
  lcd_Gateway :: string
  lcd_Metric :: u32

text \<open>A heap: arrays of routes, default routes and arrays of link configs, by address.\<close>

record link_config_spec =
  StaticRoutes_ref :: "nat option"
  DefaultRoute_ref :: "nat option"

text \<open>
  \<open>'m\<close> is the object metadata of the Kubernetes libraries; its own deep copy is a parameter.
\<close>

record 'm link_config_object =
  ObjectMeta :: 'm
  Spec :: link_config_spec

record 'm link_config_list =
  ListMeta :: 'm
  Items_ref :: "nat option"

record 'm heap =
  route_arrays :: "nat \<rightharpoonup> link_config_route list"
  default_routes :: "nat \<rightharpoonup> link_config_default_route"
  object_arrays :: "nat \<rightharpoonup> 'm link_config_object list"
  next_address :: nat

text \<open>Every allocated address is below the next one.\<close>

definition wf_heap :: "'m heap \<Rightarrow> bool" where
  "wf_heap h \<longleftrightarrow> (\<forall>a \<in> dom (route_arrays h) \<union> dom (default_routes h) \<union> dom (object_arrays h). a < next_address h)"

section \<open>Deep copies\<close>

definition new_routes :: "link_config_route list \<Rightarrow> 'm heap \<Rightarrow> nat \<times> 'm heap" where
  "new_routes rs h = (next_address h,
     h\<lparr>route_arrays := (route_arrays h)(next_address h \<mapsto> rs), next_address := Suc (next_address h)\<rparr>)"

definition new_default :: "link_config_default_route \<Rightarrow> 'm heap \<Rightarrow> nat \<times> 'm heap" where
  "new_default r h = (next_address h,
     h\<lparr>default_routes := (default_routes h)(next_address h \<mapsto> r), next_address := Suc (next_address h)\<rparr>)"

text \<open>
  \<^verbatim>\<open>LinkConfigSpec.DeepCopyInto\<close>: the struct is assigned, then each reference that is not nil is
  replaced by one to a fresh copy.
\<close>

definition LinkConfigSpec_DeepCopyInto :: "link_config_spec \<Rightarrow> 'm heap \<Rightarrow> link_config_spec \<times> 'm heap" where
  "LinkConfigSpec_DeepCopyInto inp h =
     (let out = inp;
          (out, h) = (case StaticRoutes_ref inp of
                        None \<Rightarrow> (out, h)
                      | Some a \<Rightarrow> let (b, h') = new_routes (the (route_arrays h a)) h
                                  in (out\<lparr>StaticRoutes_ref := Some b\<rparr>, h'))
      in (case DefaultRoute_ref inp of
            None \<Rightarrow> (out, h)
          | Some a \<Rightarrow> let (b, h') = new_default (the (default_routes h a)) h
                      in (out\<lparr>DefaultRoute_ref := Some b\<rparr>, h')))"

definition LinkConfigSpec_DeepCopy ::
  "link_config_spec option \<Rightarrow> 'm heap \<Rightarrow> link_config_spec option \<times> 'm heap" where
  "LinkConfigSpec_DeepCopy inp h =
     (case inp of
        None \<Rightarrow> (None, h)
      | Some s \<Rightarrow> let (out, h') = LinkConfigSpec_DeepCopyInto s h in (Some out, h'))"

definition LinkConfig_DeepCopyInto ::
  "('m \<Rightarrow> 'm) \<Rightarrow> 'm link_config_object \<Rightarrow> 'm heap \<Rightarrow> 'm link_config_object \<times> 'm heap" where
  "LinkConfig_DeepCopyInto copy_meta inp h =
     (let (spec, h') = LinkConfigSpec_DeepCopyInto (Spec inp) h
      in (inp\<lparr>ObjectMeta := copy_meta (ObjectMeta inp), Spec := spec\<rparr>, h'))"

definition LinkConfig_DeepCopy ::
  "('m \<Rightarrow> 'm) \<Rightarrow> 'm link_config_object option \<Rightarrow> 'm heap \<Rightarrow> 'm link_config_object option \<times> 'm heap" where
  "LinkConfig_DeepCopy copy_meta inp h =
     (case inp of
        None \<Rightarrow> (None, h)
      | Some lc \<Rightarrow> let (out, h') = LinkConfig_DeepCopyInto copy_meta lc h in (Some out, h'))"

text \<open>The loop over the items of a list.\<close>

fun copy_items ::
  "('m \<Rightarrow> 'm) \<Rightarrow> 'm link_config_object list \<Rightarrow> 'm heap \<Rightarrow> 'm link_config_object list \<times> 'm heap" where
  "copy_items copy_meta [] h = ([], h)"
| "copy_items copy_meta (lc # lcs) h =
     (let (out, h1) = LinkConfig_DeepCopyInto copy_meta lc h;
          (outs, h2) = copy_items copy_meta lcs h1
      in (out # outs, h2))"

definition LinkConfigList_DeepCopyInto ::
  "('m \<Rightarrow> 'm) \<Rightarrow> 'm link_config_list \<Rightarrow> 'm heap \<Rightarrow> 'm link_config_list \<times> 'm heap" where
  "LinkConfigList_DeepCopyInto copy_meta inp h =
     (case Items_ref inp of
        None \<Rightarrow> (inp\<lparr>ListMeta := copy_meta (ListMeta inp)\<rparr>, h)
      | Some a \<Rightarrow>
          let b = next_address h;
              (items, h1) = copy_items copy_meta (the (object_arrays h a)) (h\<lparr>next_address := Suc b\<rparr>)
          in (inp\<lparr>ListMeta := copy_meta (ListMeta inp), Items_ref := Some b\<rparr>,
              h1\<lparr>object_arrays := (object_arrays h1)(b \<mapsto> items)\<rparr>))"

definition LinkConfigList_DeepCopy ::
  "('m \<Rightarrow> 'm) \<Rightarrow> 'm link_config_list option \<Rightarrow> 'm heap \<Rightarrow> 'm link_config_list option \<times> 'm heap" where
  "LinkConfigList_DeepCopy copy_meta inp h =
     (case inp of
        None \<Rightarrow> (None, h)
      | Some l \<Rightarrow> let (out, h') = LinkConfigList_DeepCopyInto copy_meta l h in (Some out, h'))"

text \<open>The types without references are copied by assignment.\<close>

definition LinkConfigRoute_DeepCopyInto :: "link_config_route \<Rightarrow> link_config_route" where
  "LinkConfigRoute_DeepCopyInto inp = inp"

definition LinkConfigDefaultRoute_DeepCopyInto :: "link_config_default_route \<Rightarrow> link_config_default_route" where
  "LinkConfigDefaultRoute_DeepCopyInto inp = inp"

definition LinkConfigNode_DeepCopyInto :: "link_config_node \<Rightarrow> link_config_node" where
  "LinkConfigNode_DeepCopyInto inp = inp"

definition LinkConfigRoute_DeepCopy :: "link_config_route option \<Rightarrow> link_config_route option" where
  "LinkConfigRoute_DeepCopy inp =
     (case inp of None \<Rightarrow> None | Some r \<Rightarrow> Some (LinkConfigRoute_DeepCopyInto r))"

definition LinkConfigDefaultRoute_DeepCopy ::
  "link_config_default_route option \<Rightarrow> link_config_default_route option" where
  "LinkConfigDefaultRoute_DeepCopy inp =
     (case inp of None \<Rightarrow> None | Some r \<Rightarrow> Some (LinkConfigDefaultRoute_DeepCopyInto r))"

definition LinkConfigNode_DeepCopy :: "link_config_node option \<Rightarrow> link_config_node option" where
  "LinkConfigNode_DeepCopy inp =
     (case inp of None \<Rightarrow> None | Some r \<Rightarrow> Some (LinkConfigNode_DeepCopyInto r))"

text \<open>
  The values of the interface \<^verbatim>\<open>runtime.Object\<close> that are of this package, and the method that copies
  one: the copy is wrapped in the interface again, and a nil pointer gives the nil interface.
\<close>

datatype 'm runtime_object =
    LinkConfigPointer "'m link_config_object option"
  | LinkConfigListPointer "'m link_config_list option"

definition LinkConfig_DeepCopyObject ::
  "('m \<Rightarrow> 'm) \<Rightarrow> 'm link_config_object option \<Rightarrow> 'm heap \<Rightarrow> 'm runtime_object option \<times> 'm heap" where
  "LinkConfig_DeepCopyObject copy_meta inp h =
     (case LinkConfig_DeepCopy copy_meta inp h of
        (Some c, h') \<Rightarrow> (Some (LinkConfigPointer (Some c)), h')
      | (None, h') \<Rightarrow> (None, h'))"

definition LinkConfigList_DeepCopyObject ::
  "('m \<Rightarrow> 'm) \<Rightarrow> 'm link_config_list option \<Rightarrow> 'm heap \<Rightarrow> 'm runtime_object option \<times> 'm heap" where
  "LinkConfigList_DeepCopyObject copy_meta inp h =
     (case LinkConfigList_DeepCopy copy_meta inp h of
        (Some c, h') \<Rightarrow> (Some (LinkConfigListPointer (Some c)), h')
      | (None, h') \<Rightarrow> (None, h'))"

fun DeepCopyObject ::
  "('m \<Rightarrow> 'm) \<Rightarrow> 'm runtime_object \<Rightarrow> 'm heap \<Rightarrow> 'm runtime_object option \<times> 'm heap" where
  "DeepCopyObject copy_meta (LinkConfigPointer p) h = LinkConfig_DeepCopyObject copy_meta p h"
| "DeepCopyObject copy_meta (LinkConfigListPointer p) h = LinkConfigList_DeepCopyObject copy_meta p h"

section \<open>What a value says\<close>

text \<open>The routes and the default route a spec refers to; \<open>None\<close> for nil.\<close>

type_synonym spec_value = "link_config_route list option \<times> link_config_default_route option"

definition spec_value :: "'m heap \<Rightarrow> link_config_spec \<Rightarrow> spec_value" where
  "spec_value h s =
     (map_option (\<lambda>a. the (route_arrays h a)) (StaticRoutes_ref s),
      map_option (\<lambda>a. the (default_routes h a)) (DefaultRoute_ref s))"

definition spec_in :: "'m heap \<Rightarrow> link_config_spec \<Rightarrow> bool" where
  "spec_in h s \<longleftrightarrow> (\<forall>a. StaticRoutes_ref s = Some a \<longrightarrow> a \<in> dom (route_arrays h))
     \<and> (\<forall>a. DefaultRoute_ref s = Some a \<longrightarrow> a \<in> dom (default_routes h))"

text \<open>The addresses of a spec.\<close>

definition spec_refs :: "link_config_spec \<Rightarrow> nat set" where
  "spec_refs s = set_option (StaticRoutes_ref s) \<union> set_option (DefaultRoute_ref s)"

text \<open>A heap extends another when it only has new addresses.\<close>

definition extends :: "'m heap \<Rightarrow> 'm heap \<Rightarrow> bool" where
  "extends h h' \<longleftrightarrow> wf_heap h' \<and> next_address h \<le> next_address h'
     \<and> (\<forall>a < next_address h. route_arrays h' a = route_arrays h a \<and> default_routes h' a = default_routes h a
          \<and> object_arrays h' a = object_arrays h a)"

lemma extends_refl: "wf_heap h \<Longrightarrow> extends h h"
  by (simp add: extends_def)

lemma extends_trans: "extends h1 h2 \<Longrightarrow> extends h2 h3 \<Longrightarrow> extends h1 h3"
  by (auto simp: extends_def)

lemma new_routes_extends: "wf_heap h \<Longrightarrow> new_routes rs h = (a, h') \<Longrightarrow>
  extends h h' \<and> a = next_address h \<and> route_arrays h' a = Some rs"
  by (auto simp: new_routes_def extends_def wf_heap_def less_Suc_eq)

lemma new_default_extends: "wf_heap h \<Longrightarrow> new_default r h = (a, h') \<Longrightarrow>
  extends h h' \<and> a = next_address h \<and> default_routes h' a = Some r"
  by (auto simp: new_default_def extends_def wf_heap_def less_Suc_eq)

lemma spec_in_bound: "wf_heap h \<Longrightarrow> spec_in h s \<Longrightarrow> a \<in> spec_refs s \<Longrightarrow> a < next_address h"
  by (auto simp: spec_in_def spec_refs_def wf_heap_def)

lemma spec_value_extends: "extends h h' \<Longrightarrow> wf_heap h \<Longrightarrow> spec_in h s \<Longrightarrow> spec_in h' s \<and> spec_value h' s = spec_value h s"
proof -
  assume ext: "extends h h'" and wf: "wf_heap h" and sin: "spec_in h s"
  have low: "a < next_address h" if "a \<in> spec_refs s" for a using spec_in_bound wf sin that by blast
  show ?thesis
  proof (cases "StaticRoutes_ref s"; cases "DefaultRoute_ref s")
  qed (use ext sin low in \<open>auto simp: spec_in_def spec_value_def spec_refs_def extends_def dom_def\<close>)
qed

lemma DeepCopyInto_spec:
  assumes "wf_heap h" and "spec_in h s" and "LinkConfigSpec_DeepCopyInto s h = (out, h')"
  shows "extends h h' \<and> spec_in h' out \<and> spec_value h' out = spec_value h s
    \<and> (\<forall>a \<in> spec_refs out. next_address h \<le> a \<and> a < next_address h')"
  using assms
  by (auto simp: LinkConfigSpec_DeepCopyInto_def new_routes_def new_default_def extends_def wf_heap_def
      spec_in_def spec_value_def spec_refs_def Let_def less_Suc_eq split: option.splits)

lemma DeepCopyInto_object:
  assumes "wf_heap h" and "spec_in h (Spec lc)" and "LinkConfig_DeepCopyInto cm lc h = (out, h')"
  shows "extends h h' \<and> spec_in h' (Spec out) \<and> spec_value h' (Spec out) = spec_value h (Spec lc)
    \<and> ObjectMeta out = cm (ObjectMeta lc)
    \<and> (\<forall>a \<in> spec_refs (Spec out). next_address h \<le> a \<and> a < next_address h')"
proof -
  obtain spec h1 where c: "LinkConfigSpec_DeepCopyInto (Spec lc) h = (spec, h1)" by fastforce
  then have "h1 = h'" "out = lc\<lparr>ObjectMeta := cm (ObjectMeta lc), Spec := spec\<rparr>"
    using assms(3) by (simp_all add: LinkConfig_DeepCopyInto_def)
  then show ?thesis using DeepCopyInto_spec [OF assms(1,2) c] by simp
qed

lemma extends_wf: "extends h h' \<Longrightarrow> wf_heap h'"
  by (simp add: extends_def)

lemma copy_items_copies:
  assumes "wf_heap h" and "\<forall>lc \<in> set lcs. spec_in h (Spec lc)" and "copy_items cm lcs h = (outs, h')"
  shows "extends h h' \<and>
    list_all2 (\<lambda>lc out. ObjectMeta out = cm (ObjectMeta lc) \<and> spec_in h' (Spec out)
      \<and> spec_value h' (Spec out) = spec_value h (Spec lc)
      \<and> (\<forall>a \<in> spec_refs (Spec out). next_address h \<le> a)) lcs outs"
  using assms
proof (induction lcs arbitrary: h outs h')
  case Nil
  then show ?case by (simp add: extends_refl)
next
  case (Cons lc lcs)
  obtain out h1 where c: "LinkConfig_DeepCopyInto cm lc h = (out, h1)" by fastforce
  obtain outs1 h2 where cs: "copy_items cm lcs h1 = (outs1, h2)" by fastforce
  have eq: "outs = out # outs1" "h' = h2" using Cons.prems(3) c cs by simp_all
  note one = DeepCopyInto_object [OF Cons.prems(1) _ c]
  have ext: "extends h h1" and wf1: "wf_heap h1" using one Cons.prems(2) extends_wf by auto
  have keep: "spec_in h1 (Spec x) \<and> spec_value h1 (Spec x) = spec_value h (Spec x)" if "x \<in> set lcs" for x
    using spec_value_extends [OF ext Cons.prems(1)] Cons.prems(2) that by auto
  note rest = Cons.IH [OF wf1 _ cs]
  have ext2: "extends h1 h2" using rest keep by blast
  have "list_all2 (\<lambda>lc out. ObjectMeta out = cm (ObjectMeta lc) \<and> spec_in h2 (Spec out)
      \<and> spec_value h2 (Spec out) = spec_value h (Spec lc)
      \<and> (\<forall>a \<in> spec_refs (Spec out). next_address h \<le> a)) lcs outs1"
    using rest keep ext by (auto simp: list_all2_conv_all_nth extends_def intro: order_trans)
  moreover have "spec_in h2 (Spec out) \<and> spec_value h2 (Spec out) = spec_value h (Spec lc)"
    using one Cons.prems(2) spec_value_extends [OF ext2 wf1, of "Spec out"] by auto
  ultimately show ?case using one Cons.prems(2) ext ext2 by (auto simp: eq intro: extends_trans)
qed

section \<open>Copies are independent\<close>

text \<open>
  A deep copy of a link config says what the original says, leaves what the original says
  alone, and refers to nothing the original refers to, so a later write through one of them is
  not seen through the other.
\<close>

theorem LinkConfig_DeepCopy_independent:
  assumes "wf_heap h" and "spec_in h (Spec lc)" and "LinkConfig_DeepCopy cm (Some lc) h = (copy, h')"
  shows "\<exists>out. copy = Some out \<and> ObjectMeta out = cm (ObjectMeta lc)
    \<and> spec_value h' (Spec out) = spec_value h (Spec lc)
    \<and> spec_value h' (Spec lc) = spec_value h (Spec lc)
    \<and> spec_refs (Spec out) \<inter> spec_refs (Spec lc) = {}"
proof -
  obtain out where c: "LinkConfig_DeepCopyInto cm lc h = (out, h')" "copy = Some out"
    using assms(3) by (auto simp: LinkConfig_DeepCopy_def split: prod.splits)
  note out = DeepCopyInto_object [OF assms(1,2) c(1)]
  then have "spec_value h' (Spec lc) = spec_value h (Spec lc)"
    using spec_value_extends [OF _ assms(1,2)] by blast
  moreover have "spec_refs (Spec out) \<inter> spec_refs (Spec lc) = {}"
    using out spec_in_bound [OF assms(1,2)] by fastforce
  ultimately show ?thesis using out c(2) by blast
qed

definition ex_heap :: "string heap" where
  "ex_heap = \<lparr>route_arrays = [3 \<mapsto> []], default_routes = Map.empty, object_arrays = Map.empty, next_address = 4\<rparr>"

theorem LinkConfig_DeepCopy_independent_witness:
  "\<exists>out. fst (LinkConfig_DeepCopy id (Some \<lparr>ObjectMeta = ''m'', Spec = \<lparr>StaticRoutes_ref = Some 3, DefaultRoute_ref = None\<rparr>\<rparr>) ex_heap)
     = Some out \<and> spec_refs (Spec out) \<inter> {3} = {}"
proof -
  let ?lc = "\<lparr>ObjectMeta = ''m'', Spec = \<lparr>StaticRoutes_ref = Some 3, DefaultRoute_ref = None\<rparr>\<rparr>"
  have "wf_heap ex_heap" and "spec_in ex_heap (Spec ?lc)"
    by (simp_all add: ex_heap_def wf_heap_def spec_in_def)
  from LinkConfig_DeepCopy_independent [OF this prod.collapse [symmetric], of id]
  show ?thesis by (auto simp: spec_refs_def)
qed

text \<open>
  The same for a list: the copy has a fresh array with a copy of each item, in order, and no
  item of the copy shares an address with the heap that was there before.
\<close>

lemma DeepCopyInto_list:
  assumes "wf_heap h" and "Items_ref l = Some a" and "object_arrays h a = Some items"
    and "\<forall>lc \<in> set items. spec_in h (Spec lc)"
    and "LinkConfigList_DeepCopyInto cm l h = (out, h')"
  shows "extends h h' \<and> ListMeta out = cm (ListMeta l) \<and> Items_ref out = Some (next_address h)
    \<and> (\<exists>items'. object_arrays h' (next_address h) = Some items'
        \<and> list_all2 (\<lambda>lc c. ObjectMeta c = cm (ObjectMeta lc) \<and> spec_value h' (Spec c) = spec_value h (Spec lc)
             \<and> (\<forall>x \<in> spec_refs (Spec c). next_address h \<le> x)) items items')"
proof -
  let ?b = "next_address h" and ?h0 = "h\<lparr>next_address := Suc (next_address h)\<rparr>"
  obtain items' h1 where c: "copy_items cm items ?h0 = (items', h1)" by fastforce
  have out: "out = l\<lparr>ListMeta := cm (ListMeta l), Items_ref := Some ?b\<rparr>"
    and h': "h' = h1\<lparr>object_arrays := (object_arrays h1)(?b \<mapsto> items')\<rparr>"
    using assms(2,3,5) c by (auto simp: LinkConfigList_DeepCopyInto_def Let_def)
  have wf: "wf_heap ?h0" using assms(1) by (auto simp: wf_heap_def less_Suc_eq)
  have val: "spec_value (h\<lparr>next_address := n\<rparr>) s = spec_value h s" "spec_in (h\<lparr>next_address := n\<rparr>) s = spec_in h s" for n s
    by (simp_all add: spec_value_def spec_in_def)
  have val': "spec_value h' s = spec_value h1 s" for s by (simp add: h' spec_value_def)
  have cp: "extends ?h0 h1" "list_all2 (\<lambda>lc out. ObjectMeta out = cm (ObjectMeta lc) \<and> spec_in h1 (Spec out)
      \<and> spec_value h1 (Spec out) = spec_value h (Spec lc)
      \<and> (\<forall>a \<in> spec_refs (Spec out). Suc ?b \<le> a)) items items'"
    using copy_items_copies [OF wf _ c] assms(4) by (auto simp: val)
  have "list_all2 (\<lambda>lc c. ObjectMeta c = cm (ObjectMeta lc) \<and> spec_value h' (Spec c) = spec_value h (Spec lc)
         \<and> (\<forall>x \<in> spec_refs (Spec c). next_address h \<le> x)) items items'"
    using cp(2) by (rule list_all2_mono) (auto simp: val')
  moreover have "extends h h'" using cp(1) by (auto simp: h' extends_def wf_heap_def)
  ultimately show ?thesis by (simp add: out) (simp add: h')
qed

theorem LinkConfigList_DeepCopy_independent:
  assumes "wf_heap h" and "Items_ref l = Some a" and "object_arrays h a = Some items"
    and "\<forall>lc \<in> set items. spec_in h (Spec lc)"
    and "LinkConfigList_DeepCopy cm (Some l) h = (copy, h')"
  shows "\<exists>out b items'. copy = Some out \<and> Items_ref out = Some b \<and> b \<noteq> a
    \<and> object_arrays h' b = Some items' \<and> object_arrays h' a = Some items
    \<and> list_all2 (\<lambda>lc c. ObjectMeta c = cm (ObjectMeta lc) \<and> spec_value h' (Spec c) = spec_value h (Spec lc)
         \<and> (\<forall>x \<in> spec_refs (Spec c). next_address h \<le> x)) items items'"
proof -
  obtain out where c: "LinkConfigList_DeepCopyInto cm l h = (out, h')" "copy = Some out"
    using assms(5) by (auto simp: LinkConfigList_DeepCopy_def split: prod.splits)
  have "a < next_address h" using assms(1,3) by (auto simp: wf_heap_def)
  moreover have "object_arrays h' a = Some items" if "extends h h'"
    using that \<open>a < next_address h\<close> assms(3) by (simp add: extends_def)
  ultimately show ?thesis using DeepCopyInto_list [OF assms(1-4) c(1)] c(2) by auto
qed

theorem LinkConfigList_DeepCopy_independent_witness:
  "\<exists>out b. fst (LinkConfigList_DeepCopy id (Some \<lparr>ListMeta = ''m'', Items_ref = Some 2\<rparr>)
     (ex_heap\<lparr>object_arrays := [2 \<mapsto> []]\<rparr>)) = Some out \<and> Items_ref out = Some b \<and> b \<noteq> 2"
proof -
  let ?h = "ex_heap\<lparr>object_arrays := [2 \<mapsto> []]\<rparr>"
  have "wf_heap ?h" by (simp add: ex_heap_def wf_heap_def)
  from LinkConfigList_DeepCopy_independent [OF this, of "\<lparr>ListMeta = ''m'', Items_ref = Some 2\<rparr>" 2 "[]" id]
  show ?thesis by (simp add: prod.collapse [symmetric]) (metis prod.collapse)
qed

section \<open>Objects behind the interface\<close>

text \<open>What an object says, with the contents of its references, and the addresses it refers to.\<close>

definition object_value :: "'m heap \<Rightarrow> 'm link_config_object \<Rightarrow> 'm \<times> spec_value" where
  "object_value h lc = (ObjectMeta lc, spec_value h (Spec lc))"

definition list_value :: "'m heap \<Rightarrow> 'm link_config_list \<Rightarrow> 'm \<times> ('m \<times> spec_value) list option" where
  "list_value h l = (ListMeta l, map_option (\<lambda>a. map (object_value h) (the (object_arrays h a))) (Items_ref l))"

definition list_refs :: "'m heap \<Rightarrow> 'm link_config_list \<Rightarrow> nat set" where
  "list_refs h l = (\<Union>a \<in> set_option (Items_ref l).
     insert a (\<Union>lc \<in> set (the (object_arrays h a)). spec_refs (Spec lc)))"

definition list_in :: "'m heap \<Rightarrow> 'm link_config_list \<Rightarrow> bool" where
  "list_in h l \<longleftrightarrow> (\<forall>a. Items_ref l = Some a \<longrightarrow>
     (\<exists>items. object_arrays h a = Some items \<and> (\<forall>lc \<in> set items. spec_in h (Spec lc))))"

type_synonym 'm object_contents = "('m \<times> spec_value) option + ('m \<times> ('m \<times> spec_value) list option) option"

fun runtime_value :: "'m heap \<Rightarrow> 'm runtime_object \<Rightarrow> 'm object_contents" where
  "runtime_value h (LinkConfigPointer p) = Inl (map_option (object_value h) p)"
| "runtime_value h (LinkConfigListPointer p) = Inr (map_option (list_value h) p)"

fun runtime_refs :: "'m heap \<Rightarrow> 'm runtime_object \<Rightarrow> nat set" where
  "runtime_refs h (LinkConfigPointer p) = (\<Union>lc \<in> set_option p. spec_refs (Spec lc))"
| "runtime_refs h (LinkConfigListPointer p) = (\<Union>l \<in> set_option p. list_refs h l)"

fun runtime_in :: "'m heap \<Rightarrow> 'm runtime_object \<Rightarrow> bool" where
  "runtime_in h (LinkConfigPointer p) \<longleftrightarrow> (\<forall>lc. p = Some lc \<longrightarrow> spec_in h (Spec lc))"
| "runtime_in h (LinkConfigListPointer p) \<longleftrightarrow> (\<forall>l. p = Some l \<longrightarrow> list_in h l)"

fun is_nil :: "'m runtime_object \<Rightarrow> bool" where
  "is_nil (LinkConfigPointer p) \<longleftrightarrow> p = None"
| "is_nil (LinkConfigListPointer p) \<longleftrightarrow> p = None"

text \<open>The contents with every metadata copied.\<close>

definition copied :: "('m \<Rightarrow> 'm) \<Rightarrow> 'm object_contents \<Rightarrow> 'm object_contents" where
  "copied cm = map_sum (map_option (map_prod cm id))
     (map_option (map_prod cm (map_option (map (map_prod cm id)))))"

lemma object_value_extends:
  "extends h h' \<Longrightarrow> wf_heap h \<Longrightarrow> spec_in h (Spec lc) \<Longrightarrow> object_value h' lc = object_value h lc"
  using spec_value_extends by (fastforce simp: object_value_def)

lemma runtime_value_extends:
  assumes "extends h h'" and "wf_heap h" and "runtime_in h obj"
  shows "runtime_value h' obj = runtime_value h obj" and "runtime_refs h' obj = runtime_refs h obj"
    and "x \<in> runtime_refs h obj \<Longrightarrow> x < next_address h"
proof -
  have arrays: "object_arrays h' a = Some items \<and> a < next_address h" if "object_arrays h a = Some items" for a items
  proof -
    have "a < next_address h" using that assms(2) by (auto simp: wf_heap_def)
    then show ?thesis using that assms(1) by (simp add: extends_def)
  qed
  have one: "list_value h' l = list_value h l \<and> list_refs h' l = list_refs h l" if l: "list_in h l" for l
  proof (cases "Items_ref l")
    case (Some a)
    then obtain items where items: "object_arrays h a = Some items" "\<forall>lc \<in> set items. spec_in h (Spec lc)"
      using l by (auto simp: list_in_def)
    then have "map (object_value h') items = map (object_value h) items"
      using object_value_extends [OF assms(1,2)] by simp
    then show ?thesis using Some items(1) arrays [OF items(1)] by (simp add: list_value_def list_refs_def)
  qed (simp add: list_value_def list_refs_def)
  show "runtime_value h' obj = runtime_value h obj"
    using assms(3) one object_value_extends [OF assms(1,2)] by (cases obj) (auto intro!: map_option_cong)
  show "runtime_refs h' obj = runtime_refs h obj" using assms(3) one by (cases obj) auto
  have "x < next_address h" if l: "list_in h l" and x: "x \<in> list_refs h l" for l
  proof -
    obtain a where a: "Items_ref l = Some a" using x by (auto simp: list_refs_def)
    then obtain items where items: "object_arrays h a = Some items" "\<forall>lc \<in> set items. spec_in h (Spec lc)"
      using l by (auto simp: list_in_def)
    then have "x = a \<or> (\<exists>lc \<in> set items. x \<in> spec_refs (Spec lc))" using x a by (simp add: list_refs_def)
    then show ?thesis using items spec_in_bound [OF assms(2)] arrays by blast
  qed
  then show "x < next_address h" if "x \<in> runtime_refs h obj"
    using that assms(3) spec_in_bound [OF assms(2)] by (cases obj) auto
qed

lemma DeepCopyObject_LinkConfig:
  assumes "wf_heap h" and "spec_in h (Spec lc)" and "LinkConfig_DeepCopyInto cm lc h = (out, h')"
  shows "extends h h' \<and> object_value h' out = map_prod cm id (object_value h lc)
    \<and> (\<forall>a \<in> spec_refs (Spec out). next_address h \<le> a)"
  using DeepCopyInto_object [OF assms] by (simp add: object_value_def)

lemma DeepCopyObject_list:
  assumes "wf_heap h" and "list_in h l" and "LinkConfigList_DeepCopyInto cm l h = (out, h')"
  shows "extends h h' \<and> list_value h' out = map_prod cm (map_option (map (map_prod cm id))) (list_value h l)
    \<and> (\<forall>a \<in> list_refs h' out. next_address h \<le> a)"
proof (cases "Items_ref l")
  case None
  then have "out = l\<lparr>ListMeta := cm (ListMeta l)\<rparr> \<and> h' = h"
    using assms(3) by (simp add: LinkConfigList_DeepCopyInto_def)
  then show ?thesis using None assms(1) by (simp add: list_value_def list_refs_def extends_refl)
next
  case (Some a)
  then obtain items where items: "object_arrays h a = Some items" "\<forall>lc \<in> set items. spec_in h (Spec lc)"
    using assms(2) by (auto simp: list_in_def)
  obtain items' where out: "extends h h'" "ListMeta out = cm (ListMeta l)" "Items_ref out = Some (next_address h)"
    "object_arrays h' (next_address h) = Some items'"
    and each: "list_all2 (\<lambda>lc c. ObjectMeta c = cm (ObjectMeta lc) \<and> spec_value h' (Spec c) = spec_value h (Spec lc)
             \<and> (\<forall>x \<in> spec_refs (Spec c). next_address h \<le> x)) items items'"
    using DeepCopyInto_list [OF assms(1) Some items assms(3)] by blast
  have "map (object_value h') items' = map (map_prod cm id) (map (object_value h) items)"
    using each by (induction rule: list_all2_induct) (simp_all add: object_value_def)
  moreover have "\<forall>c \<in> set items'. \<forall>x \<in> spec_refs (Spec c). next_address h \<le> x"
    using each by (induction rule: list_all2_induct) simp_all
  ultimately show ?thesis using out Some items(1) by (auto simp: list_value_def list_refs_def)
qed

text \<open>
  C32. A deep copy of an object behind \<^verbatim>\<open>runtime.Object\<close>, a link config or a list of them, says what the
  original says, with its metadata copied; the original still says the same, and the two share no
  memory, so a later write through one of them is not seen through the other. Only a nil pointer has
  no copy.
\<close>

theorem DeepCopyObject_independent:
  assumes "wf_heap h" and "runtime_in h obj" and "DeepCopyObject cm obj h = (copy, h')"
  shows "(copy = None \<longleftrightarrow> is_nil obj) \<and> runtime_value h' obj = runtime_value h obj
    \<and> (\<forall>out. copy = Some out \<longrightarrow> runtime_value h' out = copied cm (runtime_value h obj)
          \<and> runtime_refs h' out \<inter> runtime_refs h' obj = {})"
proof -
  have "extends h h' \<and> (copy = None \<longleftrightarrow> is_nil obj)
    \<and> (\<forall>out. copy = Some out \<longrightarrow> runtime_value h' out = copied cm (runtime_value h obj)
          \<and> (\<forall>a \<in> runtime_refs h' out. next_address h \<le> a))"
  proof (cases obj)
    case (LinkConfigPointer p)
    show ?thesis
    proof (cases p)
      case None
      then show ?thesis using assms(1,3) LinkConfigPointer
        by (simp add: LinkConfig_DeepCopyObject_def LinkConfig_DeepCopy_def extends_refl)
    next
      case (Some lc)
      obtain out where c: "LinkConfig_DeepCopyInto cm lc h = (out, h')" "copy = Some (LinkConfigPointer (Some out))"
        using assms(3) LinkConfigPointer Some
        by (auto simp: LinkConfig_DeepCopyObject_def LinkConfig_DeepCopy_def split: prod.splits)
      have "spec_in h (Spec lc)" using assms(2) LinkConfigPointer Some by simp
      from DeepCopyObject_LinkConfig [OF assms(1) this c(1)] show ?thesis
        using c(2) LinkConfigPointer Some by (simp add: copied_def)
    qed
  next
    case (LinkConfigListPointer p)
    show ?thesis
    proof (cases p)
      case None
      then show ?thesis using assms(1,3) LinkConfigListPointer
        by (simp add: LinkConfigList_DeepCopyObject_def LinkConfigList_DeepCopy_def extends_refl)
    next
      case (Some l)
      obtain out where c: "LinkConfigList_DeepCopyInto cm l h = (out, h')" "copy = Some (LinkConfigListPointer (Some out))"
        using assms(3) LinkConfigListPointer Some
        by (auto simp: LinkConfigList_DeepCopyObject_def LinkConfigList_DeepCopy_def split: prod.splits)
      have "list_in h l" using assms(2) LinkConfigListPointer Some by simp
      from DeepCopyObject_list [OF assms(1) this c(1)] show ?thesis
        using c(2) LinkConfigListPointer Some by (simp add: copied_def)
    qed
  qed
  then show ?thesis using runtime_value_extends [OF _ assms(1,2)] by fastforce
qed

theorem DeepCopyObject_independent_witness:
  "\<exists>out h'. DeepCopyObject id (LinkConfigListPointer (Some \<lparr>ListMeta = ''l'', Items_ref = Some 2\<rparr>))
       (ex_heap\<lparr>object_arrays := [2 \<mapsto> [\<lparr>ObjectMeta = ''m'', Spec = \<lparr>StaticRoutes_ref = Some 3, DefaultRoute_ref = None\<rparr>\<rparr>]]\<rparr>)
       = (Some out, h')
     \<and> runtime_value h' out = Inr (Some (''l'', Some [(''m'', Some [], None)])) \<and> runtime_refs h' out \<inter> {2, 3} = {}"
proof -
  let ?lc = "\<lparr>ObjectMeta = ''m'', Spec = \<lparr>StaticRoutes_ref = Some 3, DefaultRoute_ref = None\<rparr>\<rparr>"
  let ?h = "ex_heap\<lparr>object_arrays := [2 \<mapsto> [?lc]]\<rparr>"
    and ?obj = "LinkConfigListPointer (Some \<lparr>ListMeta = ''l'', Items_ref = Some (2 :: nat)\<rparr>)"
  obtain copy h' where c: "DeepCopyObject id ?obj ?h = (copy, h')" by fastforce
  have h: "wf_heap ?h" and obj: "runtime_in ?h ?obj"
    by (simp_all add: ex_heap_def wf_heap_def list_in_def spec_in_def)
  have val: "runtime_value ?h ?obj = Inr (Some (''l'', Some [(''m'', Some [], None)]))"
    by (simp add: list_value_def object_value_def spec_value_def) (simp add: ex_heap_def)
  note ind = DeepCopyObject_independent [OF h obj c]
  then obtain out where out: "copy = Some out" by (cases copy) simp_all
  then have "runtime_value h' out = Inr (Some (''l'', Some [(''m'', Some [], None)]))"
    using ind val by (simp add: copied_def)
  moreover have "object_arrays h' 2 = Some [?lc]"
    using ind val c by (simp add: LinkConfigList_DeepCopyObject_def LinkConfigList_DeepCopy_def Let_def
        LinkConfigList_DeepCopyInto_def LinkConfig_DeepCopyInto_def LinkConfigSpec_DeepCopyInto_def new_routes_def
        split: prod.splits) (auto simp: ex_heap_def)
  then have "runtime_refs h' ?obj = {2, 3}" by (simp add: list_refs_def spec_refs_def)
  ultimately show ?thesis using ind out c by blast
qed

section \<open>Registration\<close>

text \<open>
  The package registers its kinds with a scheme of the Kubernetes libraries, a parameter: a scheme, and
  the calls that add the kinds of Go types to a group version, the common types of a group version,
  and what a scheme builder registers.
\<close>

record group_version =
  gv_Group :: string
  gv_Version :: string

datatype known_type = LinkConfigType | LinkConfigListType

record 's scheme_lib =
  AddKnownTypes :: "group_version \<Rightarrow> known_type list \<Rightarrow> 's \<Rightarrow> 's"
  AddToGroupVersion :: "group_version \<Rightarrow> 's \<Rightarrow> 's"
  Builder_AddToScheme :: "('s \<Rightarrow> string option \<times> 's) list \<Rightarrow> 's \<Rightarrow> string option \<times> 's"

definition GroupName :: string where
  "GroupName = ''talos.dockyards.io''"

definition SchemeGroupVersion :: group_version where
  "SchemeGroupVersion = \<lparr>gv_Group = GroupName, gv_Version = ''v1alpha3''\<rparr>"

definition addKnownTypes :: "'s scheme_lib \<Rightarrow> 's \<Rightarrow> string option \<times> 's" where
  "addKnownTypes lib scheme =
     (let scheme = AddKnownTypes lib SchemeGroupVersion [LinkConfigType, LinkConfigListType] scheme;
          scheme = AddToGroupVersion lib SchemeGroupVersion scheme
      in (None, scheme))"

text \<open>
  The builder is made of \<^verbatim>\<open>addKnownTypes\<close> alone. Registration does not fail, and afterwards both kinds are
  known under the group version, if a builder of one function does what the function does and a scheme
  knows what is added to it and forgets nothing.
\<close>

definition AddToScheme :: "'s scheme_lib \<Rightarrow> 's \<Rightarrow> string option \<times> 's" where
  "AddToScheme lib = Builder_AddToScheme lib [addKnownTypes lib]"

lemma AddToScheme_registers:
  assumes "\<And>gv ts s t. t \<in> set ts \<Longrightarrow> recognizes (AddKnownTypes lib gv ts s) gv t"
    and "\<And>gv gv' s t. recognizes s gv t \<Longrightarrow> recognizes (AddToGroupVersion lib gv' s) gv t"
    and "\<And>f s. Builder_AddToScheme lib [f] s = f s"
  shows "fst (AddToScheme lib s) = None \<and> recognizes (snd (AddToScheme lib s)) SchemeGroupVersion t"
  using assms by (cases t) (simp_all add: AddToScheme_def addKnownTypes_def)

end
