(* ===== verification/GoUTF8.thy ===== *)
theory GoUTF8
  imports Prelude
begin

text \<open>
  Go's \<^verbatim>\<open>unicode/utf8\<close>: how a byte string splits into runes. A byte that does not start a valid
  encoding is a rune of its own, the replacement character U+FFFD. A text is a string whose runes
  are all valid; texts are closed under concatenation and under \<^verbatim>\<open>strings.TrimSpace\<close>.
\<close>

abbreviation code :: "char \<Rightarrow> nat" where
  "code c \<equiv> of_char c"

definition in_bytes :: "nat \<Rightarrow> nat \<Rightarrow> char \<Rightarrow> bool" where
  "in_bytes lo hi c \<longleftrightarrow> lo \<le> code c \<and> code c \<le> hi"

text \<open>The table of first bytes: the length of the encoding and the range of the second byte.\<close>

definition rune_info :: "nat \<Rightarrow> (nat \<times> nat \<times> nat) option" where
  "rune_info n =
     (if 0xC2 \<le> n \<and> n \<le> 0xDF then Some (2, 0x80, 0xBF)
      else if n = 0xE0 then Some (3, 0xA0, 0xBF)
      else if n = 0xED then Some (3, 0x80, 0x9F)
      else if 0xE1 \<le> n \<and> n \<le> 0xEF then Some (3, 0x80, 0xBF)
      else if n = 0xF0 then Some (4, 0x90, 0xBF)
      else if 0xF1 \<le> n \<and> n \<le> 0xF3 then Some (4, 0x80, 0xBF)
      else if n = 0xF4 then Some (4, 0x80, 0x8F)
      else None)"

text \<open>The length of the rune at the front, \<open>None\<close> when its encoding is not valid.\<close>

definition rune_len :: "string \<Rightarrow> nat option" where
  "rune_len s =
     (case s of
        [] \<Rightarrow> None
      | a # r \<Rightarrow>
          if code a < 0x80 then Some 1
          else (case rune_info (code a) of
                  None \<Rightarrow> None
                | Some (k, lo, hi) \<Rightarrow>
                    if k - 1 \<le> length r \<and> in_bytes lo hi (hd r) \<and> list_all (in_bytes 0x80 0xBF) (take (k - 2) (tl r))
                    then Some k else None))"

definition is_rune :: "string \<Rightarrow> bool" where
  "is_rune r \<longleftrightarrow> rune_len r = Some (length r)"

lemma rune_info_len: "rune_info n = Some (k, lo, hi) \<Longrightarrow> 2 \<le> k \<and> k \<le> 4 \<and> 0x80 \<le> lo \<and> hi \<le> 0xBF"
  by (auto simp: rune_info_def split: if_splits)

lemma rune_len_bounds: "rune_len s = Some k \<Longrightarrow> 0 < k \<and> k \<le> length s"
  by (auto simp: rune_len_def split: list.splits if_splits option.splits prod.splits dest!: rune_info_len)

lemma rune_len_local:
  assumes "rune_len s = Some k" and "take k t = take k s" and "k \<le> length t"
  shows "rune_len t = Some k"
proof -
  obtain a r where s: "s = a # r" using assms(1) by (cases s) (auto simp: rune_len_def)
  have "0 < k" using rune_len_bounds [OF assms(1)] by simp
  then obtain b u where t: "t = b # u" using assms(3) by (cases t) auto
  have ab: "b = a" using assms(2) \<open>0 < k\<close> by (cases k) (auto simp: s t)
  show ?thesis
  proof (cases "code a < 0x80")
    case True
    then show ?thesis using assms(1) by (simp add: rune_len_def s t ab)
  next
    case False
    then obtain lo hi where i: "rune_info (code a) = Some (k, lo, hi)"
      and r: "k - 1 \<le> length r" "in_bytes lo hi (hd r)" "list_all (in_bytes 0x80 0xBF) (take (k - 2) (tl r))"
      using assms(1) by (auto simp: rune_len_def s split: option.splits if_splits)
    have k: "2 \<le> k" using rune_info_len [OF i] by simp
    then obtain k' where k': "k = Suc (Suc k')" by (metis add_2_eq_Suc le_Suc_ex)
    have "take (Suc k') u = take (Suc k') r" using assms(2) by (simp add: s t k')
    moreover obtain c v where rc: "r = c # v" using r(1) k by (cases r) auto
    moreover obtain d w where ud: "u = d # w" using assms(3) k by (cases u) (auto simp: t)
    ultimately have "d = c" "take k' w = take k' v" by simp_all
    then show ?thesis using False i r assms(3) by (simp add: rune_len_def t ab ud rc k')
  qed
qed

lemma is_rune_take: "rune_len s = Some k \<Longrightarrow> is_rune (take k s)"
  using rune_len_local [of s k "take k s"] rune_len_bounds [of s k] by (simp add: is_rune_def min_def)

lemma rune_len_append: "is_rune r \<Longrightarrow> rune_len (r @ t) = Some (length r)"
  by (rule rune_len_local [of r]) (simp_all add: is_rune_def)

lemma is_rune_not_Nil [simp]: "\<not> is_rune []"
  by (simp add: is_rune_def rune_len_def)

lemma is_rune_ascii: "code c < 0x80 \<Longrightarrow> is_rune [c]"
  by (simp add: is_rune_def rune_len_def)

text \<open>Only the first byte of a rune is outside the range of continuation bytes.\<close>

lemma is_rune_continuation:
  assumes "is_rune r" and "0 < i" and "i < length r"
  shows "in_bytes 0x80 0xBF (r ! i)"
proof -
  obtain a u where r: "r = a # u" using assms(3) by (cases r) auto
  have "\<not> code a < 0x80" using assms by (auto simp: is_rune_def rune_len_def r)
  then obtain lo hi where info: "rune_info (code a) = Some (length r, lo, hi)"
    and u: "in_bytes lo hi (hd u)" "list_all (in_bytes 0x80 0xBF) (take (length r - 2) (tl u))"
    using assms(1) by (auto simp: is_rune_def rune_len_def r split: option.splits if_splits)
  obtain c v where uc: "u = c # v" using assms(2,3) by (cases u) (auto simp: r)
  show ?thesis
  proof (cases "i = 1")
    case True
    then show ?thesis using u(1) rune_info_len [OF info] by (simp add: r uc in_bytes_def)
  next
    case False
    moreover obtain i' where "i = Suc i'" using assms(2) gr0_conv_Suc by blast
    ultimately obtain j where "i = Suc (Suc j)" by (cases i') auto
    then show ?thesis using u(2) assms(3) by (simp add: r uc list_all_length)
  qed
qed

lemma is_rune_first: "is_rune r \<Longrightarrow> \<not> in_bytes 0x80 0xBF (hd r)"
proof -
  assume rune: "is_rune r"
  then obtain a u where r: "r = a # u" by (cases r) auto
  have "code a < 0x80 \<or> rune_info (code a) \<noteq> None"
    using rune by (auto simp: is_rune_def rune_len_def r split: option.splits if_splits)
  moreover have "rune_info (code a) \<noteq> None \<Longrightarrow> 0xC2 \<le> code a" by (auto simp: rune_info_def split: if_splits)
  ultimately show ?thesis by (auto simp: r in_bytes_def)
qed

section \<open>Texts\<close>

function split_runes :: "string \<Rightarrow> string list" where
  "split_runes s =
     (if s = [] then []
      else case rune_len s of
             None \<Rightarrow> [hd s] # split_runes (tl s)
           | Some k \<Rightarrow> take k s # split_runes (drop k s))"
  by pat_completeness auto
termination
  by (relation "measure length") (auto dest: rune_len_bounds)

declare split_runes.simps [simp del]

lemma split_runes_Nil [simp]: "split_runes [] = []"
  by (simp add: split_runes.simps)

lemma split_runes_rune: "is_rune r \<Longrightarrow> split_runes (r @ s) = r # split_runes s"
  by (subst split_runes.simps) (auto simp: rune_len_append)

lemma concat_split_runes [simp]: "concat (split_runes s) = s"
proof (induction s rule: split_runes.induct)
  case (1 s)
  show ?case
  proof (cases "s = []")
    case False
    then show ?thesis using 1 by (subst split_runes.simps) (auto split: option.splits)
  qed simp
qed

definition is_text :: "string \<Rightarrow> bool" where
  "is_text s \<longleftrightarrow> list_all is_rune (split_runes s)"

lemma is_text_Nil [simp]: "is_text []"
  by (simp add: is_text_def)

lemma is_text_rune [simp]: "is_rune r \<Longrightarrow> is_text (r @ s) \<longleftrightarrow> is_text s"
  by (simp add: is_text_def split_runes_rune)

lemma is_text_induct [consumes 1, case_names Nil rune]:
  assumes "is_text s" and "P []" and "\<And>r s. is_rune r \<Longrightarrow> is_text s \<Longrightarrow> P s \<Longrightarrow> P (r @ s)"
  shows "P s"
proof -
  have "\<forall>r \<in> set rs. is_rune r \<Longrightarrow> is_text (concat rs) \<and> P (concat rs)" for rs
    by (induction rs) (auto intro: assms)
  from this [of "split_runes s"] show ?thesis using assms(1) by (simp add: is_text_def list_all_iff)
qed

lemma is_text_append: "is_text a \<Longrightarrow> is_text (a @ b) \<longleftrightarrow> is_text b"
  by (induction a rule: is_text_induct) simp_all

lemma is_text_ascii: "\<forall>c \<in> set s. code c < 0x80 \<Longrightarrow> is_text s"
proof (induction s)
  case (Cons c s)
  then show ?case using is_text_rune [OF is_rune_ascii, of c s] by simp
qed simp

lemma is_text_single: "is_rune r \<Longrightarrow> is_text r"
  using is_text_rune [of r "[]"] by simp

text \<open>A last rune can be cut off.\<close>

lemma is_text_butlast:
  assumes "is_text u" and "u = t @ r" and "is_rune r"
  shows "is_text t"
  using assms(1,2)
proof (induction u arbitrary: t rule: is_text_induct)
  case (rune r1 s1)
  show ?case
  proof (cases "length r1 \<le> length t")
    case True
    then obtain t1 where t: "t = r1 @ t1" using rune.prems by (metis append_eq_append_conv_if append_take_drop_id)
    then show ?thesis using rune by simp
  next
    case False
    have "t = []"
    proof (rule ccontr)
      assume "t \<noteq> []"
      moreover have "r1 ! length t = hd r"
      proof -
        have "r1 ! length t = (t @ r) ! length t" using False rune.prems by (metis linorder_not_le nth_append)
        moreover have "r \<noteq> []" using assms(3) by auto
        ultimately show ?thesis by (simp add: nth_append hd_conv_nth)
      qed
      ultimately show False
        using is_rune_continuation [OF rune.hyps(1), of "length t"] is_rune_first [OF assms(3)] False by simp
    qed
    then show ?thesis by simp
  qed
qed simp

section \<open>Trimming\<close>

lemma strip_any_Some: "strip_any rs s = Some t \<Longrightarrow> \<exists>r \<in> set rs. s = r @ t"
  by (induction rs) (auto simp: strip_Some split: option.splits if_splits)

lemma space_runes_valid: "\<forall>r \<in> set space_runes. is_rune r"
  by (simp add: space_runes_def is_rune_def rune_len_def rune_info_def in_bytes_def)

lemma trim_left_text: "rs = space_runes \<Longrightarrow> is_text s \<Longrightarrow> is_text (trim_with rs s)"
proof (induction rs s rule: trim_with.induct)
  case (1 rs s)
  show ?case
  proof (cases "strip_any rs s")
    case (Some t)
    obtain r where r: "r \<in> set rs" "s = r @ t" using strip_any_Some [OF Some] by blast
    then have "is_text t" using "1.prems" space_runes_valid by auto
    then show ?thesis using "1.IH" [OF Some] "1.prems"(1) Some by (subst trim_with.simps) simp
  qed (use "1.prems" in \<open>simp add: trim_with_id\<close>)
qed

lemma trim_right_text: "rs = map rev space_runes \<Longrightarrow> is_text (rev s) \<Longrightarrow> is_text (rev (trim_with rs s))"
proof (induction rs s rule: trim_with.induct)
  case (1 rs s)
  show ?case
  proof (cases "strip_any rs s")
    case (Some t)
    obtain r where r: "r \<in> set space_runes" "s = rev r @ t" using strip_any_Some [OF Some] "1.prems"(1) by auto
    then have "rev s = rev t @ r" by simp
    then have "is_text (rev t)" using is_text_butlast "1.prems"(2) space_runes_valid r(1) by blast
    then show ?thesis using "1.IH" [OF Some] "1.prems"(1) Some by (subst trim_with.simps) simp
  qed (use "1.prems" in \<open>simp add: trim_with_id\<close>)
qed

lemma TrimSpace_text: "is_text s \<Longrightarrow> is_text (TrimSpace s)"
  unfolding TrimSpace_def TrimLeftSpace_def by (rule trim_right_text [OF refl]) (simp add: trim_left_text)

end
