(* ===== verification/GoJSON.thy ===== *)
theory GoJSON
  imports GoUTF8 NetIP_Text
begin

text \<open>
  Go's \<^verbatim>\<open>encoding/json\<close> as the code uses it: values, the compact form the encoder writes,
  with HTML characters escaped, and the syntax of strings. Quoting a text and decoding it gives the text back,
  and every decoded string is a text, that is, valid UTF-8.
\<close>

section \<open>Values and their text\<close>

text \<open>A number keeps its text; the pairs of an object keep their order and duplicates.\<close>

datatype json =
    JNull
  | JBool bool
  | JNumber string
  | JString string
  | JArray "json list"
  | JObject "(string \<times> json) list"

text \<open>The encoder: what one rune of a string becomes.\<close>

definition quote_ascii :: "char \<Rightarrow> string" where
  "quote_ascii c =
     (if c = CHR 0x5C \<or> c = CHR 0x22 then [CHR 0x5C, c]
      else if c = CHR 0x08 then [CHR 0x5C, CHR ''b'']
      else if c = CHR 0x0C then [CHR 0x5C, CHR ''f'']
      else if c = CHR 0x0A then [CHR 0x5C, CHR ''n'']
      else if c = CHR 0x0D then [CHR 0x5C, CHR ''r'']
      else if c = CHR 0x09 then [CHR 0x5C, CHR ''t'']
      else if code c < 0x20 \<or> c \<in> set ''<>&''
      then [CHR 0x5C, CHR ''u'', CHR ''0'', CHR ''0'', digit_char (code c div 16), digit_char (code c mod 16)]
      else [c])"

definition replacement :: string where
  "replacement = [CHR 0xEF, CHR 0xBF, CHR 0xBD]"

definition quote_rune :: "string \<Rightarrow> string" where
  "quote_rune r =
     (if \<not> is_rune r then CHR 0x5C # ''ufffd''
      else if code (hd r) < 0x80 then quote_ascii (hd r)
      else if r = [CHR 0xE2, CHR 0x80, CHR 0xA8] then CHR 0x5C # ''u2028''
      else if r = [CHR 0xE2, CHR 0x80, CHR 0xA9] then CHR 0x5C # ''u2029''
      else r)"

definition quote :: "string \<Rightarrow> string" where
  "quote s = CHR 0x22 # concat (map quote_rune (split_runes s)) @ [CHR 0x22]"

fun json_print :: "json \<Rightarrow> string" where
  "json_print JNull = ''null''"
| "json_print (JBool b) = (if b then ''true'' else ''false'')"
| "json_print (JNumber t) = t"
| "json_print (JString s) = quote s"
| "json_print (JArray vs) = ''['' @ join '','' (map json_print vs) @ '']''"
| "json_print (JObject kvs) = ''{'' @ join '','' (map (\<lambda>(k, v). quote k @ '':'' @ json_print v) kvs) @ ''}''"

section \<open>Strings\<close>

fun hex_digits :: "nat \<Rightarrow> nat \<Rightarrow> string \<Rightarrow> (nat \<times> string) option" where
  "hex_digits 0 n s = Some (n, s)"
| "hex_digits (Suc i) n [] = None"
| "hex_digits (Suc i) n (c # s) =
     (case hex_value c of None \<Rightarrow> None | Some d \<Rightarrow> hex_digits i (n * 16 + d) s)"

definition hex4 :: "string \<Rightarrow> (nat \<times> string) option" where
  "hex4 s = hex_digits (Suc (Suc (Suc (Suc 0)))) 0 s"

definition encode_rune :: "nat \<Rightarrow> string" where
  "encode_rune n =
     (if n < 0x80 then [char_of n]
      else if n < 0x800 then [char_of (0xC0 + n div 64), char_of (0x80 + n mod 64)]
      else if n < 0x10000 then
        [char_of (0xE0 + n div 4096), char_of (0x80 + n div 64 mod 64), char_of (0x80 + n mod 64)]
      else [char_of (0xF0 + n div 262144), char_of (0x80 + n div 4096 mod 64),
            char_of (0x80 + n div 64 mod 64), char_of (0x80 + n mod 64)])"

text \<open>After \<^verbatim>\<open>\u\<close>: a surrogate needs its other half in a second escape, or it is replaced.\<close>

definition unicode_step :: "string \<Rightarrow> (string \<times> string) option" where
  "unicode_step u =
     (case hex4 u of
        None \<Rightarrow> None
      | Some (n, v) \<Rightarrow>
          if n < 0xD800 \<or> 0xE000 \<le> n then Some (encode_rune n, v)
          else if take 2 v = [CHR 0x5C, CHR ''u''] then
            (case hex4 (drop 2 v) of
               Some (m, w) \<Rightarrow>
                 if n < 0xDC00 \<and> 0xDC00 \<le> m \<and> m < 0xE000
                 then Some (encode_rune (0x10000 + (n - 0xD800) * 0x400 + (m - 0xDC00)), w)
                 else Some (replacement, v)
             | None \<Rightarrow> Some (replacement, v))
          else Some (replacement, v))"

definition escape_step :: "string \<Rightarrow> (string \<times> string) option" where
  "escape_step r =
     (case r of
        [] \<Rightarrow> None
      | e # u \<Rightarrow>
          if e = CHR 0x22 \<or> e = CHR 0x5C \<or> e = CHR ''/'' then Some ([e], u)
          else if e = CHR ''b'' then Some ([CHR 0x08], u)
          else if e = CHR ''f'' then Some ([CHR 0x0C], u)
          else if e = CHR ''n'' then Some ([CHR 0x0A], u)
          else if e = CHR ''r'' then Some ([CHR 0x0D], u)
          else if e = CHR ''t'' then Some ([CHR 0x09], u)
          else if e = CHR ''u'' then unicode_step u
          else None)"

text \<open>One rune or escape of a string; control characters are not allowed, invalid UTF-8 is replaced.\<close>

definition string_step :: "string \<Rightarrow> (string \<times> string) option" where
  "string_step s =
     (case s of
        [] \<Rightarrow> None
      | c # r \<Rightarrow>
          if c = CHR 0x5C then escape_step r
          else if code c < 0x20 then None
          else (case rune_len s of
                  Some k \<Rightarrow> Some (take k s, drop k s)
                | None \<Rightarrow> Some (replacement, r)))"

lemma hex_digits_bounds: "hex_digits i n s = Some (m, t) \<Longrightarrow> length t \<le> length s \<and> m < (n + 1) * 16 ^ i"
proof (induction i n s rule: hex_digits.induct)
  case (3 i n c s)
  then obtain d where d: "hex_value c = Some d" "hex_digits i (n * 16 + d) s = Some (m, t)"
    by (auto split: option.splits)
  have "d < 16" using d(1) by (auto simp: hex_value_def Let_def split: if_splits)
  then have "(n * 16 + d + 1) * 16 ^ i \<le> ((n + 1) * 16) * 16 ^ i" by (intro mult_right_mono) simp_all
  also have "\<dots> = (n + 1) * 16 ^ Suc i" by (simp only: power_Suc mult.assoc)
  finally show ?case using "3.IH" [OF d] by (auto simp del: power_Suc)
qed simp_all

lemma hex4_bounds: "hex4 s = Some (m, t) \<Longrightarrow> length t \<le> length s \<and> m < 0x10000"
  using hex_digits_bounds [of _ 0 s m t] unfolding hex4_def by fastforce

lemma string_step_shorter: "string_step s = Some (p, t) \<Longrightarrow> length t < length s"
proof -
  have u: "unicode_step u = Some (p, t) \<Longrightarrow> length t \<le> length u" for u p t
    by (auto simp: unicode_step_def split: option.splits prod.splits if_splits dest!: hex4_bounds)
  have "escape_step u = Some (p, t) \<Longrightarrow> length t \<le> length u" for u p t
    using u by (auto simp: escape_step_def le_Suc_eq split: list.splits if_splits)
  then show "string_step s = Some (p, t) \<Longrightarrow> length t < length s"
    by (auto simp: string_step_def le_imp_less_Suc split: list.splits if_splits option.splits dest!: rune_len_bounds)
qed

text \<open>A string from after its opening quote: its value and what follows the closing quote.\<close>

function decode_string :: "string \<Rightarrow> (string \<times> string) option" where
  "decode_string s =
     (if s \<noteq> [] \<and> hd s = CHR 0x22 then Some ([], tl s)
      else (case string_step s of
              None \<Rightarrow> None
            | Some (p, t) \<Rightarrow> map_option (\<lambda>(v, u). (p @ v, u)) (decode_string t)))"
  by pat_completeness auto
termination
  by (relation "measure length") (auto dest: string_step_shorter)

declare decode_string.simps [simp del]

lemma decode_string_shorter: "decode_string s = Some (v, t) \<Longrightarrow> length t < length s"
proof (induction s arbitrary: v rule: decode_string.induct)
  case (1 s)
  show ?case
  proof (cases "s \<noteq> [] \<and> hd s = CHR 0x22")
    case True
    then have "t = tl s" using "1.prems" by (simp add: decode_string.simps [of s])
    then show ?thesis using True by (cases s) simp_all
  next
    case False
    then obtain p u w where "string_step s = Some (p, u)" "decode_string u = Some (w, t)"
      using "1.prems" by (auto simp: decode_string.simps [of s] split: option.splits)
    then show ?thesis using "1.IH" [OF False] string_step_shorter by fastforce
  qed
qed

text \<open>Decoding only produces texts, and it undoes quoting.\<close>

lemma replacement_text [simp]: "is_text replacement"
  by (rule is_text_single) (simp add: replacement_def is_rune_def rune_len_def rune_info_def in_bytes_def)

lemma char_code: "n < 256 \<Longrightarrow> code (char_of n) = n"
  by simp

lemma rune_two: "2 \<le> (a :: nat) \<Longrightarrow> a < 32 \<Longrightarrow> b < 64 \<Longrightarrow> is_rune [char_of (0xC0 + a), char_of (0x80 + b :: nat)]"
  using char_code [of "0xC0 + a"] char_code [of "0x80 + b"]
  by (simp add: is_rune_def rune_len_def rune_info_def in_bytes_def)

lemma rune_three:
  fixes a b c :: nat
  assumes "a < 16" and "b < 64" and "c < 64" and "a = 0 \<Longrightarrow> 32 \<le> b" and "a = 13 \<Longrightarrow> b < 32"
  shows "is_rune [char_of (0xE0 + a), char_of (0x80 + b), char_of (0x80 + c)]"
proof -
  have codes: "code (char_of (0xE0 + a)) = 0xE0 + a" "code (char_of (0x80 + b)) = 0x80 + b"
    "code (char_of (0x80 + c)) = 0x80 + c" using assms(1-3) by (auto intro!: char_code)
  consider "a = 0" | "a = 13" | "a \<noteq> 0" "a \<noteq> 13" by blast
  then have "rune_info (0xE0 + a) = Some (3, if a = 0 then 0xA0 else 0x80, if a = 13 then 0x9F else 0xBF)"
    by cases (use assms(1) in \<open>auto simp: rune_info_def\<close>)
  then show ?thesis using assms by (auto simp: is_rune_def rune_len_def codes in_bytes_def)
qed

lemma rune_four:
  fixes a b c d :: nat
  assumes "a < 5" and "b < 64" and "c < 64" and "d < 64" and "a = 0 \<Longrightarrow> 16 \<le> b" and "a = 4 \<Longrightarrow> b < 16"
  shows "is_rune [char_of (0xF0 + a), char_of (0x80 + b), char_of (0x80 + c), char_of (0x80 + d)]"
proof -
  have codes: "code (char_of (0xF0 + a)) = 0xF0 + a" "code (char_of (0x80 + b)) = 0x80 + b"
    "code (char_of (0x80 + c)) = 0x80 + c" "code (char_of (0x80 + d)) = 0x80 + d"
    using assms(1-4) by (auto intro!: char_code)
  consider "a = 0" | "a = 4" | "a \<noteq> 0" "a \<noteq> 4" by blast
  then have "rune_info (0xF0 + a) = Some (4, if a = 0 then 0x90 else 0x80, if a = 4 then 0x8F else 0xBF)"
    by cases (use assms(1) in \<open>auto simp: rune_info_def\<close>)
  then show ?thesis using assms by (auto simp: is_rune_def rune_len_def codes in_bytes_def)
qed

lemma encode_rune_valid:
  assumes "n < 0x110000" and "n < 0xD800 \<or> 0xE000 \<le> n"
  shows "is_rune (encode_rune n)"
proof -
  consider "n < 0x80" | "0x80 \<le> n" "n < 0x800" | "0x800 \<le> n" "n < 0x10000" | "0x10000 \<le> n" by linarith
  then show ?thesis
  proof cases
    case 1
    then show ?thesis by (simp add: encode_rune_def is_rune_ascii)
  next
    case 2
    then have "2 \<le> n div 64" "n div 64 < 32" by auto
    then show ?thesis using 2 rune_two [of "n div 64" "n mod 64"] by (simp add: encode_rune_def)
  next
    case 3
    have split: "n div 64 = 64 * (n div 4096) + n div 64 mod 64"
      using div_mult2_eq [of n 64 64] mult_div_mod_eq [of 64 "n div 64"] by simp
    have "32 \<le> n div 64" using 3 div_le_mono [of "0x800" n 64] by simp
    moreover have "n div 64 < 864 \<or> 896 \<le> n div 64"
      using assms(2) div_le_mono [of "0xE000" n 64] by (auto simp: less_mult_imp_div_less)
    ultimately have "n div 4096 = 0 \<Longrightarrow> 32 \<le> n div 64 mod 64" "n div 4096 = 13 \<Longrightarrow> n div 64 mod 64 < 32"
      using split mod_less_divisor [of 64 "n div 64"] by linarith+
    then show ?thesis using 3 rune_three [of "n div 4096" "n div 64 mod 64" "n mod 64"] by (simp add: encode_rune_def)
  next
    case 4
    have split: "n div 4096 = 64 * (n div 262144) + n div 4096 mod 64"
      using div_mult2_eq [of n 4096 64] mult_div_mod_eq [of 64 "n div 4096"] by simp
    have "16 \<le> n div 4096" using 4 div_le_mono [of "0x10000" n 4096] by simp
    moreover have "n div 4096 < 272" using assms(1) by (simp add: less_mult_imp_div_less)
    ultimately have "n div 262144 = 0 \<Longrightarrow> 16 \<le> n div 4096 mod 64" "n div 262144 = 4 \<Longrightarrow> n div 4096 mod 64 < 16"
      "n div 262144 < 5"
      using split by linarith+
    then show ?thesis using 4 rune_four [of "n div 262144" "n div 4096 mod 64" "n div 64 mod 64" "n mod 64"]
      by (simp add: encode_rune_def)
  qed
qed

lemma unicode_step_text: "unicode_step u = Some (p, t) \<Longrightarrow> is_text p"
  by (auto simp: unicode_step_def split: option.splits prod.splits if_splits dest!: hex4_bounds
      intro!: is_text_single encode_rune_valid)

lemma escape_step_text: "escape_step r = Some (p, t) \<Longrightarrow> is_text p"
  by (auto simp: escape_step_def split: list.splits if_splits intro: is_text_ascii dest: unicode_step_text)

lemma string_step_text: "string_step s = Some (p, t) \<Longrightarrow> is_text p"
  by (auto simp: string_step_def split: list.splits if_splits option.splits
      intro: escape_step_text is_text_single is_rune_take)

lemma decode_string_text: "decode_string s = Some (v, t) \<Longrightarrow> is_text v"
proof (induction s arbitrary: v rule: decode_string.induct)
  case (1 s)
  show ?case
  proof (cases "s \<noteq> [] \<and> hd s = CHR 0x22")
    case True
    then show ?thesis using "1.prems" by (simp add: decode_string.simps [of s])
  next
    case False
    then obtain p u w where step: "string_step s = Some (p, u)" "decode_string u = Some (w, t)" "v = p @ w"
      using "1.prems" by (auto simp: decode_string.simps [of s] split: option.splits)
    then show ?thesis using "1.IH" [OF False] string_step_text is_text_append by fastforce
  qed
qed

lemma decode_step:
  assumes "s \<noteq> []" and "hd s \<noteq> CHR 0x22" and "string_step s = Some (p, t)"
  shows "decode_string s = map_option (\<lambda>(v, u). (p @ v, u)) (decode_string t)"
  using assms by (subst decode_string.simps) simp

lemma hex_of_byte: "n < 16 \<Longrightarrow> hex_value (digit_char n) = Some n"
  by (rule hex_value_digit_char)

lemma quote_ascii_step:
  assumes "code c < 0x80"
  shows "string_step (quote_ascii c @ t) = Some ([c], t) \<and> quote_ascii c \<noteq> [] \<and> hd (quote_ascii c) \<noteq> CHR 0x22"
proof (cases "quote_ascii c = [c]")
  case True
  then have "c \<noteq> CHR 0x5C" "c \<noteq> CHR 0x22" "\<not> code c < 0x20" by (auto simp: quote_ascii_def split: if_splits)
  then show ?thesis using True rune_len_append [OF is_rune_ascii [OF assms], of t] by (simp add: string_step_def)
next
  case False
  note esc = this
  have hex: "unicode_step (CHR ''0'' # CHR ''0'' # digit_char (code c div 16) # digit_char (code c mod 16) # t) = Some ([c], t)"
  proof -
    have "code c div 16 < 16" "code c mod 16 < 16" using assms by auto
    moreover have "hex_value (CHR ''0'') = Some 0" by (simp add: hex_value_def)
    ultimately have "hex4 (CHR ''0'' # CHR ''0'' # digit_char (code c div 16) # digit_char (code c mod 16) # t) = Some (code c, t)"
      by (simp add: hex4_def hex_of_byte)
    then show ?thesis using assms by (simp add: unicode_step_def encode_rune_def)
  qed
  show ?thesis
  proof (cases "quote_ascii c = [CHR 0x5C, CHR ''u'', CHR ''0'', CHR ''0'', digit_char (code c div 16), digit_char (code c mod 16)]")
    case True
    then show ?thesis using hex by (simp add: string_step_def escape_step_def)
  next
    case False
    then show ?thesis using esc by (auto simp: quote_ascii_def string_step_def escape_step_def split: if_splits)
  qed
qed

lemma separators:
  "char_of (226 :: nat) = CHR 0xE2" "char_of (128 :: nat) = CHR 0x80"
  "char_of (168 :: nat) = CHR 0xA8" "char_of (169 :: nat) = CHR 0xA9"
  by code_simp+

lemma quote_rune_step:
  assumes "is_rune r"
  shows "string_step (quote_rune r @ t) = Some (r, t) \<and> quote_rune r \<noteq> [] \<and> hd (quote_rune r) \<noteq> CHR 0x22"
proof -
  obtain a u where r: "r = a # u" using assms by (cases r) auto
  show ?thesis
  proof (cases "code a < 0x80")
    case True
    then have "u = []" using assms by (auto simp: is_rune_def rune_len_def r)
    then show ?thesis using True assms quote_ascii_step [OF True, of t] by (simp add: quote_rune_def r)
  next
    case False
    then have plain: "a \<noteq> CHR 0x5C" "a \<noteq> CHR 0x22" "\<not> code a < 0x20" by auto
    show ?thesis
    proof (cases "quote_rune r = r")
      case True
      then show ?thesis using plain rune_len_append [OF assms, of t] by (simp add: string_step_def r)
    next
      case False
      then consider "r = [CHR 0xE2, CHR 0x80, CHR 0xA8]" | "r = [CHR 0xE2, CHR 0x80, CHR 0xA9]"
        using assms \<open>\<not> code a < 0x80\<close> by (auto simp: quote_rune_def r split: if_splits)
      then show ?thesis
        by cases (use assms in \<open>simp_all add: quote_rune_def string_step_def escape_step_def unicode_step_def hex4_def
            hex_value_def encode_rune_def separators\<close>)
    qed
  qed
qed

lemma decode_quoted:
  "is_text s \<Longrightarrow> decode_string (concat (map quote_rune (split_runes s)) @ CHR 0x22 # t) = Some (s, t)"
proof (induction s rule: is_text_induct)
  case Nil
  then show ?case by (simp add: decode_string.simps)
next
  case (rune r s)
  let ?rest = "concat (map quote_rune (split_runes s)) @ CHR 0x22 # t"
  note step = quote_rune_step [OF rune.hyps(1), of ?rest]
  have "decode_string (quote_rune r @ ?rest) = map_option (\<lambda>(v, u). (r @ v, u)) (decode_string ?rest)"
    by (rule decode_step) (use step in auto)
  then show ?case using rune by (simp add: split_runes_rune)
qed

end
