(* ===== verification/GoJSON_Value.thy ===== *)
theory GoJSON_Value
  imports GoJSON
begin

text \<open>
  The parser of JSON values, which accepts what the scanner of \<^verbatim>\<open>encoding/json\<close> accepts, and the round
  trip: the text the encoder writes for a value is parsed back to that value.
\<close>

section \<open>Numbers\<close>

definition digits :: "string \<Rightarrow> string \<times> string" where
  "digits s = (takeWhile is_digit s, dropWhile is_digit s)"

definition parse_int :: "string \<Rightarrow> (string \<times> string) option" where
  "parse_int s =
     (case s of
        [] \<Rightarrow> None
      | c # r \<Rightarrow>
          if c = CHR ''0'' then Some ([c], r)
          else if is_digit c then Some (digits s)
          else None)"

text \<open>The optional fraction and exponent; once begun they need a digit.\<close>

definition parse_frac :: "string \<Rightarrow> (string \<times> string) option" where
  "parse_frac s =
     (if s \<noteq> [] \<and> hd s = CHR ''.'' then
        (case digits (tl s) of (ds, r) \<Rightarrow> if ds = [] then None else Some (CHR ''.'' # ds, r))
      else Some ([], s))"

definition parse_exp :: "string \<Rightarrow> (string \<times> string) option" where
  "parse_exp s =
     (if s \<noteq> [] \<and> (hd s = CHR ''e'' \<or> hd s = CHR ''E'') then
        let t = tl s;
            sign = (if t \<noteq> [] \<and> (hd t = CHR ''+'' \<or> hd t = CHR ''-'') then [hd t] else [])
        in (case digits (drop (length sign) t) of
              (ds, r) \<Rightarrow> if ds = [] then None else Some (hd s # sign @ ds, r))
      else Some ([], s))"

definition parse_number :: "string \<Rightarrow> (string \<times> string) option" where
  "parse_number s =
     (let sign = (if s \<noteq> [] \<and> hd s = CHR ''-'' then ''-'' else [])
      in case parse_int (drop (length sign) s) of
           None \<Rightarrow> None
         | Some (i, s1) \<Rightarrow>
             (case parse_frac s1 of
                None \<Rightarrow> None
              | Some (f, s2) \<Rightarrow>
                  (case parse_exp s2 of None \<Rightarrow> None | Some (x, s3) \<Rightarrow> Some (sign @ i @ f @ x, s3))))"

section \<open>Values\<close>

definition json_space :: "char \<Rightarrow> bool" where
  "json_space c \<longleftrightarrow> c = CHR 0x20 \<or> c = CHR 0x09 \<or> c = CHR 0x0D \<or> c = CHR 0x0A"

definition skip_ws :: "string \<Rightarrow> string" where
  "skip_ws s = dropWhile json_space s"

definition parse_scalar :: "string \<Rightarrow> (json \<times> string) option" where
  "parse_scalar s =
     (case strip ''null'' s of
        Some r \<Rightarrow> Some (JNull, r)
      | None \<Rightarrow>
          (case strip ''true'' s of
             Some r \<Rightarrow> Some (JBool True, r)
           | None \<Rightarrow>
               (case strip ''false'' s of
                  Some r \<Rightarrow> Some (JBool False, r)
                | None \<Rightarrow> map_option (\<lambda>(t, r). (JNumber t, r)) (parse_number s))))"

lemma skip_ws_shorter: "skip_ws s = c # r \<Longrightarrow> length r < length s"
  using length_dropWhile_le [of json_space s] by (simp add: skip_ws_def)

text \<open>
  A value with at most \<open>d\<close> nested arrays and objects. The length tests are there for termination and never
  fail (\<open>parse_shorter\<close> below).
\<close>

function (sequential) parse_value :: "nat \<Rightarrow> string \<Rightarrow> (json \<times> string) option"
  and parse_elements :: "nat \<Rightarrow> string \<Rightarrow> (json list \<times> string) option"
  and parse_members :: "nat \<Rightarrow> string \<Rightarrow> ((string \<times> json) list \<times> string) option" where
  "parse_value d s =
     (case skip_ws s of
        [] \<Rightarrow> None
      | c # r \<Rightarrow>
          if c = CHR 0x22 then map_option (\<lambda>(t, u). (JString t, u)) (decode_string r)
          else if c = CHR ''['' then
            (if d = 0 then None
             else (case skip_ws r of
                     [] \<Rightarrow> None
                   | b # u \<Rightarrow> if b = CHR '']'' then Some (JArray [], u)
                             else map_option (\<lambda>(vs, u). (JArray vs, u)) (parse_elements (d - 1) r)))
          else if c = CHR ''{'' then
            (if d = 0 then None
             else (case skip_ws r of
                     [] \<Rightarrow> None
                   | b # u \<Rightarrow> if b = CHR ''}'' then Some (JObject [], u)
                             else map_option (\<lambda>(kvs, u). (JObject kvs, u)) (parse_members (d - 1) r)))
          else parse_scalar (c # r))"
| "parse_elements d s =
     (case parse_value d s of
        None \<Rightarrow> None
      | Some (v, r) \<Rightarrow>
          (case skip_ws r of
             [] \<Rightarrow> None
           | b # u \<Rightarrow>
               if b = CHR '']'' then Some ([v], u)
               else if b = CHR '','' \<and> length u < length s
               then map_option (\<lambda>(vs, w). (v # vs, w)) (parse_elements d u)
               else None))"
| "parse_members d s =
     (case skip_ws s of
        [] \<Rightarrow> None
      | q # s1 \<Rightarrow>
          if q \<noteq> CHR 0x22 then None
          else (case decode_string s1 of
                  None \<Rightarrow> None
                | Some (k, s2) \<Rightarrow>
                    (case skip_ws s2 of
                       [] \<Rightarrow> None
                     | col # s3 \<Rightarrow>
                         if col \<noteq> CHR '':'' \<or> \<not> length s3 < length s then None
                         else (case parse_value d s3 of
                                 None \<Rightarrow> None
                               | Some (v, r) \<Rightarrow>
                                   (case skip_ws r of
                                      [] \<Rightarrow> None
                                    | b # u \<Rightarrow>
                                        if b = CHR ''}'' then Some ([(k, v)], u)
                                        else if b = CHR '','' \<and> length u < length s
                                        then map_option (\<lambda>(kvs, w). ((k, v) # kvs, w)) (parse_members d u)
                                        else None)))))"
  by pat_completeness auto
termination
  by (relation "measure (\<lambda>x. case x of Inl (d, s) \<Rightarrow> 2 * length s
                                    | Inr (Inl (d, s)) \<Rightarrow> 2 * length s + 1
                                    | Inr (Inr (d, s)) \<Rightarrow> 2 * length s + 1)")
    (auto dest: skip_ws_shorter)

declare parse_value.simps [simp del] parse_elements.simps [simp del] parse_members.simps [simp del]

text \<open>\<^verbatim>\<open>json.Unmarshal\<close> before it stores anything: nesting is limited to 10000 levels.\<close>

datatype json_error = SyntaxError | TypeError

definition parse_json :: "string \<Rightarrow> json_error + json" where
  "parse_json s =
     (case parse_value 10000 s of
        Some (v, r) \<Rightarrow> if skip_ws r = [] then Inr v else Inl SyntaxError
      | None \<Rightarrow> Inl SyntaxError)"

section \<open>Consumption\<close>

lemma digits_shorter: "digits s = (a, r) \<Longrightarrow> length r \<le> length s"
  by (auto simp: digits_def length_dropWhile_le)

lemma parse_int_shorter: "parse_int s = Some (a, r) \<Longrightarrow> length r < length s"
proof (cases s)
  case (Cons c u)
  assume "parse_int s = Some (a, r)"
  moreover have "is_digit c \<Longrightarrow> length (dropWhile is_digit s) < length s"
    using length_dropWhile_le [of is_digit u] by (simp add: Cons)
  ultimately show ?thesis by (auto simp: parse_int_def Cons digits_def split: if_splits)
qed (simp add: parse_int_def)

lemma parse_frac_shorter: "parse_frac s = Some (a, r) \<Longrightarrow> length r \<le> length s"
  using digits_shorter [of "tl s"] by (fastforce simp: parse_frac_def split: if_splits prod.splits)

lemma drop_shorter: "length r \<le> length (drop n s) \<Longrightarrow> length r \<le> length s"
  by simp

lemma parse_exp_shorter: "parse_exp s = Some (a, r) \<Longrightarrow> length r \<le> length s"
proof -
  assume parse: "parse_exp s = Some (a, r)"
  show ?thesis
  proof (cases "s \<noteq> [] \<and> (hd s = CHR ''e'' \<or> hd s = CHR ''E'')")
    case True
    define n where "n = length (if tl s \<noteq> [] \<and> (hd (tl s) = CHR ''+'' \<or> hd (tl s) = CHR ''-'') then [hd (tl s)] else [])"
    have "\<exists>ds. digits (drop n (tl s)) = (ds, r)"
      using parse True by (auto simp: parse_exp_def n_def split: if_splits prod.splits)
    then have "length r \<le> length (drop n (tl s))" using digits_shorter by blast
    then show ?thesis by simp
  next
    case False
    then show ?thesis using parse by (auto simp: parse_exp_def)
  qed
qed

lemma parse_number_shorter: "parse_number s = Some (a, r) \<Longrightarrow> length r < length s"
proof -
  assume parse: "parse_number s = Some (a, r)"
  define n where "n = length (if s \<noteq> [] \<and> hd s = CHR ''-'' then ''-'' else [])"
  obtain i s1 f s2 x where int: "parse_int (drop n s) = Some (i, s1)" and frac: "parse_frac s1 = Some (f, s2)"
    and exp: "parse_exp s2 = Some (x, r)"
    using parse by (auto simp: parse_number_def Let_def n_def split: option.splits)
  show ?thesis using parse_int_shorter [OF int] parse_frac_shorter [OF frac] parse_exp_shorter [OF exp] by simp
qed

lemma parse_scalar_shorter: "parse_scalar s = Some (v, r) \<Longrightarrow> length r < length s"
  by (auto simp: parse_scalar_def strip_Some dest: parse_number_shorter split: option.splits)

section \<open>Grammar\<close>

text \<open>
  What the parser accepts, as a grammar: a value, the rest of an array, the rest of an object, with the
  nesting that is left, the text, what it means and what follows it.
\<close>

inductive value_text :: "nat \<Rightarrow> string \<Rightarrow> json \<Rightarrow> string \<Rightarrow> bool"
  and elements_text :: "nat \<Rightarrow> string \<Rightarrow> json list \<Rightarrow> string \<Rightarrow> bool"
  and members_text :: "nat \<Rightarrow> string \<Rightarrow> (string \<times> json) list \<Rightarrow> string \<Rightarrow> bool" where
  string_text: "skip_ws s = CHR 0x22 # u \<Longrightarrow> decode_string u = Some (t, r) \<Longrightarrow> value_text d s (JString t) r"
| empty_array: "skip_ws s = CHR ''['' # u \<Longrightarrow> d \<noteq> 0 \<Longrightarrow> skip_ws u = CHR '']'' # r \<Longrightarrow> value_text d s (JArray []) r"
| array_text: "skip_ws s = CHR ''['' # u \<Longrightarrow> d \<noteq> 0 \<Longrightarrow> elements_text (d - 1) u vs r \<Longrightarrow> value_text d s (JArray vs) r"
| empty_object: "skip_ws s = CHR ''{'' # u \<Longrightarrow> d \<noteq> 0 \<Longrightarrow> skip_ws u = CHR ''}'' # r \<Longrightarrow> value_text d s (JObject []) r"
| object_text: "skip_ws s = CHR ''{'' # u \<Longrightarrow> d \<noteq> 0 \<Longrightarrow> members_text (d - 1) u kvs r \<Longrightarrow> value_text d s (JObject kvs) r"
| scalar_text: "skip_ws s = u \<Longrightarrow> parse_scalar u = Some (v, r) \<Longrightarrow> value_text d s v r"
| last_element: "value_text d s v r1 \<Longrightarrow> skip_ws r1 = CHR '']'' # r \<Longrightarrow> elements_text d s [v] r"
| more_elements: "value_text d s v r1 \<Longrightarrow> skip_ws r1 = CHR '','' # u \<Longrightarrow> elements_text d u vs r
    \<Longrightarrow> elements_text d s (v # vs) r"
| last_member: "skip_ws s = CHR 0x22 # s1 \<Longrightarrow> decode_string s1 = Some (k, s2) \<Longrightarrow> skip_ws s2 = CHR '':'' # s3
    \<Longrightarrow> value_text d s3 v r1 \<Longrightarrow> skip_ws r1 = CHR ''}'' # r \<Longrightarrow> members_text d s [(k, v)] r"
| more_members: "skip_ws s = CHR 0x22 # s1 \<Longrightarrow> decode_string s1 = Some (k, s2) \<Longrightarrow> skip_ws s2 = CHR '':'' # s3
    \<Longrightarrow> value_text d s3 v r1 \<Longrightarrow> skip_ws r1 = CHR '','' # u \<Longrightarrow> members_text d u kvs r \<Longrightarrow> members_text d s ((k, v) # kvs) r"

lemma parse_grammar:
  "parse_value d s = Some (v, r) \<Longrightarrow> value_text d s v r"
  "parse_elements d s = Some (vs, r) \<Longrightarrow> elements_text d s vs r"
  "parse_members d s = Some (kvs, r) \<Longrightarrow> members_text d s kvs r"
proof (induction d s and d s and d s arbitrary: v r and vs r and kvs r
    rule: parse_value_parse_elements_parse_members.induct)
  case (1 d s)
  then show ?case
    by (auto simp: parse_value.simps [of d s] intro: value_text_elements_text_members_text.intros
        split: list.splits if_splits)
next
  case (2 d s)
  then show ?case
    by (fastforce simp: parse_elements.simps [of d s] intro: last_element more_elements
        split: option.splits list.splits if_splits)
next
  case (3 d s)
  then show ?case
    by (fastforce simp: parse_members.simps [of d s] intro: last_member more_members
        split: option.splits list.splits if_splits)
qed

lemma grammar_shorter:
  "value_text d s v r \<Longrightarrow> length r < length s"
  "elements_text d s vs r \<Longrightarrow> length r < length s"
  "members_text d s kvs r \<Longrightarrow> length r < length s"
proof (induction rule: value_text_elements_text_members_text.inducts)
  case (scalar_text s u v r d)
  have "length u \<le> length s" using scalar_text(1) by (auto simp: skip_ws_def length_dropWhile_le)
  then show ?case using parse_scalar_shorter [OF scalar_text(2)] by simp
qed (fastforce dest: skip_ws_shorter decode_string_shorter)+

lemmas parse_shorter = parse_grammar(1) [THEN grammar_shorter(1)] parse_grammar(2) [THEN grammar_shorter(2)]
  parse_grammar(3) [THEN grammar_shorter(3)]

section \<open>Texts\<close>

fun json_texts :: "json \<Rightarrow> bool" where
  "json_texts (JString s) = is_text s"
| "json_texts (JArray vs) = list_all json_texts vs"
| "json_texts (JObject kvs) = list_all (\<lambda>(k, v). is_text k \<and> json_texts v) kvs"
| "json_texts v = True"

lemma parse_scalar_texts: "parse_scalar s = Some (v, r) \<Longrightarrow> json_texts v"
  by (auto simp: parse_scalar_def split: option.splits)

lemma grammar_texts:
  "value_text d s v r \<Longrightarrow> json_texts v"
  "elements_text d s vs r \<Longrightarrow> list_all json_texts vs"
  "members_text d s kvs r \<Longrightarrow> list_all (\<lambda>(k, v). is_text k \<and> json_texts v) kvs"
  by (induction rule: value_text_elements_text_members_text.inducts)
    (auto dest: decode_string_text parse_scalar_texts)

lemmas parse_texts = parse_grammar(1) [THEN grammar_texts(1)] parse_grammar(2) [THEN grammar_texts(2)]
  parse_grammar(3) [THEN grammar_texts(3)]

section \<open>Printing and parsing\<close>

text \<open>What can follow a value of compact text, and the values that are printed and parsed with nesting \<open>d\<close>.\<close>

definition stops :: "string \<Rightarrow> bool" where
  "stops r \<longleftrightarrow> r = [] \<or> hd r \<in> {CHR '','', CHR '']'', CHR ''}''}"

fun printable_json :: "nat \<Rightarrow> json \<Rightarrow> bool" where
  "printable_json d (JNumber t) = (parse_number t = Some (t, []))"
| "printable_json d (JString s) = is_text s"
| "printable_json d (JArray vs) = (d \<noteq> 0 \<and> list_all (printable_json (d - 1)) vs)"
| "printable_json d (JObject kvs) = (d \<noteq> 0 \<and> list_all (\<lambda>(k, v). is_text k \<and> printable_json (d - 1) v) kvs)"
| "printable_json d v = True"

lemma stops_simps [simp]: "stops []" "stops (CHR '','' # r)" "stops (CHR '']'' # r)" "stops (CHR ''}'' # r)"
  by (simp_all add: stops_def)

lemma stops_not_digit: "stops r \<Longrightarrow> r \<noteq> [] \<Longrightarrow> \<not> is_digit (hd r)"
  by (auto simp: stops_def is_digit_def)

lemma digits_append: "digits s = (a, u) \<Longrightarrow> stops r \<Longrightarrow> digits (s @ r) = (a, u @ r)"
proof -
  assume d: "digits s = (a, u)" and r: "stops r"
  have "takeWhile is_digit r = [] \<and> dropWhile is_digit r = r" using stops_not_digit [OF r] by (cases r) auto
  then show ?thesis using d
    by (cases "\<forall>c \<in> set s. is_digit c")
      (auto simp: digits_def takeWhile_append dropWhile_append dropWhile_eq_Nil_conv dest: takeWhile_eq_all_conv [THEN iffD2, symmetric])
qed

lemma parse_int_append: "parse_int s = Some (a, u) \<Longrightarrow> stops r \<Longrightarrow> parse_int (s @ r) = Some (a, u @ r)"
  by (cases s) (auto simp: parse_int_def dest: digits_append split: if_splits)

lemma parse_frac_append: "parse_frac s = Some (a, u) \<Longrightarrow> stops r \<Longrightarrow> parse_frac (s @ r) = Some (a, u @ r)"
proof (cases s)
  case Nil
  assume "parse_frac s = Some (a, u)" and "stops r"
  then show ?thesis by (auto simp: Nil parse_frac_def stops_def)
next
  case (Cons c w)
  assume "parse_frac s = Some (a, u)" and r: "stops r"
  then show ?thesis using digits_append [of w _ _ r]
    by (auto simp: Cons parse_frac_def split: if_splits prod.splits)
qed

lemma parse_exp_append: "parse_exp s = Some (a, u) \<Longrightarrow> stops r \<Longrightarrow> parse_exp (s @ r) = Some (a, u @ r)"
proof (cases s)
  case Nil
  assume "parse_exp s = Some (a, u)" and "stops r"
  then show ?thesis by (auto simp: Nil parse_exp_def stops_def)
next
  case (Cons c w)
  assume parse: "parse_exp s = Some (a, u)" and r: "stops r"
  show ?thesis
  proof (cases "c = CHR ''e'' \<or> c = CHR ''E''")
    case True
    then have "w \<noteq> []" using parse by (auto simp: Cons parse_exp_def digits_def)
    then obtain b v where w: "w = b # v" by (cases w) auto
    show ?thesis using parse digits_append [of v _ _ r] digits_append [of w _ _ r] r True
      by (auto simp: Cons w parse_exp_def Let_def split: if_splits prod.splits)
  next
    case False
    then show ?thesis using parse by (auto simp: Cons parse_exp_def)
  qed
qed

lemma parse_number_append: "parse_number s = Some (a, u) \<Longrightarrow> stops r \<Longrightarrow> parse_number (s @ r) = Some (a, u @ r)"
proof -
  assume parse: "parse_number s = Some (a, u)" and r: "stops r"
  then have "s \<noteq> []" by (auto simp: parse_number_def parse_int_def)
  then have sign: "(s @ r \<noteq> [] \<and> hd (s @ r) = CHR ''-'') = (s \<noteq> [] \<and> hd s = CHR ''-'')" by simp
  have drop: "drop (length (if s \<noteq> [] \<and> hd s = CHR ''-'' then ''-'' else [])) (s @ r)
      = drop (length (if s \<noteq> [] \<and> hd s = CHR ''-'' then ''-'' else [])) s @ r"
    using \<open>s \<noteq> []\<close> by (cases s) auto
  obtain i s1 f s2 x where i: "parse_int (drop (length (if s \<noteq> [] \<and> hd s = CHR ''-'' then ''-'' else [])) s) = Some (i, s1)"
    and f: "parse_frac s1 = Some (f, s2)" and x: "parse_exp s2 = Some (x, u)"
    and a: "a = (if s \<noteq> [] \<and> hd s = CHR ''-'' then ''-'' else []) @ i @ f @ x"
    using parse by (auto simp: parse_number_def Let_def split: option.splits)
  show ?thesis unfolding parse_number_def Let_def sign drop
    using parse_int_append [OF i r] parse_frac_append [OF f r] parse_exp_append [OF x r] by (simp add: a)
qed

lemma parse_number_head: "parse_number t = Some (a, u) \<Longrightarrow> t \<noteq> [] \<and> (hd t = CHR ''-'' \<or> is_digit (hd t))"
proof -
  have zero: "is_digit (CHR ''0'')" by (simp add: is_digit_def)
  show "parse_number t = Some (a, u) \<Longrightarrow> ?thesis"
    by (cases t) (auto simp: parse_number_def parse_int_def Let_def zero split: option.splits if_splits)
qed

lemma json_print_head:
  "printable_json d v \<Longrightarrow> \<exists>c u. json_print v = c # u \<and> \<not> json_space c \<and> c \<noteq> CHR '']''"
proof (cases v)
  case (JNumber t)
  assume "printable_json d v"
  then have "parse_number t = Some (t, [])" by (simp add: JNumber)
  from parse_number_head [OF this] obtain c u where "t = c # u" "c = CHR ''-'' \<or> is_digit c" by (cases t) auto
  then show ?thesis by (auto simp: JNumber json_space_def is_digit_def)
qed (auto simp: quote_def json_space_def)

lemma skip_ws_head: "\<not> json_space c \<Longrightarrow> skip_ws (c # u) = c # u"
  by (simp add: skip_ws_def)

lemma skip_ws_print: "printable_json d v \<Longrightarrow> skip_ws (json_print v @ r) = json_print v @ r"
  using json_print_head [of d v] by (auto simp: skip_ws_head)

lemma not_space [simp]:
  "\<not> json_space (CHR '','')" "\<not> json_space (CHR '']'')" "\<not> json_space (CHR ''}'')" "\<not> json_space (CHR ''['')"
  "\<not> json_space (CHR ''{'')" "\<not> json_space (CHR '':'')" "\<not> json_space (CHR 0x22)" "\<not> json_space (CHR ''n'')"
  "\<not> json_space (CHR ''t'')" "\<not> json_space (CHR ''f'')"
  by (simp_all add: json_space_def)

lemma parse_elements_print:
  assumes "vs \<noteq> []" and "\<And>v r. v \<in> set vs \<Longrightarrow> stops r \<Longrightarrow> parse_value d (json_print v @ r) = Some (v, r)"
  shows "parse_elements d (join '','' (map json_print vs) @ CHR '']'' # r) = Some (vs, r)"
  using assms
proof (induction vs rule: list_nonempty_induct)
  case (single v)
  then show ?case by (simp add: parse_elements.simps skip_ws_head)
next
  case (cons v vs)
  have "join '','' (map json_print (v # vs)) = json_print v @ CHR '','' # join '','' (map json_print vs)"
    using cons.hyps by (cases vs) simp_all
  moreover have "parse_elements d (join '','' (map json_print vs) @ CHR '']'' # r) = Some (vs, r)"
    using cons by simp
  ultimately show ?case using cons.prems by (subst parse_elements.simps) (simp add: skip_ws_head)
qed

lemma parse_members_print:
  assumes "kvs \<noteq> []" and "\<And>k v r. (k, v) \<in> set kvs \<Longrightarrow> is_text k"
    and "\<And>k v r. (k, v) \<in> set kvs \<Longrightarrow> stops r \<Longrightarrow> parse_value d (json_print v @ r) = Some (v, r)"
  shows "parse_members d (join '','' (map (\<lambda>(k, v). quote k @ '':'' @ json_print v) kvs) @ CHR ''}'' # r) = Some (kvs, r)"
  using assms
proof (induction kvs rule: list_nonempty_induct)
  case (single kv)
  then show ?case
    by (cases kv) (simp add: parse_members.simps skip_ws_head quote_def decode_quoted)
next
  case (cons kv kvs)
  obtain k v where kv: "kv = (k, v)" by (cases kv)
  let ?print = "\<lambda>(k, v). quote k @ '':'' @ json_print v"
  have "join '','' (map ?print (kv # kvs)) = quote k @ CHR '':'' # json_print v @ CHR '','' # join '','' (map ?print kvs)"
    using cons.hyps by (cases kvs) (simp_all add: kv)
  moreover have "parse_members d (join '','' (map ?print kvs) @ CHR ''}'' # r) = Some (kvs, r)"
    using cons by (metis list.set_intros(2))
  ultimately show ?case using cons.prems(1) [of k v] cons.prems(2) [of k v]
    by (subst parse_members.simps) (simp add: skip_ws_head quote_def decode_quoted kv)
qed

lemma parse_number_print:
  assumes "parse_number t = Some (t, [])" and "stops r"
  shows "parse_value d (t @ r) = Some (JNumber t, r)"
proof -
  have number: "parse_number (t @ r) = Some (t, r)" using parse_number_append [of t t "[]" r] assms by simp
  obtain c u where t: "t = c # u" "c = CHR ''-'' \<or> is_digit c"
    using parse_number_head [of t t "[]"] assms(1) by (cases t) auto
  then have c: "\<not> json_space c" "c \<notin> {CHR 0x22, CHR ''['', CHR ''{'', CHR ''n'', CHR ''t'', CHR ''f''}"
    by (auto simp: json_space_def is_digit_def)
  then show ?thesis using number by (auto simp: t(1) parse_value.simps skip_ws_head parse_scalar_def)
qed

lemma parse_array_print:
  assumes "printable_json d (JArray vs)"
    and IH: "\<And>v r. v \<in> set vs \<Longrightarrow> stops r \<Longrightarrow> parse_value (d - 1) (json_print v @ r) = Some (v, r)"
  shows "parse_value d (json_print (JArray vs) @ r) = Some (JArray vs, r)"
proof (cases "vs = []")
  case True
  then show ?thesis using assms(1) by (simp add: parse_value.simps skip_ws_head)
next
  case False
  then obtain w ws where vs: "vs = w # ws" by (cases vs) auto
  then have "printable_json (d - 1) w" using assms(1) by simp
  then obtain c u where "json_print w = c # u" and c: "\<not> json_space c" "c \<noteq> CHR '']''" using json_print_head by blast
  then obtain u' where head: "join '','' (map json_print vs) @ CHR '']'' # r = c # u'" by (cases ws) (auto simp: vs)
  have "parse_elements (d - 1) (join '','' (map json_print vs) @ CHR '']'' # r) = Some (vs, r)"
    by (rule parse_elements_print [OF False IH])
  then show ?thesis using assms(1) c by (simp add: parse_value.simps [of d] skip_ws_head head)
qed

lemma parse_object_print:
  assumes "printable_json d (JObject kvs)"
    and IH: "\<And>k v r. (k, v) \<in> set kvs \<Longrightarrow> stops r \<Longrightarrow> parse_value (d - 1) (json_print v @ r) = Some (v, r)"
  shows "parse_value d (json_print (JObject kvs) @ r) = Some (JObject kvs, r)"
proof (cases "kvs = []")
  case True
  then show ?thesis using assms(1) by (simp add: parse_value.simps skip_ws_head)
next
  case False
  let ?print = "\<lambda>(k, v). quote k @ CHR '':'' # json_print v"
  obtain k w ws where kvs: "kvs = (k, w) # ws" using False by (cases kvs) auto
  then obtain u' where head: "join '','' (map ?print kvs) @ CHR ''}'' # r = CHR 0x22 # u'"
    by (cases ws) (auto simp: quote_def)
  have "parse_members (d - 1) (join '','' (map ?print kvs) @ CHR ''}'' # r) = Some (kvs, r)"
    using assms(1) by (intro parse_members_print [OF False, simplified] IH) (auto simp: list_all_iff)
  then show ?thesis using assms(1) by (simp add: parse_value.simps [of d] skip_ws_head head)
qed

theorem parse_print:
  "printable_json d v \<Longrightarrow> stops r \<Longrightarrow> parse_value d (json_print v @ r) = Some (v, r)"
proof (induction v arbitrary: d r)
  case (JNumber t)
  then show ?case by (simp add: parse_number_print)
next
  case (JString s)
  then show ?case by (simp add: parse_value.simps quote_def skip_ws_head decode_quoted)
next
  case (JArray vs)
  then show ?case by (intro parse_array_print) (auto simp: list_all_iff)
next
  case (JObject kvs)
  then show ?case by (intro parse_object_print) (fastforce simp: list_all_iff)+
qed (simp_all add: parse_value.simps skip_ws_head parse_scalar_def)

lemma parse_json_print: "printable_json 10000 v \<Longrightarrow> parse_json (json_print v) = Inr v"
  using parse_print [of 10000 v "[]"] by (simp add: parse_json_def skip_ws_def)

end
