(* ===== verification/GoJSON_Decode.thy ===== *)
theory GoJSON_Decode
  imports GoJSON_Value GoTime
begin

text \<open>
  How \<^verbatim>\<open>json.Unmarshal\<close> stores a parsed value into a Go value. A decoder takes the value and what the
  target holds, since \<^verbatim>\<open>null\<close> leaves most targets alone and arrays and structs are stored into what is
  there. \<open>None\<close> is an \<^verbatim>\<open>UnmarshalTypeError\<close>: Go goes on with the rest, but \<^verbatim>\<open>Unmarshal\<close> then fails.
\<close>

type_synonym 'a decoder = "json \<Rightarrow> 'a \<Rightarrow> 'a option"

section \<open>Strings, numbers, pointers and slices\<close>

definition decode_text :: "string decoder" where
  "decode_text v old = (case v of JNull \<Rightarrow> Some old | JString s \<Rightarrow> Some s | _ \<Rightarrow> None)"

definition ParseInt64 :: "string \<Rightarrow> int option" where
  "ParseInt64 t =
     (let negative = (t \<noteq> [] \<and> hd t = CHR ''-'')
      in case decimal (if negative then tl t else t) of
           None \<Rightarrow> None
         | Some n \<Rightarrow> let i = (if negative then - int n else int n) in if fits_int64 i then Some i else None)"

definition ParseUint32 :: "string \<Rightarrow> u32 option" where
  "ParseUint32 t = (case decimal t of None \<Rightarrow> None | Some n \<Rightarrow> if n < 4294967296 then Some (word_of_nat n) else None)"

definition decode_int64 :: "int decoder" where
  "decode_int64 v old = (case v of JNull \<Rightarrow> Some old | JNumber t \<Rightarrow> ParseInt64 t | _ \<Rightarrow> None)"

definition decode_uint32 :: "u32 decoder" where
  "decode_uint32 v old = (case v of JNull \<Rightarrow> Some old | JNumber t \<Rightarrow> ParseUint32 t | _ \<Rightarrow> None)"

definition decode_pointer :: "'a decoder \<Rightarrow> 'a \<Rightarrow> 'a option decoder" where
  "decode_pointer dec zero v old =
     (if v = JNull then Some None
      else map_option Some (dec v (case old of None \<Rightarrow> zero | Some x \<Rightarrow> x)))"

text \<open>
  A slice with the elements its array still has behind the end: an array is stored from the front, element
  by element into what the array holds there, and zero values when it has to grow.
\<close>

type_synonym 'a slice = "'a list \<times> 'a list"

fun decode_onto :: "'a decoder \<Rightarrow> 'a \<Rightarrow> json list \<Rightarrow> 'a list \<Rightarrow> 'a list option" where
  "decode_onto dec zero [] backing = Some []"
| "decode_onto dec zero (v # vs) backing =
     (case dec v (if backing = [] then zero else hd backing) of
        None \<Rightarrow> None
      | Some x \<Rightarrow> map_option (Cons x) (decode_onto dec zero vs (tl backing)))"

definition decode_slice :: "'a decoder \<Rightarrow> 'a \<Rightarrow> 'a slice decoder" where
  "decode_slice dec zero v old =
     (case v of
        JNull \<Rightarrow> Some ([], [])
      | JArray vs \<Rightarrow>
          (if vs = [] then Some ([], [])
           else let backing = fst old @ snd old
                in map_option (\<lambda>xs. (xs, drop (length xs) backing)) (decode_onto dec zero vs backing))
      | _ \<Rightarrow> None)"

section \<open>Structs and maps\<close>

text \<open>
  A key selects the field of that name, or else the one whose name folds to the same. Only two runes
  outside ASCII fold to ASCII letters, the Kelvin sign and the long s, so all others are kept as they are.
\<close>

definition fold_rune :: "string \<Rightarrow> string" where
  "fold_rune r =
     (if length r = 1 \<and> 97 \<le> code (hd r) \<and> code (hd r) \<le> 122 then [char_of (code (hd r) - 32)]
      else if r = [CHR 0xE2, CHR 0x84, CHR 0xAA] then ''K''
      else if r = [CHR 0xC5, CHR 0xBF] then ''S''
      else r)"

definition fold_name :: "string \<Rightarrow> string" where
  "fold_name s = concat (map fold_rune (split_runes s))"

type_synonym 's struct_fields = "(string \<times> 's decoder) list"

definition find_field :: "'s struct_fields \<Rightarrow> string \<Rightarrow> 's decoder option" where
  "find_field fs k =
     (case map_of fs k of
        Some dec \<Rightarrow> Some dec
      | None \<Rightarrow> map_option snd (find (\<lambda>(n, dec). fold_name n = fold_name k) fs))"

text \<open>The members are stored in their order; unknown keys are skipped.\<close>

fun store_members :: "'s struct_fields \<Rightarrow> (string \<times> json) list \<Rightarrow> 's \<Rightarrow> 's option" where
  "store_members fs [] s = Some s"
| "store_members fs ((k, v) # kvs) s =
     (case find_field fs k of
        None \<Rightarrow> store_members fs kvs s
      | Some dec \<Rightarrow> (case dec v s of None \<Rightarrow> None | Some s' \<Rightarrow> store_members fs kvs s'))"

definition decode_struct :: "'s struct_fields \<Rightarrow> 's decoder" where
  "decode_struct fs v old =
     (case v of JNull \<Rightarrow> Some old | JObject kvs \<Rightarrow> store_members fs kvs old | _ \<Rightarrow> None)"

text \<open>A map with string keys: each value is decoded afresh and replaces an earlier one.\<close>

fun store_entries :: "'a decoder \<Rightarrow> 'a \<Rightarrow> (string \<times> json) list \<Rightarrow> (string \<rightharpoonup> 'a) \<Rightarrow> (string \<rightharpoonup> 'a) option" where
  "store_entries dec zero [] m = Some m"
| "store_entries dec zero ((k, v) # kvs) m =
     (case dec v zero of None \<Rightarrow> None | Some x \<Rightarrow> store_entries dec zero kvs (m(k \<mapsto> x)))"

definition decode_map :: "'a decoder \<Rightarrow> 'a \<Rightarrow> (string, 'a) gomap decoder" where
  "decode_map dec zero v old =
     (case v of
        JNull \<Rightarrow> Some None
      | JObject kvs \<Rightarrow> map_option Some (store_entries dec zero kvs (or_make old))
      | _ \<Rightarrow> None)"

text \<open>\<^verbatim>\<open>json.Unmarshal\<close> into a fresh value: nothing is stored unless the whole text is well formed.\<close>

definition Unmarshal_into :: "'a decoder \<Rightarrow> 'a \<Rightarrow> string \<Rightarrow> json_error + 'a" where
  "Unmarshal_into dec zero text =
     (case parse_json text of
        Inl e \<Rightarrow> Inl e
      | Inr v \<Rightarrow> (case dec v zero of None \<Rightarrow> Inl TypeError | Some x \<Rightarrow> Inr x))"

section \<open>Numbers\<close>

lemma digit_char_digit: "d < 10 \<Longrightarrow> is_digit (digit_char d) \<and> digit_value (digit_char d) = d"
  by (simp add: digit_char_def is_digit_def digit_value_def)

lemma itoa_step: "itoa n = (if n < 10 then [digit_char n] else itoa (n div 10) @ [digit_char (n mod 10)])"
  by (simp add: itoa_def digits_of.simps [of 10 n])

lemma itoa_not_Nil [simp]: "itoa n \<noteq> []"
  by (simp add: itoa_def)

lemma itoa_digits: "list_all is_digit (itoa n)"
proof (induction n rule: less_induct)
  case (less n)
  then show ?case by (subst itoa_step) (simp add: digit_char_digit)
qed

lemma decimal_itoa: "decimal (itoa n) = Some n"
proof -
  have "foldl (\<lambda>a c. a * 10 + digit_value c) 0 (itoa n) = n"
  proof (induction n rule: less_induct)
    case (less n)
    then show ?case by (subst itoa_step) (simp add: digit_char_digit)
  qed
  then show ?thesis by (simp add: decimal_def itoa_digits)
qed

text \<open>A positive number has no leading zero, so it is a JSON number.\<close>

lemma itoa_head: "n \<noteq> 0 \<Longrightarrow> hd (itoa n) \<noteq> CHR ''0''"
proof (induction n rule: less_induct)
  case (less n)
  show ?case
  proof (cases "n < 10")
    case True
    have "code (digit_char n) = 48 + n" using True by (simp add: digit_char_def)
    then have "digit_char n \<noteq> CHR ''0''" using less.prems by auto
    then show ?thesis using True by (subst itoa_step) simp
  next
    case False
    then have "hd (itoa (n div 10)) \<noteq> CHR ''0''" using less.IH [of "n div 10"] by simp
    then show ?thesis using False by (subst itoa_step) simp
  qed
qed

lemma digits_itoa: "digits (itoa n) = (itoa n, [])"
  using itoa_digits [of n] by (simp add: digits_def list_all_iff takeWhile_eq_all_conv dropWhile_eq_Nil_conv)

lemma parse_int_itoa: "parse_int (itoa n) = Some (itoa n, [])"
proof (cases "n = 0")
  case True
  have "char_of (48 :: nat) = CHR ''0''" by code_simp
  then have "itoa 0 = ''0''" by (subst itoa_step) (simp add: digit_char_def)
  then show ?thesis by (simp add: True parse_int_def)
next
  case False
  obtain c u where i: "itoa n = c # u" by (cases "itoa n") auto
  have "c \<noteq> CHR ''0''" "is_digit c" using itoa_head [OF False] itoa_digits [of n] by (auto simp: i)
  then show ?thesis using digits_itoa [of n] by (simp add: parse_int_def i)
qed

lemma parse_number_int [simp]: "parse_number (int_text i) = Some (int_text i, [])"
proof -
  have zero: "itoa n \<noteq> [] \<and> hd (itoa n) \<noteq> CHR ''-''" for n
    using itoa_digits [of n] by (cases "itoa n") (auto simp: is_digit_def)
  show ?thesis using zero [of "nat i"]
    by (auto simp: int_text_def parse_number_def parse_int_itoa parse_frac_def parse_exp_def)
qed

lemma ParseInt64_int [simp]: "fits_int64 i \<Longrightarrow> ParseInt64 (int_text i) = Some i"
proof -
  have zero: "hd (itoa n) \<noteq> CHR ''-''" for n
    using itoa_digits [of n] by (cases "itoa n") (auto simp: is_digit_def)
  assume "fits_int64 i"
  then show ?thesis using zero [of "nat i"] by (auto simp: ParseInt64_def int_text_def decimal_itoa Let_def)
qed

lemma ParseUint32_uint [simp]: "ParseUint32 (int_text (uint (w :: u32))) = Some w"
  using unsigned_less [of w, where 'a = nat]
  by (simp add: ParseUint32_def int_text_def decimal_itoa flip: unat_eq_nat_uint)

section \<open>Codecs\<close>

text \<open>
  The interface of what is written as text and read back: well-formed values survive, so their texts are equal
  only if they are. It holds of integers, of JSON values and of what is marshalled to JSON.
\<close>

locale text_codec =
  fixes encode :: "'a \<Rightarrow> string" and decode :: "string \<Rightarrow> 'a option" and wf :: "'a \<Rightarrow> bool"
  assumes decode_encode: "wf x \<Longrightarrow> decode (encode x) = Some x"
begin

lemma encode_eq_iff: "wf x \<Longrightarrow> wf y \<Longrightarrow> encode x = encode y \<longleftrightarrow> x = y"
  by (metis decode_encode option.inject)

lemma encode_inj_on: "inj_on encode {x. wf x}"
  by (rule inj_onI) (simp add: encode_eq_iff)

end

interpretation int64: text_codec int_text ParseInt64 fits_int64
  by unfold_locales simp

interpretation uint32: text_codec "\<lambda>w. int_text (uint w)" ParseUint32 "\<lambda>w. True"
  by unfold_locales simp

interpretation json_text: text_codec json_print "\<lambda>s. case_sum Map.empty Some (parse_json s)" "printable_json 10000"
  by unfold_locales (simp add: parse_json_print)

section \<open>Strings, pointers and slices\<close>

lemma decode_text_String [simp]: "decode_text (JString s) old = Some s"
  by (simp add: decode_text_def)

lemma decode_pointer_value [simp]: "v \<noteq> JNull \<Longrightarrow> decode_pointer dec zero v None = map_option Some (dec v zero)"
  by (simp add: decode_pointer_def)

lemma decode_onto_map:
  "(\<And>x. x \<in> set xs \<Longrightarrow> dec (enc x) zero = Some x) \<Longrightarrow> decode_onto dec zero (map enc xs) [] = Some xs"
  by (induction xs) auto

lemma decode_slice_map [simp]:
  "(\<And>x. x \<in> set xs \<Longrightarrow> dec (enc x) zero = Some x) \<Longrightarrow> decode_slice dec zero (JArray (map enc xs)) ([], []) = Some (xs, [])"
  by (auto simp: decode_slice_def decode_onto_map)

section \<open>Texts\<close>

text \<open>A decoder that keeps a property of its target as long as the strings it stores are texts.\<close>

definition keeps_texts :: "'a decoder \<Rightarrow> ('a \<Rightarrow> bool) \<Rightarrow> bool" where
  "keeps_texts dec P \<longleftrightarrow> (\<forall>v old x. dec v old = Some x \<longrightarrow> json_texts v \<longrightarrow> P old \<longrightarrow> P x)"

lemma keeps_textsI: "(\<And>v old x. dec v old = Some x \<Longrightarrow> json_texts v \<Longrightarrow> P old \<Longrightarrow> P x) \<Longrightarrow> keeps_texts dec P"
  by (simp add: keeps_texts_def)

lemma keeps_textsD: "keeps_texts dec P \<Longrightarrow> dec v old = Some x \<Longrightarrow> json_texts v \<Longrightarrow> P old \<Longrightarrow> P x"
  by (simp add: keeps_texts_def)

lemma decode_text_keeps [simp]: "keeps_texts decode_text is_text"
  by (rule keeps_textsI) (auto simp: decode_text_def split: json.splits)

lemma decode_int64_keeps [simp]: "keeps_texts decode_int64 fits_int64"
  by (rule keeps_textsI) (auto simp: decode_int64_def ParseInt64_def Let_def split: json.splits option.splits if_splits)

lemma decode_uint32_keeps [simp]: "keeps_texts decode_uint32 (\<lambda>w. True)"
  by (rule keeps_textsI) simp

lemma decode_pointer_keeps:
  assumes "keeps_texts dec P" and "P zero"
  shows "keeps_texts (decode_pointer dec zero) (pred_option P)"
proof (rule keeps_textsI)
  fix v old x assume dec: "decode_pointer dec zero v old = Some x" "json_texts v" "pred_option P old"
  show "pred_option P x"
  proof (cases "v = JNull")
    case False
    have "P (case old of None \<Rightarrow> zero | Some y \<Rightarrow> y)" using dec(3) assms(2) by (cases old) auto
    then show ?thesis using dec(1,2) False keeps_textsD [OF assms(1)] by (fastforce simp: decode_pointer_def)
  qed (use dec(1) in \<open>simp add: decode_pointer_def\<close>)
qed

lemma decode_onto_keeps:
  assumes "keeps_texts dec P" and "decode_onto dec zero vs backing = Some xs" and "list_all json_texts vs"
    and "list_all P backing" and "P zero"
  shows "list_all P xs"
  using assms(2-4)
proof (induction vs arbitrary: backing xs)
  case (Cons v vs)
  obtain x ys where x: "dec v (if backing = [] then zero else hd backing) = Some x"
    and ys: "decode_onto dec zero vs (tl backing) = Some ys" "xs = x # ys"
    using Cons.prems(1) by (auto split: option.splits)
  have "P (if backing = [] then zero else hd backing)" using Cons.prems(3) assms(5) by (cases backing) auto
  then have "P x" using keeps_textsD [OF assms(1) x] Cons.prems(2) by simp
  moreover have "list_all P (tl backing)" using Cons.prems(3) by (cases backing) auto
  ultimately show ?case using Cons.IH [OF ys(1)] Cons.prems(2) ys(2) by simp
qed simp

lemma list_all_drop: "list_all P xs \<Longrightarrow> list_all P (drop n xs)"
  by (auto simp: list_all_iff dest: in_set_dropD)

lemma decode_slice_keeps:
  assumes "keeps_texts dec P" and "P zero"
  shows "keeps_texts (decode_slice dec zero) (\<lambda>(xs, spare). list_all P (xs @ spare))"
proof (rule keeps_textsI)
  fix v and old x :: "'a slice"
  assume dec: "decode_slice dec zero v old = Some x" and texts: "json_texts v" and old: "case old of (xs, spare) \<Rightarrow> list_all P (xs @ spare)"
  show "case x of (xs, spare) \<Rightarrow> list_all P (xs @ spare)"
  proof (cases "x = ([], [])")
    case False
    have backing: "list_all P (fst old @ snd old)" using old by (auto split: prod.splits)
    obtain vs xs where "v = JArray vs" "decode_onto dec zero vs (fst old @ snd old) = Some xs"
      "x = (xs, drop (length xs) (fst old @ snd old))"
      using dec False by (auto simp: decode_slice_def Let_def split: json.splits if_splits)
    then show ?thesis using decode_onto_keeps [OF assms(1) _ _ backing assms(2)] texts list_all_drop [OF backing]
      by (simp del: drop_append)
  qed simp
qed

lemma find_field_in: "find_field fs k = Some dec \<Longrightarrow> dec \<in> snd ` set fs"
proof (cases "map_of fs k")
  case (Some d)
  assume "find_field fs k = Some dec"
  then show ?thesis using map_of_SomeD [OF Some] by (force simp: find_field_def Some)
next
  case None
  assume "find_field fs k = Some dec"
  then obtain f where "find (\<lambda>(n, dec). fold_name n = fold_name k) fs = Some f" "dec = snd f"
    by (auto simp: find_field_def None)
  then obtain i where "i < length fs" "f = fs ! i" by (auto simp: find_Some_iff)
  then have "f \<in> set fs" by simp
  then show ?thesis using \<open>dec = snd f\<close> by blast
qed

lemma store_members_keeps:
  assumes "\<And>dec. dec \<in> snd ` set fs \<Longrightarrow> keeps_texts dec P" and "store_members fs kvs s = Some s'"
    and "list_all (\<lambda>(k, v). is_text k \<and> json_texts v) kvs" and "P s"
  shows "P s'"
  using assms(2-4)
proof (induction kvs arbitrary: s)
  case (Cons kv kvs)
  obtain k v where kv: "kv = (k, v)" by (cases kv)
  have texts: "json_texts v" "list_all (\<lambda>(k, v). is_text k \<and> json_texts v) kvs" using Cons.prems(2) by (auto simp: kv)
  show ?case
  proof (cases "find_field fs k")
    case None
    then show ?thesis using Cons.IH [OF _ texts(2) Cons.prems(3)] Cons.prems(1) by (simp add: kv)
  next
    case (Some dec)
    then obtain t where t: "dec v s = Some t" "store_members fs kvs t = Some s'"
      using Cons.prems(1) by (auto simp: kv split: option.splits)
    have "P t" by (rule keeps_textsD [OF assms(1) [OF find_field_in [OF Some]] t(1) texts(1) Cons.prems(3)])
    then show ?thesis by (rule Cons.IH [OF t(2) texts(2)])
  qed
qed simp

lemma decode_struct_keeps:
  assumes "\<And>dec. dec \<in> snd ` set fs \<Longrightarrow> keeps_texts dec P"
  shows "keeps_texts (decode_struct fs) P"
proof (rule keeps_textsI)
  fix v old x assume dec: "decode_struct fs v old = Some x" "json_texts v" "P old"
  show "P x"
  proof (cases "v = JNull")
    case False
    then obtain kvs where "v = JObject kvs" "store_members fs kvs old = Some x"
      using dec(1) by (auto simp: decode_struct_def split: json.splits)
    then show ?thesis using store_members_keeps [OF assms, of fs kvs old x] dec(2,3) by simp
  qed (use dec in \<open>simp add: decode_struct_def\<close>)
qed

lemma store_entries_keeps:
  assumes "keeps_texts dec P" and "P zero" and "store_entries dec zero kvs m = Some m'"
    and "list_all (\<lambda>(k, v). is_text k \<and> json_texts v) kvs" and "\<forall>x \<in> ran m. P x"
  shows "\<forall>x \<in> ran m'. P x"
  using assms(3-5)
proof (induction kvs arbitrary: m)
  case (Cons kv kvs)
  obtain k v where kv: "kv = (k, v)" by (cases kv)
  obtain x where x: "dec v zero = Some x" "store_entries dec zero kvs (m(k \<mapsto> x)) = Some m'"
    using Cons.prems(1) by (auto simp: kv split: option.splits)
  then have "P x" using keeps_textsD [OF assms(1)] assms(2) Cons.prems(2) by (auto simp: kv)
  then have "\<forall>y \<in> ran (m(k \<mapsto> x)). P y" using Cons.prems(3) by (auto simp: ran_def split: if_splits)
  moreover have "list_all (\<lambda>(k, v). is_text k \<and> json_texts v) kvs" using Cons.prems(2) by simp
  ultimately show ?case using Cons.IH [OF x(2)] by blast
qed simp

lemma decode_map_keeps:
  assumes "keeps_texts dec P" and "P zero"
  shows "keeps_texts (decode_map dec zero) (\<lambda>m. \<forall>x \<in> ran (or_make m). P x)"
  by (rule keeps_textsI)
    (auto simp: decode_map_def or_make_def split: json.splits option.splits dest!: store_entries_keeps [OF assms])

lemma Unmarshal_into_keeps:
  assumes "keeps_texts dec P" and "P zero" and "Unmarshal_into dec zero text = Inr x"
  shows "P x"
proof -
  obtain v where v: "parse_json text = Inr v" "dec v zero = Some x"
    using assms(3) by (auto simp: Unmarshal_into_def split: sum.splits option.splits)
  then have "json_texts v" by (auto simp: parse_json_def split: option.splits if_splits dest: parse_texts(1))
  then show ?thesis using keeps_textsD [OF assms(1) v(2)] assms(2) by blast
qed

end
