(* ===== verification/LinkConfig_JSON.thy ===== *)
theory LinkConfig_JSON
  imports GoJSON_Decode Routes_Config
begin

text \<open>
  The JSON the link config controller writes and reads (\<^verbatim>\<open>controllers/linkconfig_controller.go\<close>): the
  payload of the state annotation of a machine, with its struct tags, and the pod networks of OVN.
\<close>

record link_config_state =
  LinkConfigName :: string
  LinkConfigGeneration :: int
  StaticRoutes :: "route list"
  DefaultRoute :: "route option"

record ovn_pod_network =
  IPAddress :: string
  IPAddresses :: "string list"
  GatewayIP :: string
  GatewayIPs :: "string list"

section \<open>The state annotation\<close>

definition route_json :: "route \<Rightarrow> json" where
  "route_json r = JObject [(''Network'', JString (Network r)), (''Gateway'', JString (Gateway r)),
     (''Metric'', JNumber (int_text (uint (Metric r)))), (''Interface'', JString (Interface r))]"

text \<open>The routes are left out when they are empty, the default route when it is nil.\<close>

definition state_json :: "link_config_state \<Rightarrow> json" where
  "state_json st = JObject
     ([(''linkConfigName'', JString (LinkConfigName st)),
       (''linkConfigGeneration'', JNumber (int_text (LinkConfigGeneration st)))]
      @ (if StaticRoutes st = [] then [] else [(''staticRoutes'', JArray (map route_json (StaticRoutes st)))])
      @ (case DefaultRoute st of None \<Rightarrow> [] | Some r \<Rightarrow> [(''defaultRoute'', route_json r)]))"

text \<open>Strings, integers, slices and pointers can always be marshalled.\<close>

definition Marshal_state :: "link_config_state \<Rightarrow> json_error + string" where
  "Marshal_state st = Inr (json_print (state_json st))"

definition zero_route :: route where
  "zero_route = \<lparr>Network = [], Gateway = [], Metric = 0, Interface = []\<rparr>"

definition route_fields :: "route struct_fields" where
  "route_fields =
     [(''Network'', \<lambda>v r. map_option (\<lambda>x. r\<lparr>Network := x\<rparr>) (decode_text v (Network r))),
      (''Gateway'', \<lambda>v r. map_option (\<lambda>x. r\<lparr>Gateway := x\<rparr>) (decode_text v (Gateway r))),
      (''Metric'', \<lambda>v r. map_option (\<lambda>x. r\<lparr>Metric := x\<rparr>) (decode_uint32 v (Metric r))),
      (''Interface'', \<lambda>v r. map_option (\<lambda>x. r\<lparr>Interface := x\<rparr>) (decode_text v (Interface r)))]"

definition decode_route :: "route decoder" where
  "decode_route = decode_struct route_fields"

text \<open>The target is the state, with what the array of the routes holds behind their end.\<close>

type_synonym state_target = "link_config_state \<times> route list"

definition state_fields :: "state_target struct_fields" where
  "state_fields =
     [(''linkConfigName'', \<lambda>v (st, spare).
         map_option (\<lambda>x. (st\<lparr>LinkConfigName := x\<rparr>, spare)) (decode_text v (LinkConfigName st))),
      (''linkConfigGeneration'', \<lambda>v (st, spare).
         map_option (\<lambda>x. (st\<lparr>LinkConfigGeneration := x\<rparr>, spare)) (decode_int64 v (LinkConfigGeneration st))),
      (''staticRoutes'', \<lambda>v (st, spare).
         map_option (\<lambda>(xs, spare'). (st\<lparr>StaticRoutes := xs\<rparr>, spare'))
           (decode_slice decode_route zero_route v (StaticRoutes st, spare))),
      (''defaultRoute'', \<lambda>v (st, spare).
         map_option (\<lambda>x. (st\<lparr>DefaultRoute := x\<rparr>, spare))
           (decode_pointer decode_route zero_route v (DefaultRoute st)))]"

definition zero_state :: state_target where
  "zero_state = (\<lparr>LinkConfigName = [], LinkConfigGeneration = 0, StaticRoutes = [], DefaultRoute = None\<rparr>, [])"

definition Unmarshal_state :: "string \<Rightarrow> json_error + link_config_state" where
  "Unmarshal_state raw = map_sum id fst (Unmarshal_into (decode_struct state_fields) zero_state raw)"

section \<open>Pod networks\<close>

text \<open>The target of a network, with the spare elements of its two arrays.\<close>

type_synonym network_target = "ovn_pod_network \<times> string list \<times> string list"

definition network_fields :: "network_target struct_fields" where
  "network_fields =
     [(''ip_address'', \<lambda>v (n, a, b). map_option (\<lambda>x. (n\<lparr>IPAddress := x\<rparr>, a, b)) (decode_text v (IPAddress n))),
      (''ip_addresses'', \<lambda>v (n, a, b).
         map_option (\<lambda>(xs, a'). (n\<lparr>IPAddresses := xs\<rparr>, a', b)) (decode_slice decode_text [] v (IPAddresses n, a))),
      (''gateway_ip'', \<lambda>v (n, a, b). map_option (\<lambda>x. (n\<lparr>GatewayIP := x\<rparr>, a, b)) (decode_text v (GatewayIP n))),
      (''gateway_ips'', \<lambda>v (n, a, b).
         map_option (\<lambda>(xs, b'). (n\<lparr>GatewayIPs := xs\<rparr>, a, b')) (decode_slice decode_text [] v (GatewayIPs n, b)))]"

definition zero_network :: network_target where
  "zero_network = (\<lparr>IPAddress = [], IPAddresses = [], GatewayIP = [], GatewayIPs = []\<rparr>, [], [])"

definition Unmarshal_networks :: "string \<Rightarrow> json_error + (string, ovn_pod_network) gomap" where
  "Unmarshal_networks raw =
     map_sum id (map_option (\<lambda>m k. map_option fst (m k)))
       (Unmarshal_into (decode_map (decode_struct network_fields) zero_network) None raw)"

section \<open>Reading back the state\<close>

text \<open>The states that can be written and read back: their strings are texts and the generation is an \<^verbatim>\<open>int64\<close>.\<close>

definition route_texts :: "route \<Rightarrow> bool" where
  "route_texts r \<longleftrightarrow> is_text (Network r) \<and> is_text (Gateway r) \<and> is_text (Interface r)"

definition state_texts :: "link_config_state \<Rightarrow> bool" where
  "state_texts st \<longleftrightarrow> is_text (LinkConfigName st) \<and> fits_int64 (LinkConfigGeneration st)
     \<and> list_all route_texts (StaticRoutes st) \<and> (\<forall>r. DefaultRoute st = Some r \<longrightarrow> route_texts r)"

lemma plain_text [simp]: "is_text ''Network''" "is_text ''Gateway''" "is_text ''Metric''" "is_text ''Interface''"
  "is_text ''linkConfigName''" "is_text ''linkConfigGeneration''" "is_text ''staticRoutes''" "is_text ''defaultRoute''"
  by (rule is_text_ascii, simp)+

lemma route_json_printable: "d \<noteq> 0 \<Longrightarrow> route_texts r \<Longrightarrow> printable_json d (route_json r)"
  by (simp add: route_json_def route_texts_def)

lemma state_json_printable: "state_texts st \<Longrightarrow> printable_json 10000 (state_json st)"
  by (auto simp: state_json_def state_texts_def list_all_iff route_json_printable split: option.splits)

lemma find_route_field [simp]:
  "find_field route_fields ''Network'' = Some (\<lambda>v r. map_option (\<lambda>x. r\<lparr>Network := x\<rparr>) (decode_text v (Network r)))"
  "find_field route_fields ''Gateway'' = Some (\<lambda>v r. map_option (\<lambda>x. r\<lparr>Gateway := x\<rparr>) (decode_text v (Gateway r)))"
  "find_field route_fields ''Metric'' = Some (\<lambda>v r. map_option (\<lambda>x. r\<lparr>Metric := x\<rparr>) (decode_uint32 v (Metric r)))"
  "find_field route_fields ''Interface'' =
     Some (\<lambda>v r. map_option (\<lambda>x. r\<lparr>Interface := x\<rparr>) (decode_text v (Interface r)))"
  by (simp_all add: find_field_def route_fields_def)

lemma decode_route_json [simp]: "decode_route (route_json r) zero_route = Some r"
  by (simp add: decode_route_def decode_struct_def route_json_def decode_uint32_def zero_route_def)

lemma route_json_not_null [simp]: "route_json r \<noteq> JNull"
  by (simp add: route_json_def)

lemma find_state_field [simp]:
  "find_field state_fields ''linkConfigName'' = Some (\<lambda>v (st, spare).
     map_option (\<lambda>x. (st\<lparr>LinkConfigName := x\<rparr>, spare)) (decode_text v (LinkConfigName st)))"
  "find_field state_fields ''linkConfigGeneration'' = Some (\<lambda>v (st, spare).
     map_option (\<lambda>x. (st\<lparr>LinkConfigGeneration := x\<rparr>, spare)) (decode_int64 v (LinkConfigGeneration st)))"
  "find_field state_fields ''staticRoutes'' = Some (\<lambda>v (st, spare).
     map_option (\<lambda>(xs, spare'). (st\<lparr>StaticRoutes := xs\<rparr>, spare'))
       (decode_slice decode_route zero_route v (StaticRoutes st, spare)))"
  "find_field state_fields ''defaultRoute'' = Some (\<lambda>v (st, spare).
     map_option (\<lambda>x. (st\<lparr>DefaultRoute := x\<rparr>, spare)) (decode_pointer decode_route zero_route v (DefaultRoute st)))"
  by (simp_all add: find_field_def state_fields_def)

lemma decode_state_json:
  assumes "fits_int64 (LinkConfigGeneration st)"
  shows "decode_struct state_fields (state_json st) zero_state = Some (st, [])"
  using assms by (cases "StaticRoutes st = []"; cases "DefaultRoute st")
    (simp_all add: decode_struct_def state_json_def zero_state_def decode_int64_def)

text \<open>The annotation as it is written, and as it is read back.\<close>

lemma Marshal_state_trimmed: "Marshal_state st = Inr v \<Longrightarrow> v \<noteq> [] \<and> TrimSpace v = v"
  by (auto simp: Marshal_state_def state_json_def TrimSpace_printable printable_def)

lemma Unmarshal_Marshal_state: "state_texts st \<Longrightarrow> Marshal_state st = Inr v \<Longrightarrow> Unmarshal_state v = Inr st"
  using parse_json_print [OF state_json_printable, of st] decode_state_json [of st]
  by (auto simp: Marshal_state_def Unmarshal_state_def Unmarshal_into_def state_texts_def)

interpretation state_text: text_codec "\<lambda>st. json_print (state_json st)" "\<lambda>s. case_sum Map.empty Some (Unmarshal_state s)" state_texts
  by unfold_locales (simp add: Unmarshal_Marshal_state Marshal_state_def)

section \<open>Texts of networks\<close>

definition network_texts :: "ovn_pod_network \<Rightarrow> bool" where
  "network_texts n \<longleftrightarrow> is_text (GatewayIP n) \<and> list_all is_text (GatewayIPs n)"

definition network_target_texts :: "network_target \<Rightarrow> bool" where
  "network_target_texts t \<longleftrightarrow> (case t of (n, a, b) \<Rightarrow> network_texts n \<and> list_all is_text b)"

lemma decode_network_keeps: "keeps_texts (decode_struct network_fields) network_target_texts"
proof (rule decode_struct_keeps)
  have slice: "decode_slice decode_text [] v old = Some (xs, spare) \<Longrightarrow> json_texts v
      \<Longrightarrow> list_all is_text (fst old @ snd old) \<Longrightarrow> list_all is_text xs \<and> list_all is_text spare" for v old xs spare
    using keeps_textsD [OF decode_slice_keeps [OF decode_text_keeps, of "[]"], of v old] by (cases old) auto
  fix dec assume "dec \<in> snd ` set network_fields"
  then show "keeps_texts dec network_target_texts"
    by (auto simp: network_fields_def network_target_texts_def network_texts_def intro!: keeps_textsI
        dest: keeps_textsD [OF decode_text_keeps] slice)
qed

lemma Unmarshal_networks_texts:
  assumes "Unmarshal_networks raw = Inr nets" and "or_make nets name = Some n"
  shows "network_texts n"
proof -
  obtain m where m: "Unmarshal_into (decode_map (decode_struct network_fields) zero_network) None raw = Inr m"
    and nets: "nets = map_option (\<lambda>m k. map_option fst (m k)) m"
    using assms(1) by (auto simp: Unmarshal_networks_def map_sum_def split: sum.splits)
  have "network_target_texts zero_network" by (simp add: network_target_texts_def zero_network_def network_texts_def)
  from Unmarshal_into_keeps [OF decode_map_keeps [OF decode_network_keeps this] _ m]
  have "\<forall>x \<in> ran (or_make m). network_target_texts x" by (simp add: or_make_def)
  then show ?thesis using assms(2) by (cases m) (auto simp: nets or_make_def ran_def network_target_texts_def)
qed

section \<open>Texts of states\<close>

text \<open>Whatever an annotation holds, a state that is read from it can be written again.\<close>

lemma decode_route_keeps: "keeps_texts decode_route route_texts"
  unfolding decode_route_def
proof (rule decode_struct_keeps)
  fix dec assume "dec \<in> snd ` set route_fields"
  then show "keeps_texts dec route_texts"
    by (auto simp: route_fields_def route_texts_def intro!: keeps_textsI dest: keeps_textsD [OF decode_text_keeps])
qed

lemma zero_route_texts [simp]: "route_texts zero_route"
  by (simp add: route_texts_def zero_route_def)

lemma decode_state_keeps:
  "keeps_texts (decode_struct state_fields) (\<lambda>(st, spare). state_texts st \<and> list_all route_texts spare)"
proof (rule decode_struct_keeps)
  have slice: "decode_slice decode_route zero_route v old = Some (xs, spare) \<Longrightarrow> json_texts v
      \<Longrightarrow> list_all route_texts (fst old @ snd old) \<Longrightarrow> list_all route_texts xs \<and> list_all route_texts spare" for v old xs spare
    using keeps_textsD [OF decode_slice_keeps [OF decode_route_keeps zero_route_texts], of v old] by (cases old) auto
  have pointer: "decode_pointer decode_route zero_route v old = Some x \<Longrightarrow> json_texts v
      \<Longrightarrow> (\<forall>r. old = Some r \<longrightarrow> route_texts r) \<Longrightarrow> x = Some r \<Longrightarrow> route_texts r" for v old x r
    using keeps_textsD [OF decode_pointer_keeps [OF decode_route_keeps zero_route_texts], of v old x] by (cases old) auto
  fix dec assume "dec \<in> snd ` set state_fields"
  then show "keeps_texts dec (\<lambda>(st, spare). state_texts st \<and> list_all route_texts spare)"
    by (auto simp: state_fields_def state_texts_def intro!: keeps_textsI
        dest: keeps_textsD [OF decode_text_keeps] keeps_textsD [OF decode_int64_keeps] slice pointer)
qed

lemma Unmarshal_state_texts:
  assumes "Unmarshal_state raw = Inr st"
  shows "state_texts st"
proof -
  obtain t where t: "Unmarshal_into (decode_struct state_fields) zero_state raw = Inr t" "st = fst t"
    using assms by (auto simp: Unmarshal_state_def map_sum_def split: sum.splits)
  have "(case zero_state of (st, spare) \<Rightarrow> state_texts st \<and> list_all route_texts spare)"
    by (simp add: zero_state_def state_texts_def fits_int64_def)
  from Unmarshal_into_keeps [OF decode_state_keeps this t(1)] show ?thesis using t(2) by (simp split: prod.splits)
qed

end
