(* ===== verification/Kube.thy ===== *)
theory Kube
  imports Prelude
begin

text \<open>
  What the controllers use of the Kubernetes client: object keys, the answer to \<^verbatim>\<open>Get\<close>, reading
  labels and annotations, and the contract of \<^verbatim>\<open>controllerutil.CreateOrPatch\<close>, which is a parameter of
  the model.
\<close>

type_synonym object_key = "string \<times> string"

datatype 'a fetched = Fetched 'a | ObjectNotFound | FetchError string

text \<open>Reading a Go map: the zero value for a missing key.\<close>

definition read_map :: "(string, 'b list) gomap \<Rightarrow> string \<Rightarrow> 'b list" where
  "read_map m k = (case or_make m k of None \<Rightarrow> [] | Some v \<Rightarrow> v)"

text \<open>
  \<^verbatim>\<open>CreateOrPatch\<close> gets the object with the key of the one it is given, applies the mutation to what
  it found, or to the given object when there is none, and creates or patches it; the object is then
  what the server answered. What the mutation may set is given by \<open>settings\<close>; the rest, such as the
  status, is the server's. Nothing is promised when the call fails.
\<close>

type_synonym 'o create_or_patch =
  "'o \<Rightarrow> ('o \<Rightarrow> 'o) \<Rightarrow> (object_key \<rightharpoonup> 'o) \<Rightarrow> (string + 'o) \<times> (object_key \<rightharpoonup> 'o)"

text \<open>Every stored object is under its own key.\<close>

definition keyed :: "('o \<Rightarrow> object_key) \<Rightarrow> (object_key \<rightharpoonup> 'o) \<Rightarrow> bool" where
  "keyed key objs \<longleftrightarrow> (\<forall>k x. objs k = Some x \<longrightarrow> key x = k)"

lemma keyed_upd: "keyed key objs \<Longrightarrow> key x = k \<Longrightarrow> keyed key (objs(k \<mapsto> x))"
  by (simp add: keyed_def)

lemma keyed_empty [simp]: "keyed key Map.empty"
  by (simp add: keyed_def)

definition create_or_patch_contract ::
  "('o \<Rightarrow> object_key) \<Rightarrow> ('o \<Rightarrow> 's) \<Rightarrow> 'o create_or_patch \<Rightarrow> bool" where
  "create_or_patch_contract key settings cop \<longleftrightarrow>
     (\<forall>obj f objs obj' objs'. keyed key objs \<longrightarrow> (\<forall>x. key (f x) = key x) \<longrightarrow> cop obj f objs = (Inr obj', objs') \<longrightarrow>
        key obj' = key obj \<and> objs' = objs(key obj \<mapsto> obj')
        \<and> settings obj' = settings (f (case objs (key obj) of None \<Rightarrow> obj | Some x \<Rightarrow> x)))"

lemma create_or_patchD:
  assumes "create_or_patch_contract key settings cop" and "keyed key objs" and "cop obj f objs = (Inr obj', objs')"
    and "\<And>x. key (f x) = key x"
  shows "key obj' = key obj" and "objs' = objs(key obj \<mapsto> obj')"
    and "settings obj' = settings (f (case objs (key obj) of None \<Rightarrow> obj | Some x \<Rightarrow> x))"
  using assms unfolding create_or_patch_contract_def by blast+

text \<open>A server that keeps to the contract, for the witnesses.\<close>

definition plain_create_or_patch :: "('o \<Rightarrow> object_key) \<Rightarrow> 'o create_or_patch" where
  "plain_create_or_patch key obj f objs =
     (let x = f (case objs (key obj) of None \<Rightarrow> obj | Some x \<Rightarrow> x) in (Inr x, objs(key obj \<mapsto> x)))"

lemma plain_contract: "create_or_patch_contract key settings (plain_create_or_patch key)"
  by (auto simp: create_or_patch_contract_def plain_create_or_patch_def keyed_def Let_def simp del: split_paired_All split: option.splits)

end
