(* ===== verification/LinkConfig_Controller.thy ===== *)
theory LinkConfig_Controller
  imports LinkConfig_API LinkConfig_JSON Routes_Apply_Facts Kube
begin

text \<open>
  The controller that keeps the routes of every machine as its link config says
  (\<^verbatim>\<open>controllers/linkconfig_controller.go\<close>). The cluster is a record of the objects it reads, with
  the machines it patches; API calls may fail. The API server and the injector are parameters. Errors are
  constructors, one for each place where the code builds one.
\<close>

section \<open>Objects\<close>

datatype address_type = MachineInternalIP | MachineExternalIP | OtherAddressType string

record machine_address =
  addr_Type :: address_type
  addr_Address :: string

text \<open>The parts of a Cluster API machine that are used; keys are namespace and name.\<close>

record machine =
  m_Name :: string
  m_Namespace :: string
  m_Annotations :: "(string, string) gomap"
  m_Deleting :: bool
  m_ClusterName :: string
  m_InfrastructureRef_Name :: string
  m_Addresses :: "machine_address list"

record link_config_resource =
  lc_Name :: string
  lc_Namespace :: string
  lc_Generation :: int
  lc_StaticRoutes :: "link_config_route list"
  lc_DefaultRoute :: "link_config_default_route option"

record pod =
  pod_Name :: string
  pod_Namespace :: string
  pod_Labels :: "(string, string) gomap"
  pod_Annotations :: "(string, string) gomap"

section \<open>The cluster\<close>

text \<open>
  The cluster is what \<^verbatim>\<open>Get\<close> returns for a key. Which of these calls fail, and what the list and
  patch calls of the client do with the stored objects, is given by the environment.
\<close>

datatype api_call =
    GetMachine object_key
  | GetLinkConfig object_key
  | GetSecret object_key

record cluster =
  machines :: "object_key \<rightharpoonup> machine"
  link_configs :: "object_key \<rightharpoonup> link_config_resource"
  secrets :: "object_key \<rightharpoonup> (string, bytes) gomap"
  pods :: "pod list"

record env =
  fails :: "api_call \<Rightarrow> string option"
  network_order :: "string list"
  List_pods :: "pod list \<Rightarrow> string \<Rightarrow> string \<Rightarrow> string \<Rightarrow> string + pod list"
  List_machines :: "(object_key \<rightharpoonup> machine) \<Rightarrow> string \<Rightarrow> string + machine list"
  Patch_machine :: "machine \<Rightarrow> machine \<Rightarrow> (object_key \<rightharpoonup> machine) \<Rightarrow> string option \<times> (object_key \<rightharpoonup> machine)"
  Injector :: "node \<Rightarrow> bytes \<Rightarrow> route list \<Rightarrow> route option \<Rightarrow> string list \<Rightarrow> ensure_error + unit"

definition fetch :: "env \<Rightarrow> (object_key \<Rightarrow> api_call) \<Rightarrow> (object_key \<rightharpoonup> 'a) \<Rightarrow> object_key \<Rightarrow> 'a fetched" where
  "fetch e call objs k =
     (case fails e (call k) of
        Some err \<Rightarrow> FetchError err
      | None \<Rightarrow> (case objs k of None \<Rightarrow> ObjectNotFound | Some x \<Rightarrow> Fetched x))"

definition machine_key :: "machine \<Rightarrow> object_key" where
  "machine_key m = (m_Namespace m, m_Name m)"

section \<open>Names and annotations\<close>

definition defaultLinkConfigName :: string where
  "defaultLinkConfigName = ''default''"

definition machineLinkConfigAnnKey :: string where
  "machineLinkConfigAnnKey = ''dockyards.io/link-config''"

definition machineLinkConfigStateAnnKey :: string where
  "machineLinkConfigStateAnnKey = ''dockyards.io/link-config-state''"

definition ovnPodNetworksAnnotationKey :: string where
  "ovnPodNetworksAnnotationKey = ''k8s.ovn.org/pod-networks''"

definition capkKubevirtMachineNameLabelKey :: string where
  "capkKubevirtMachineNameLabelKey = ''capk.cluster.x-k8s.io/kubevirt-machine-name''"

definition link_config_name :: "machine \<Rightarrow> string" where
  "link_config_name m =
     (case or_make (m_Annotations m) machineLinkConfigAnnKey of
        None \<Rightarrow> defaultLinkConfigName
      | Some v \<Rightarrow> if v \<noteq> [] then v else defaultLinkConfigName)"

definition extractLinkConfigStateFromMachine :: "machine \<Rightarrow> json_error + link_config_state option" where
  "extractLinkConfigStateFromMachine m =
     (case m_Annotations m of
        None \<Rightarrow> Inr None
      | Some annotations \<Rightarrow>
          let raw = TrimSpace (read_map (Some annotations) machineLinkConfigStateAnnKey)
          in if raw = [] then Inr None
             else map_sum id Some (Unmarshal_state raw))"

section \<open>Managed interfaces\<close>

text \<open>The interfaces of a state or of desired routes, trimmed and without the empty one.\<close>

definition route_interfaces :: "route list \<Rightarrow> route option \<Rightarrow> string list" where
  "route_interfaces staticRoutes defaultRoute =
     filter (\<lambda>iface. iface \<noteq> []) (map (\<lambda>r. TrimSpace (Interface r)) staticRoutes)
     @ (case defaultRoute of
          None \<Rightarrow> []
        | Some r \<Rightarrow> let iface = TrimSpace (Interface r) in if iface \<noteq> [] then [iface] else [])"

definition managedInterfacesFromState :: "link_config_state option \<Rightarrow> string list" where
  "managedInterfacesFromState state =
     (case state of
        None \<Rightarrow> []
      | Some st \<Rightarrow> sorted_list_of_set (set (route_interfaces (StaticRoutes st) (DefaultRoute st))))"

definition mergeManagedInterfaces :: "link_config_state option \<Rightarrow> route list \<Rightarrow> route option \<Rightarrow> string list" where
  "mergeManagedInterfaces lastAppliedState staticRoutes defaultRoute =
     sorted_list_of_set
       (set (route_interfaces staticRoutes defaultRoute) \<union> set (managedInterfacesFromState lastAppliedState))"

section \<open>Desired routes\<close>

datatype link_config_error =
    StaticRouteNetworkEmpty nat
  | StaticRouteInterfaceEmpty nat
  | DefaultRouteInterfaceEmpty

fun extract_static :: "nat \<Rightarrow> link_config_route list \<Rightarrow> link_config_error + route list" where
  "extract_static i [] = Inr []"
| "extract_static i (r # rs) =
     (if lcr_Network r = [] then Inl (StaticRouteNetworkEmpty i)
      else if TrimSpace (lcr_Interface r) = [] then Inl (StaticRouteInterfaceEmpty i)
      else map_sum id
             (Cons \<lparr>Network = lcr_Network r, Gateway = lcr_Gateway r, Metric = lcr_Metric r, Interface = lcr_Interface r\<rparr>)
             (extract_static (Suc i) rs))"

definition extractDesiredRoutes :: "link_config_resource \<Rightarrow> link_config_error + route list \<times> route option" where
  "extractDesiredRoutes obj =
     (case extract_static 0 (lc_StaticRoutes obj) of
        Inl e \<Rightarrow> Inl e
      | Inr staticRoutes \<Rightarrow>
          (case lc_DefaultRoute obj of
             None \<Rightarrow> Inr (staticRoutes, None)
           | Some d \<Rightarrow>
               if TrimSpace (lcd_Interface d) = [] then Inl DefaultRouteInterfaceEmpty
               else Inr (staticRoutes, Some \<lparr>Network = [], Gateway = lcd_Gateway d, Metric = lcd_Metric d,
                                             Interface = lcd_Interface d\<rparr>)))"

section \<open>Node and credentials\<close>

datatype controller_error =
    GetObject string
  | DecodeAnnotation json_error
  | ExtractRoutes link_config_error
  | NoUsableIP
  | ClusterNameEmpty
  | GetTalosconfigSecret object_key string
  | MissingTalosconfigKey object_key
  | NoInternalIP
  | ListPodsFailed string
  | NoVMPodNoRef
  | NoVMPod string
  | MissingNetworksAnnotation object_key
  | NetworksJSON json_error
  | NoNetworks
  | NoMatchingNetwork "string list"
  | NetworkWithoutGateway string
  | EnsureRoutesFailed ensure_error
  | EnsureCleanupFailed ensure_error
  | MarshalState json_error
  | PatchFailed string

definition node_port :: int where
  "node_port = 50000"

fun first_usable :: "machine_address list \<Rightarrow> string option" where
  "first_usable [] = None"
| "first_usable (a # as) =
     (if (addr_Type a = MachineInternalIP \<or> addr_Type a = MachineExternalIP) \<and> addr_Address a \<noteq> []
      then Some (addr_Address a) else first_usable as)"

definition extractNodeFromMachine :: "machine \<Rightarrow> controller_error + node" where
  "extractNodeFromMachine m =
     (case first_usable (m_Addresses m) of
        None \<Rightarrow> Inl NoUsableIP
      | Some a \<Rightarrow> Inr \<lparr>node_Address = a, node_Port = node_port,
                       node_MachineKey = m_ClusterName m @ ''/'' @ m_Namespace m @ ''/'' @ m_Name m\<rparr>)"

definition extractTalosConfigFromClusterSecret :: "env \<Rightarrow> cluster \<Rightarrow> machine \<Rightarrow> controller_error + bytes" where
  "extractTalosConfigFromClusterSecret e c m =
     (if m_ClusterName m = [] then Inl ClusterNameEmpty
      else
        let k = (m_Namespace m, m_ClusterName m @ ''-talosconfig'')
        in case fetch e GetSecret (secrets c) k of
             FetchError err \<Rightarrow> Inl (GetTalosconfigSecret k err)
           | ObjectNotFound \<Rightarrow> Inl (GetTalosconfigSecret k ''not found'')
           | Fetched secret \<Rightarrow>
               let config_data = read_map secret ''talosconfig''
               in if length config_data = 0 then Inl (MissingTalosconfigKey k) else Inr config_data)"

section \<open>Gateways\<close>

fun machine_internal_ip :: "machine_address list \<Rightarrow> addr option" where
  "machine_internal_ip [] = None"
| "machine_internal_ip (a # as) =
     (if addr_Type a \<noteq> MachineInternalIP then machine_internal_ip as
      else (case ParseAddr (addr_Address a) of None \<Rightarrow> machine_internal_ip as | Some ip \<Rightarrow> Some ip))"

definition machineInternalIP :: "machine \<Rightarrow> controller_error + addr" where
  "machineInternalIP m =
     (case machine_internal_ip (m_Addresses m) of None \<Rightarrow> Inl NoInternalIP | Some ip \<Rightarrow> Inr ip)"

text \<open>
  Pods are listed by namespace and label; a stable sort moves those with the annotation to the front.
\<close>

definition has_networks :: "pod \<Rightarrow> bool" where
  "has_networks p \<longleftrightarrow> TrimSpace (read_map (pod_Annotations p) ovnPodNetworksAnnotationKey) \<noteq> []"

definition findVMPodForMachine :: "env \<Rightarrow> cluster \<Rightarrow> machine \<Rightarrow> controller_error + pod" where
  "findVMPodForMachine e c m =
     (let ref = m_InfrastructureRef_Name m
      in if ref \<noteq> [] then
           (case List_pods e (pods c) (m_Namespace m) capkKubevirtMachineNameLabelKey ref of
              Inl err \<Rightarrow> Inl (ListPodsFailed err)
            | Inr items \<Rightarrow>
                if length items > 0
                then Inr (hd (sort_key (\<lambda>p. if has_networks p then (0 :: nat) else 1) items))
                else Inl (NoVMPod ref))
         else Inl NoVMPodNoRef)"

definition parseFirstAddrFromPrefixString :: "string \<Rightarrow> addr option" where
  "parseFirstAddrFromPrefixString str =
     (let s = TrimSpace str
      in if s = [] then None
         else (case ParsePrefix s of Some p \<Rightarrow> Some (Prefix_Addr p) | None \<Rightarrow> ParseAddr s))"

definition gatewayFromOVNNetwork :: "string \<Rightarrow> ovn_pod_network \<Rightarrow> controller_error + string" where
  "gatewayFromOVNNetwork name n =
     (if TrimSpace (GatewayIP n) \<noteq> [] then Inr (TrimSpace (GatewayIP n))
      else (case find (\<lambda>gw. TrimSpace gw \<noteq> []) (GatewayIPs n) of
              Some gw \<Rightarrow> Inr (TrimSpace gw)
            | None \<Rightarrow> Inl (NetworkWithoutGateway name)))"

definition network_matches :: "addr \<Rightarrow> ovn_pod_network \<Rightarrow> bool" where
  "network_matches machineIP n \<longleftrightarrow>
     parseFirstAddrFromPrefixString (IPAddress n) = Some machineIP
     \<or> list_ex (\<lambda>p. parseFirstAddrFromPrefixString p = Some machineIP) (IPAddresses n)"

fun select_network :: "addr \<Rightarrow> (string \<times> ovn_pod_network) list \<Rightarrow> (controller_error + string) option" where
  "select_network machineIP [] = None"
| "select_network machineIP ((name, n) # nets) =
     (if network_matches machineIP n then Some (gatewayFromOVNNetwork name n)
      else select_network machineIP nets)"

text \<open>The networks are visited in the order of the range loop, \<open>network_order\<close> of the environment.\<close>

definition selectGatewayFromOVNPodNetworks :: "env \<Rightarrow> string \<Rightarrow> addr \<Rightarrow> controller_error + string" where
  "selectGatewayFromOVNPodNetworks e raw machineIP =
     (case Unmarshal_networks raw of
        Inl err \<Rightarrow> Inl (NetworksJSON err)
      | Inr m \<Rightarrow>
          let nets = range_over (network_order e) (or_make m)
          in if length nets = 0 then Inl NoNetworks
             else (case select_network machineIP nets of
                     Some r \<Rightarrow> r
                   | None \<Rightarrow> Inl (NoMatchingNetwork (sort (map fst nets)))))"

definition deriveGatewayFromVMPod :: "env \<Rightarrow> cluster \<Rightarrow> machine \<Rightarrow> controller_error + string" where
  "deriveGatewayFromVMPod e c m =
     (case machineInternalIP m of
        Inl err \<Rightarrow> Inl err
      | Inr machineIP \<Rightarrow>
          (case findVMPodForMachine e c m of
             Inl err \<Rightarrow> Inl err
           | Inr p \<Rightarrow>
               let raw = read_map (pod_Annotations p) ovnPodNetworksAnnotationKey
               in if TrimSpace raw = [] then Inl (MissingNetworksAnnotation (pod_Namespace p, pod_Name p))
                  else selectGatewayFromOVNPodNetworks e raw machineIP))"

section \<open>Reconcile\<close>

text \<open>
  The result of a reconciliation: the requeue interval and the error the controller returns, the
  calls of the injector, and the cluster it leaves.
\<close>

record injector_call =
  call_Node :: node
  call_TalosConfig :: bytes
  call_StaticRoutes :: "route list"
  call_DefaultRoute :: "route option"
  call_ManagedInterfaces :: "string list"

record reconcile_result =
  RequeueAfter :: int
  reconcile_error :: "controller_error option"
  injector_calls :: "injector_call list"
  cluster_after :: cluster

definition finished :: "cluster \<Rightarrow> reconcile_result" where
  "finished c = \<lparr>RequeueAfter = 0, reconcile_error = None, injector_calls = [], cluster_after = c\<rparr>"

definition failed :: "int \<Rightarrow> controller_error \<Rightarrow> cluster \<Rightarrow> reconcile_result" where
  "failed after err c =
     \<lparr>RequeueAfter = after, reconcile_error = Some err, injector_calls = [], cluster_after = c\<rparr>"

definition retry :: int where
  "retry = 30 * ns_per_second"

text \<open>
  \<^verbatim>\<open>persistReconciledLinkConfigState\<close>: whether the annotation was written, and the cluster after the
  patch from the machine that was read to the one with the annotation.
\<close>

definition annotated :: "string \<Rightarrow> machine \<Rightarrow> machine" where
  "annotated v m = m\<lparr>m_Annotations := Some ((or_make (m_Annotations m))(machineLinkConfigStateAnnKey \<mapsto> v))\<rparr>"

definition persistReconciledLinkConfigState ::
  "env \<Rightarrow> cluster \<Rightarrow> machine \<Rightarrow> string \<Rightarrow> int \<Rightarrow> route list \<Rightarrow> route option \<Rightarrow> (controller_error + bool) \<times> cluster" where
  "persistReconciledLinkConfigState e c m linkConfigName linkConfigGeneration staticRoutes defaultRoute =
     (let payload = \<lparr>LinkConfigName = linkConfigName, LinkConfigGeneration = linkConfigGeneration,
                     StaticRoutes = staticRoutes, DefaultRoute = defaultRoute\<rparr>
      in case Marshal_state payload of
           Inl err \<Rightarrow> (Inl (MarshalState err), c)
         | Inr newValue \<Rightarrow>
             let oldValue = read_map (m_Annotations m) machineLinkConfigStateAnnKey
             in if oldValue = newValue then (Inr False, c)
                else (case Patch_machine e m (annotated newValue m) (machines c) of
                        (Some err, objs) \<Rightarrow> (Inl (PatchFailed err), c\<lparr>machines := objs\<rparr>)
                      | (None, objs) \<Rightarrow> (Inr True, c\<lparr>machines := objs\<rparr>)))"

definition reconcileMissingLinkConfig ::
  "env \<Rightarrow> cluster \<Rightarrow> machine \<Rightarrow> string \<Rightarrow> link_config_state option \<Rightarrow> reconcile_result" where
  "reconcileMissingLinkConfig e c m linkConfigName lastAppliedState =
     (let managedInterfaces = managedInterfacesFromState lastAppliedState
      in case lastAppliedState of
           None \<Rightarrow> finished c
         | Some st \<Rightarrow>
             if LinkConfigName st \<noteq> linkConfigName \<or> length managedInterfaces = 0 then finished c
             else (case extractNodeFromMachine m of
               Inl err \<Rightarrow> failed retry err c
             | Inr nd \<Rightarrow>
                 (case extractTalosConfigFromClusterSecret e c m of
                    Inl err \<Rightarrow> failed retry err c
                  | Inr talosConfig \<Rightarrow>
                      let calls = [\<lparr>call_Node = nd, call_TalosConfig = talosConfig, call_StaticRoutes = [],
                                    call_DefaultRoute = None, call_ManagedInterfaces = managedInterfaces\<rparr>]
                      in (case Injector e nd talosConfig [] None managedInterfaces of
                            Inl err \<Rightarrow> (failed retry (EnsureCleanupFailed err) c)\<lparr>injector_calls := calls\<rparr>
                          | Inr u \<Rightarrow>
                              (case persistReconciledLinkConfigState e c m linkConfigName 0 [] None of
                                 (Inl err, c') \<Rightarrow> (failed retry err c')\<lparr>injector_calls := calls\<rparr>
                               | (Inr updated, c') \<Rightarrow> (finished c')\<lparr>injector_calls := calls\<rparr>)))))"

definition lacks_gateway :: "route \<Rightarrow> bool" where
  "lacks_gateway r \<longleftrightarrow> TrimSpace (Gateway r) = []"

definition needs_gateway :: "route list \<Rightarrow> route option \<Rightarrow> bool" where
  "needs_gateway staticRoutes defaultRoute \<longleftrightarrow>
     list_ex lacks_gateway staticRoutes
     \<or> (case defaultRoute of None \<Rightarrow> False | Some r \<Rightarrow> lacks_gateway r)"

definition fill_gateway :: "string \<Rightarrow> route \<Rightarrow> route" where
  "fill_gateway gw r = (if lacks_gateway r then r\<lparr>Gateway := gw\<rparr> else r)"

text \<open>The part of \<^verbatim>\<open>Reconcile\<close> that derives a gateway and fills it in, if some route lacks one.\<close>

definition fill_gateways ::
  "env \<Rightarrow> cluster \<Rightarrow> machine \<Rightarrow> route list \<Rightarrow> route option \<Rightarrow> controller_error + route list \<times> route option" where
  "fill_gateways e c m staticRoutes defaultRoute =
     (if needs_gateway staticRoutes defaultRoute then
        (case deriveGatewayFromVMPod e c m of
           Inl err \<Rightarrow> Inl err
         | Inr gw \<Rightarrow> Inr (map (fill_gateway gw) staticRoutes, map_option (fill_gateway gw) defaultRoute))
      else Inr (staticRoutes, defaultRoute))"

text \<open>\<^verbatim>\<open>Reconcile\<close> from the point where the link config has been read.\<close>

definition reconcile_link_config ::
  "env \<Rightarrow> cluster \<Rightarrow> machine \<Rightarrow> link_config_resource \<Rightarrow> link_config_state option \<Rightarrow> reconcile_result" where
  "reconcile_link_config e c m lc lastAppliedState =
     (case extractDesiredRoutes lc of
        Inl err \<Rightarrow> failed 0 (ExtractRoutes err) c
      | Inr (staticRoutes0, defaultRoute0) \<Rightarrow>
          (case extractNodeFromMachine m of
             Inl err \<Rightarrow> failed retry err c
           | Inr nd \<Rightarrow>
               (case extractTalosConfigFromClusterSecret e c m of
                  Inl err \<Rightarrow> failed retry err c
                | Inr talosConfig \<Rightarrow>
                    (case fill_gateways e c m staticRoutes0 defaultRoute0 of
                       Inl err \<Rightarrow> failed retry err c
                     | Inr (staticRoutes, defaultRoute) \<Rightarrow>
                         let managedInterfaces = mergeManagedInterfaces lastAppliedState staticRoutes defaultRoute;
                             calls = [\<lparr>call_Node = nd, call_TalosConfig = talosConfig,
                                       call_StaticRoutes = staticRoutes, call_DefaultRoute = defaultRoute,
                                       call_ManagedInterfaces = managedInterfaces\<rparr>]
                         in (case Injector e nd talosConfig staticRoutes defaultRoute managedInterfaces of
                               Inl err \<Rightarrow> (failed retry (EnsureRoutesFailed err) c)\<lparr>injector_calls := calls\<rparr>
                             | Inr u \<Rightarrow>
                                 (case persistReconciledLinkConfigState e c m (lc_Name lc) (lc_Generation lc)
                                         staticRoutes defaultRoute of
                                    (Inl err, c') \<Rightarrow> (failed retry err c')\<lparr>injector_calls := calls\<rparr>
                                  | (Inr updated, c') \<Rightarrow> (finished c')\<lparr>injector_calls := calls\<rparr>))))))"

definition Reconcile :: "env \<Rightarrow> object_key \<Rightarrow> cluster \<Rightarrow> reconcile_result" where
  "Reconcile e req c =
     (case fetch e GetMachine (machines c) req of
        FetchError err \<Rightarrow> failed 0 (GetObject err) c
      | ObjectNotFound \<Rightarrow> finished c
      | Fetched m \<Rightarrow>
          if m_Deleting m then finished c
          else
            let linkConfigName = link_config_name m
            in (case extractLinkConfigStateFromMachine m of
                  Inl err \<Rightarrow> failed 0 (DecodeAnnotation err) c
                | Inr lastAppliedState \<Rightarrow>
                    (case fetch e GetLinkConfig (link_configs c) (m_Namespace m, linkConfigName) of
                       FetchError err \<Rightarrow> failed 0 (GetObject err) c
                     | ObjectNotFound \<Rightarrow> reconcileMissingLinkConfig e c m linkConfigName lastAppliedState
                     | Fetched lc \<Rightarrow> reconcile_link_config e c m lc lastAppliedState)))"

text \<open>Which machines a changed link config concerns.\<close>

definition linkConfigToMachines :: "env \<Rightarrow> cluster \<Rightarrow> link_config_resource option \<Rightarrow> object_key list" where
  "linkConfigToMachines e c obj =
     (case obj of
        None \<Rightarrow> []
      | Some lc \<Rightarrow>
          (case List_machines e (machines c) (lc_Namespace lc) of
             Inl err \<Rightarrow> []
           | Inr items \<Rightarrow> map machine_key (filter (\<lambda>m. link_config_name m = lc_Name lc) items)))"

end
