(* ===== verification/LinkConfig_Facts.thy ===== *)
theory LinkConfig_Facts
  imports LinkConfig_Controller
begin

text \<open>
  Facts about the link config controller: which interfaces it manages, which gateway it derives,
  and what each way through \<^verbatim>\<open>Reconcile\<close> does to the cluster and asks of the injector.
\<close>

section \<open>Interfaces\<close>

definition interfaces :: "route list \<Rightarrow> string set" where
  "interfaces rs = (\<lambda>r. TrimSpace (Interface r)) ` set rs - {[]}"

definition state_interfaces :: "link_config_state option \<Rightarrow> string set" where
  "state_interfaces st = (case st of None \<Rightarrow> {} | Some s \<Rightarrow> interfaces (all_routes (StaticRoutes s) (DefaultRoute s)))"

lemma set_route_interfaces: "set (route_interfaces st df) = interfaces (all_routes st df)"
  by (auto simp: route_interfaces_def interfaces_def all_routes_def Let_def split: option.splits)

lemma finite_interfaces [simp]: "finite (interfaces rs)" "finite (state_interfaces st)"
  by (simp_all add: interfaces_def state_interfaces_def split: option.splits)

lemma set_managedInterfacesFromState: "set (managedInterfacesFromState st) = state_interfaces st"
  by (auto simp: managedInterfacesFromState_def state_interfaces_def set_route_interfaces split: option.splits)

lemma set_mergeManagedInterfaces:
  "set (mergeManagedInterfaces prev st df) = interfaces (all_routes st df) \<union> state_interfaces prev"
  by (simp add: mergeManagedInterfaces_def set_route_interfaces set_managedInterfacesFromState)

lemma interfaces_trimmed: "i \<in> interfaces rs \<Longrightarrow> TrimSpace i = i \<and> i \<noteq> []"
  by (auto simp: interfaces_def)

lemma state_interfaces_trimmed: "i \<in> state_interfaces st \<Longrightarrow> TrimSpace i = i \<and> i \<noteq> []"
  by (auto simp: state_interfaces_def dest: interfaces_trimmed split: option.splits)

lemma state_interfaces_simps [simp]:
  "state_interfaces None = {}"
  "state_interfaces (Some s) = interfaces (all_routes (StaticRoutes s) (DefaultRoute s))"
  by (simp_all add: state_interfaces_def)

lemma interfaces_Nil [simp]: "interfaces [] = {}"
  by (simp add: interfaces_def)

lemma all_routes_Nil [simp]: "all_routes [] None = []"
  by (simp add: all_routes_def)

text \<open>The injector's own normalization keeps a list of trimmed interfaces that covers the routes.\<close>

lemma set_normalize_covering:
  assumes "interfaces rs \<subseteq> set ms" and "\<forall>i \<in> set ms. TrimSpace i = i \<and> i \<noteq> []"
  shows "set (normalizeManagedInterfaces ms rs) = set ms"
proof -
  have "TrimSpace ` set ms = set ms" using assms(2) by (auto simp: image_iff)
  then show ?thesis using assms unfolding set_normalizeManagedInterfaces interfaces_def by auto
qed

lemma set_normalize_merge:
  "set (normalizeManagedInterfaces (mergeManagedInterfaces prev st df) (all_routes st df)) =
     interfaces (all_routes st df) \<union> state_interfaces prev"
  by (subst set_normalize_covering)
    (auto simp: set_mergeManagedInterfaces dest: interfaces_trimmed state_interfaces_trimmed)

lemma configs_for_other: "iface \<notin> interfaces rs \<Longrightarrow> iface \<noteq> [] \<Longrightarrow> configs_for iface rs = []"
proof (rule ccontr)
  assume other: "iface \<notin> interfaces rs" and ne: "iface \<noteq> []" and "configs_for iface rs \<noteq> []"
  then obtain c where "c \<in> set (configs_for iface rs)" by (meson last_in_set)
  then obtain r where "r \<in> set rs" "wanted_config r = Some (iface, c)" by (auto simp: configs_for_iff)
  then have "iface \<in> interfaces rs" using wanted_config_interface by (fastforce simp: interfaces_def)
  then show False using other by simp
qed

section \<open>Gateways\<close>

lemma gatewayFromOVNNetwork_gateway:
  "gatewayFromOVNNetwork name n = Inr gw \<Longrightarrow>
     TrimSpace gw = gw \<and> gw \<noteq> [] \<and> gw \<in> TrimSpace ` (insert (GatewayIP n) (set (GatewayIPs n)))"
  by (auto simp: gatewayFromOVNNetwork_def find_Some_iff split: if_splits option.splits)

lemma select_network_match:
  "select_network ip nets = Some r \<Longrightarrow>
     \<exists>name n. (name, n) \<in> set nets \<and> network_matches ip n \<and> r = gatewayFromOVNNetwork name n"
  by (induction ip nets rule: select_network.induct) (auto split: if_splits)

lemma select_network_None:
  "select_network ip nets = None \<longleftrightarrow> (\<forall>(name, n) \<in> set nets. \<not> network_matches ip n)"
  by (induction ip nets rule: select_network.induct) auto

lemma fill_gateway_fields [simp]:
  "Network (fill_gateway gw r) = Network r" "Metric (fill_gateway gw r) = Metric r"
  "Interface (fill_gateway gw r) = Interface r"
  by (simp_all add: fill_gateway_def)

lemma fill_gateways_shape:
  "fill_gateways e c m st df = Inr (st', df') \<Longrightarrow>
     map (\<lambda>r. (Network r, Metric r, Interface r)) st' = map (\<lambda>r. (Network r, Metric r, Interface r)) st
     \<and> map_option (\<lambda>r. (Network r, Metric r, Interface r)) df' = map_option (\<lambda>r. (Network r, Metric r, Interface r)) df"
  by (auto simp: fill_gateways_def option.map_comp comp_def split: if_splits sum.splits)

text \<open>What a derived gateway comes from.\<close>

lemma deriveGateway_source:
  assumes "deriveGatewayFromVMPod e c m = Inr gw"
  shows "\<exists>items p ip nets name n.
    List_pods e (pods c) (m_Namespace m) capkKubevirtMachineNameLabelKey (m_InfrastructureRef_Name m) = Inr items
    \<and> p \<in> set items
    \<and> machine_internal_ip (m_Addresses m) = Some ip
    \<and> Unmarshal_networks (read_map (pod_Annotations p) ovnPodNetworksAnnotationKey) = Inr nets
    \<and> or_make nets name = Some n \<and> network_matches ip n \<and> gatewayFromOVNNetwork name n = Inr gw"
proof -
  obtain ip p where ip: "machine_internal_ip (m_Addresses m) = Some ip"
    and p: "findVMPodForMachine e c m = Inr p"
    and sel: "selectGatewayFromOVNPodNetworks e (read_map (pod_Annotations p) ovnPodNetworksAnnotationKey) ip = Inr gw"
    using assms by (auto simp: deriveGatewayFromVMPod_def machineInternalIP_def Let_def
        split: sum.splits if_splits option.splits)
  obtain items where items:
    "List_pods e (pods c) (m_Namespace m) capkKubevirtMachineNameLabelKey (m_InfrastructureRef_Name m) = Inr items"
    "items \<noteq> []"
    and hd: "p = hd (sort_key (\<lambda>p. if has_networks p then (0 :: nat) else 1) items)"
    using p by (auto simp: findVMPodForMachine_def Let_def split: if_splits sum.splits)
  have pod: "p \<in> set items" unfolding hd by (metis items(2) length_0_conv length_sort hd_in_set set_sort)
  obtain nets where nets: "Unmarshal_networks (read_map (pod_Annotations p) ovnPodNetworksAnnotationKey) = Inr nets"
    and "select_network ip (range_over (network_order e) (or_make nets)) = Some (Inr gw)"
    using sel by (auto simp: selectGatewayFromOVNPodNetworks_def Let_def split: sum.splits if_splits option.splits)
  then obtain name n where "(name, n) \<in> set (range_over (network_order e) (or_make nets))"
    "network_matches ip n" "gatewayFromOVNNetwork name n = Inr gw"
    using select_network_match by metis
  then show ?thesis using ip pod items(1) nets by (auto simp: set_range_over)
qed

section \<open>Ways through Reconcile\<close>

text \<open>
  What the controller relies on of a merge patch: when it succeeds and the stored machine is the
  one that was read, the stored machine becomes the new one and nothing else changes.
\<close>

definition patch_contract :: "env \<Rightarrow> bool" where
  "patch_contract e \<longleftrightarrow> (\<forall>base new objs objs'.
     Patch_machine e base new objs = (None, objs') \<longrightarrow> objs (machine_key base) = Some base
     \<longrightarrow> machine_key new = machine_key base \<longrightarrow> objs' = objs(machine_key base \<mapsto> new))"

lemma persist_cases:
  assumes "persistReconciledLinkConfigState e c m name gen st df = (Inr updated, c')"
  shows "\<exists>v. Marshal_state \<lparr>LinkConfigName = name, LinkConfigGeneration = gen, StaticRoutes = st, DefaultRoute = df\<rparr> = Inr v
    \<and> (if read_map (m_Annotations m) machineLinkConfigStateAnnKey = v then c' = c
       else \<exists>objs. Patch_machine e m (annotated v m) (machines c) = (None, objs) \<and> c' = c\<lparr>machines := objs\<rparr>)"
  using assms by (auto simp: persistReconciledLinkConfigState_def Let_def
      split: sum.splits if_splits option.splits prod.splits)

lemma persist_error:
  "persistReconciledLinkConfigState e c m name gen st df = (Inl err, c') \<Longrightarrow> (\<And>x. err \<noteq> PatchFailed x) \<Longrightarrow> c' = c"
  by (auto simp: persistReconciledLinkConfigState_def Let_def split: sum.splits if_splits option.splits prod.splits)

lemma result_simps [simp]:
  "reconcile_error (finished c) = None" "cluster_after (finished c) = c" "injector_calls (finished c) = []"
  "reconcile_error (failed t err c) = Some err" "cluster_after (failed t err c) = c"
  "injector_calls (failed t err c) = []"
  by (simp_all add: finished_def failed_def)

lemma reconcile_link_config_error:
  "reconcile_error (reconcile_link_config e c m lc st) = Some err \<Longrightarrow> (\<And>x. err \<noteq> PatchFailed x)
   \<Longrightarrow> cluster_after (reconcile_link_config e c m lc st) = c"
  by (auto simp: reconcile_link_config_def Let_def split: sum.splits prod.splits intro: persist_error)

lemma reconcileMissing_error:
  "reconcile_error (reconcileMissingLinkConfig e c m name st) = Some err \<Longrightarrow> (\<And>x. err \<noteq> PatchFailed x)
   \<Longrightarrow> cluster_after (reconcileMissingLinkConfig e c m name st) = c"
  by (auto simp: reconcileMissingLinkConfig_def Let_def split: sum.splits prod.splits option.splits if_splits intro: persist_error)

lemma Reconcile_error_cluster:
  "reconcile_error (Reconcile e k c) = Some err \<Longrightarrow> (\<And>x. err \<noteq> PatchFailed x) \<Longrightarrow> cluster_after (Reconcile e k c) = c"
  unfolding Reconcile_def Let_def
  using reconcile_link_config_error reconcileMissing_error
  by (auto split: fetched.splits sum.splits)

text \<open>Only results with an error ask to be requeued.\<close>

lemma failed_requeue: "reconcile_error (failed t err c) \<noteq> None" "RequeueAfter (finished c) = 0"
  by (simp_all add: failed_def finished_def)

lemma requeue_with_error:
  assumes "reconcile_error (Reconcile e k c) = None"
  shows "RequeueAfter (Reconcile e k c) = 0"
proof -
  have "RequeueAfter (reconcile_link_config e c m lc prev) = 0"
    if "reconcile_error (reconcile_link_config e c m lc prev) = None" for m lc prev
    using that by (auto simp: reconcile_link_config_def Let_def failed_requeue split: sum.splits prod.splits)
  moreover have "RequeueAfter (reconcileMissingLinkConfig e c m name prev) = 0"
    if "reconcile_error (reconcileMissingLinkConfig e c m name prev) = None" for m name prev
    using that by (auto simp: reconcileMissingLinkConfig_def Let_def failed_requeue
        split: option.splits sum.splits prod.splits if_splits)
  ultimately show ?thesis
    using assms by (auto simp: Reconcile_def Let_def failed_requeue split: fetched.splits sum.splits if_splits)
qed

text \<open>The calls of the injector, on every way.\<close>

lemma reconcile_link_config_calls:
  assumes "call \<in> set (injector_calls (reconcile_link_config e c m lc prev))"
  shows "\<exists>st0 df0 st df. extractDesiredRoutes lc = Inr (st0, df0) \<and> fill_gateways e c m st0 df0 = Inr (st, df)
    \<and> call_StaticRoutes call = st \<and> call_DefaultRoute call = df
    \<and> call_ManagedInterfaces call = mergeManagedInterfaces prev st df"
  using assms by (auto simp: reconcile_link_config_def Let_def split: sum.splits prod.splits)

lemma reconcileMissing_calls:
  assumes "call \<in> set (injector_calls (reconcileMissingLinkConfig e c m name prev))"
  shows "call_StaticRoutes call = [] \<and> call_DefaultRoute call = None
    \<and> call_ManagedInterfaces call = managedInterfacesFromState prev"
  using assms by (auto simp: reconcileMissingLinkConfig_def Let_def split: sum.splits prod.splits option.splits if_splits)

text \<open>The ways with a machine that is there: either way of the two, or nothing.\<close>

lemma Reconcile_ways:
  obtains "injector_calls (Reconcile e k c) = []" "cluster_after (Reconcile e k c) = c"
  | m prev where "machines c k = Some m" "\<not> m_Deleting m" "extractLinkConfigStateFromMachine m = Inr prev"
      "fetch e GetLinkConfig (link_configs c) (m_Namespace m, link_config_name m) = ObjectNotFound"
      "Reconcile e k c = reconcileMissingLinkConfig e c m (link_config_name m) prev"
  | m prev lc where "machines c k = Some m" "\<not> m_Deleting m" "extractLinkConfigStateFromMachine m = Inr prev"
      "fetch e GetLinkConfig (link_configs c) (m_Namespace m, link_config_name m) = Fetched lc"
      "Reconcile e k c = reconcile_link_config e c m lc prev"
proof (cases "fetch e GetMachine (machines c) k")
  case (Fetched m)
  then have m: "machines c k = Some m" by (auto simp: fetch_def split: option.splits)
  show ?thesis
  proof (cases "m_Deleting m")
    case True
    then show ?thesis using that(1) Fetched by (simp add: Reconcile_def)
  next
    case False
    show ?thesis
    proof (cases "extractLinkConfigStateFromMachine m")
      case (Inl a)
      then show ?thesis using that(1) Fetched False by (simp add: Reconcile_def)
    next
      case (Inr prev)
      then show ?thesis
        using that(1) that(2) [OF m False Inr] that(3) [OF m False Inr] Fetched False
        by (cases "fetch e GetLinkConfig (link_configs c) (m_Namespace m, link_config_name m)")
          (simp_all add: Reconcile_def)
    qed
  qed
qed (use that(1) in \<open>simp_all add: Reconcile_def\<close>)

section \<open>The stored state\<close>

text \<open>
  What the API server guarantees of the objects it returns: they are filed under their own keys, their
  strings are valid UTF-8 and generations are 64-bit integers.
\<close>

definition wf_link_config :: "link_config_resource \<Rightarrow> bool" where
  "wf_link_config lc \<longleftrightarrow> is_text (lc_Name lc) \<and> fits_int64 (lc_Generation lc)
     \<and> list_all (\<lambda>r. is_text (lcr_Network r) \<and> is_text (lcr_Gateway r) \<and> is_text (lcr_Interface r)) (lc_StaticRoutes lc)
     \<and> (\<forall>d. lc_DefaultRoute lc = Some d \<longrightarrow> is_text (lcd_Gateway d) \<and> is_text (lcd_Interface d))"

definition wf_machine :: "machine \<Rightarrow> bool" where
  "wf_machine m \<longleftrightarrow> is_text (read_map (m_Annotations m) machineLinkConfigAnnKey)"

definition wf_cluster :: "cluster \<Rightarrow> bool" where
  "wf_cluster c \<longleftrightarrow> (\<forall>k m. machines c k = Some m \<longrightarrow> machine_key m = k \<and> wf_machine m)
     \<and> (\<forall>lc \<in> ran (link_configs c). wf_link_config lc)"

lemma wf_clusterD:
  assumes "wf_cluster c" and "machines c k = Some m"
  shows "machine_key m = k" and "wf_machine m"
  using assms unfolding wf_cluster_def by blast+

text \<open>The cluster with the annotation of one machine changed.\<close>

definition patch_annotation :: "object_key \<Rightarrow> string \<Rightarrow> cluster \<Rightarrow> cluster" where
  "patch_annotation k v c = c\<lparr>machines := (machines c)(k := map_option (annotated v) (machines c k))\<rparr>"

lemma patch_annotation_machine:
  "machines c k = Some m \<Longrightarrow> machines (patch_annotation k v c) k = Some (annotated v m)"
  by (simp add: patch_annotation_def)

lemma patch_annotation_rest [simp]:
  "link_configs (patch_annotation k v c) = link_configs c"
  "secrets (patch_annotation k v c) = secrets c" "pods (patch_annotation k v c) = pods c"
  "k' \<noteq> k \<Longrightarrow> machines (patch_annotation k v c) k' = machines c k'"
  by (simp_all add: patch_annotation_def)

lemma keys_differ [simp]: "machineLinkConfigAnnKey \<noteq> machineLinkConfigStateAnnKey"
  by (simp add: machineLinkConfigAnnKey_def machineLinkConfigStateAnnKey_def)

lemma annotated_rest [simp]:
  "m_Deleting (annotated v m) = m_Deleting m" "m_Namespace (annotated v m) = m_Namespace m"
  "m_Name (annotated v m) = m_Name m" "m_ClusterName (annotated v m) = m_ClusterName m"
  "m_Addresses (annotated v m) = m_Addresses m"
  "m_InfrastructureRef_Name (annotated v m) = m_InfrastructureRef_Name m"
  "machine_key (annotated v m) = machine_key m"
  "read_map (m_Annotations (annotated v m)) machineLinkConfigStateAnnKey = v"
  by (simp_all add: annotated_def machine_key_def read_map_def)

lemma link_config_name_annotated [simp]: "link_config_name (annotated v m) = link_config_name m"
  by (simp add: link_config_name_def annotated_def fun_upd_other keys_differ)

lemma extract_current:
  assumes "state_texts st" and "Marshal_state st = Inr v"
    and "read_map (m_Annotations m) machineLinkConfigStateAnnKey = v"
  shows "extractLinkConfigStateFromMachine m = Inr (Some st)"
proof -
  have v: "v \<noteq> []" "TrimSpace v = v" "Unmarshal_state v = Inr st"
    using Marshal_state_trimmed [OF assms(2)] Unmarshal_Marshal_state [OF assms(1,2)] by simp_all
  then obtain ann where "m_Annotations m = Some ann" using assms(3) by (cases "m_Annotations m") (auto simp: read_map_def)
  then show ?thesis using assms(3) v by (simp add: extractLinkConfigStateFromMachine_def)
qed

lemma extract_annotated:
  "state_texts st \<Longrightarrow> Marshal_state st = Inr v \<Longrightarrow> extractLinkConfigStateFromMachine (annotated v m) = Inr (Some st)"
  by (rule extract_current) simp_all

text \<open>After a successful persist, the stored machine carries the payload and is otherwise as before.\<close>

lemma persisted:
  assumes "persistReconciledLinkConfigState e c m name gen st df = (Inr updated, c')"
    and "machines c k = Some m" and "wf_cluster c" and "patch_contract e"
    and "state_texts \<lparr>LinkConfigName = name, LinkConfigGeneration = gen, StaticRoutes = st, DefaultRoute = df\<rparr>"
  shows "\<exists>m' v. machines c' k = Some m'
    \<and> extractLinkConfigStateFromMachine m' =
        Inr (Some \<lparr>LinkConfigName = name, LinkConfigGeneration = gen, StaticRoutes = st, DefaultRoute = df\<rparr>)
    \<and> Marshal_state \<lparr>LinkConfigName = name, LinkConfigGeneration = gen, StaticRoutes = st, DefaultRoute = df\<rparr> = Inr v
    \<and> read_map (m_Annotations m') machineLinkConfigStateAnnKey = v
    \<and> (c' = c \<and> m' = m \<or> c' = patch_annotation k v c \<and> m' = annotated v m)"
proof -
  have key: "machine_key m = k" by (rule wf_clusterD [OF assms(3,2)])
  let ?p = "\<lparr>LinkConfigName = name, LinkConfigGeneration = gen, StaticRoutes = st, DefaultRoute = df\<rparr>"
  obtain v where v: "Marshal_state ?p = Inr v"
    and c': "if read_map (m_Annotations m) machineLinkConfigStateAnnKey = v then c' = c
       else \<exists>objs. Patch_machine e m (annotated v m) (machines c) = (None, objs) \<and> c' = c\<lparr>machines := objs\<rparr>"
    using persist_cases [OF assms(1)] by blast
  show ?thesis
  proof (cases "read_map (m_Annotations m) machineLinkConfigStateAnnKey = v")
    case True
    then show ?thesis using v c' assms(2) extract_current [OF assms(5) v True] by auto
  next
    case False
    then obtain objs where "Patch_machine e m (annotated v m) (machines c) = (None, objs)" "c' = c\<lparr>machines := objs\<rparr>"
      using c' by auto
    moreover from this have "objs = (machines c)(k \<mapsto> annotated v m)"
      using assms(2,4) key annotated_rest(7) [of v m] unfolding patch_contract_def by metis
    ultimately have "c' = patch_annotation k v c" using assms(2) by (simp add: patch_annotation_def)
    then show ?thesis using v extract_annotated [OF assms(5) v, of m] patch_annotation_machine [OF assms(2)] by auto
  qed
qed

section \<open>A call and its success\<close>

lemma reconcile_link_config_Ok:
  assumes "reconcile_error (reconcile_link_config e c m lc prev) = None"
  shows "\<exists>call upd c'. injector_calls (reconcile_link_config e c m lc prev) = [call]
    \<and> Injector e (call_Node call) (call_TalosConfig call) (call_StaticRoutes call) (call_DefaultRoute call)
        (call_ManagedInterfaces call) = Inr ()
    \<and> persistReconciledLinkConfigState e c m (lc_Name lc) (lc_Generation lc) (call_StaticRoutes call)
        (call_DefaultRoute call) = (Inr upd, c')
    \<and> cluster_after (reconcile_link_config e c m lc prev) = c'"
  using assms by (auto simp: reconcile_link_config_def Let_def split: sum.splits prod.splits)

lemma reconcileMissing_Ok:
  assumes "reconcile_error (reconcileMissingLinkConfig e c m name (Some st)) = None"
    and "LinkConfigName st = name" and "state_interfaces (Some st) \<noteq> {}"
  shows "\<exists>call upd c'. injector_calls (reconcileMissingLinkConfig e c m name (Some st)) = [call]
    \<and> call_StaticRoutes call = [] \<and> call_DefaultRoute call = None
    \<and> Injector e (call_Node call) (call_TalosConfig call) (call_StaticRoutes call) (call_DefaultRoute call)
        (call_ManagedInterfaces call) = Inr ()
    \<and> persistReconciledLinkConfigState e c m name 0 [] None = (Inr upd, c')
    \<and> cluster_after (reconcileMissingLinkConfig e c m name (Some st)) = c'"
proof -
  have "managedInterfacesFromState (Some st) \<noteq> []"
    using assms(3) set_managedInterfacesFromState [of "Some st"] by auto
  then show ?thesis using assms(1,2)
    by (auto simp: reconcileMissingLinkConfig_def Let_def split: sum.splits prod.splits)
qed

lemma reconcileMissing_idle:
  assumes "\<And>st. prev = Some st \<Longrightarrow> LinkConfigName st \<noteq> name \<or> state_interfaces (Some st) = {}"
  shows "reconcileMissingLinkConfig e c m name prev = finished c"
proof (cases prev)
  case (Some st)
  then show ?thesis
    using assms set_managedInterfacesFromState [of prev]
    by (auto simp: reconcileMissingLinkConfig_def Let_def)
qed (simp add: reconcileMissingLinkConfig_def)

text \<open>Every call of a successful reconciliation succeeded.\<close>

lemma Reconcile_call_Ok:
  assumes "reconcile_error (Reconcile e k c) = None" and "call \<in> set (injector_calls (Reconcile e k c))"
  shows "Injector e (call_Node call) (call_TalosConfig call) (call_StaticRoutes call) (call_DefaultRoute call)
        (call_ManagedInterfaces call) = Inr ()"
proof (rule Reconcile_ways [of e k c])
  fix m prev
  assume way: "Reconcile e k c = reconcileMissingLinkConfig e c m (link_config_name m) prev"
  show ?thesis using assms unfolding way
    by (auto simp: reconcileMissingLinkConfig_def Let_def split: option.splits if_splits sum.splits prod.splits)
next
  fix m prev lc
  assume way: "Reconcile e k c = reconcile_link_config e c m lc prev"
  show ?thesis using reconcile_link_config_Ok [of e c m lc prev] assms unfolding way by auto
qed (use assms in simp)

lemma Reconcile_call_interfaces:
  assumes "call \<in> set (injector_calls (Reconcile e k c))"
  shows "\<exists>m prev. machines c k = Some m \<and> \<not> m_Deleting m \<and> extractLinkConfigStateFromMachine m = Inr prev
    \<and> set (call_ManagedInterfaces call) =
        interfaces (all_routes (call_StaticRoutes call) (call_DefaultRoute call)) \<union> state_interfaces prev
    \<and> set (normalizeManagedInterfaces (call_ManagedInterfaces call)
           (all_routes (call_StaticRoutes call) (call_DefaultRoute call))) = set (call_ManagedInterfaces call)"
proof (rule Reconcile_ways [of e k c])
  fix m prev
  assume m: "machines c k = Some m" "\<not> m_Deleting m" "extractLinkConfigStateFromMachine m = Inr prev"
    and way: "Reconcile e k c = reconcileMissingLinkConfig e c m (link_config_name m) prev"
  have call: "call_StaticRoutes call = []" "call_DefaultRoute call = None"
    "call_ManagedInterfaces call = managedInterfacesFromState prev"
    using reconcileMissing_calls assms unfolding way by blast+
  have "set (normalizeManagedInterfaces (managedInterfacesFromState prev) []) = state_interfaces prev"
    by (subst set_normalize_covering) (auto simp: set_managedInterfacesFromState dest: state_interfaces_trimmed)
  then show ?thesis using m call by (simp add: set_managedInterfacesFromState)
next
  fix m prev lc
  assume m: "machines c k = Some m" "\<not> m_Deleting m" "extractLinkConfigStateFromMachine m = Inr prev"
    and way: "Reconcile e k c = reconcile_link_config e c m lc prev"
  have "call_ManagedInterfaces call =
      mergeManagedInterfaces prev (call_StaticRoutes call) (call_DefaultRoute call)"
    using reconcile_link_config_calls assms unfolding way by blast
  then show ?thesis using m by (simp add: set_mergeManagedInterfaces set_normalize_merge)
qed (use assms in simp)

section \<open>Routes handed to the injector\<close>

lemma extract_static_interfaces:
  "extract_static i rs = Inr st \<Longrightarrow> \<forall>r \<in> set st. TrimSpace (Interface r) \<noteq> [] \<and> Network r \<noteq> []"
proof (induction i rs arbitrary: st rule: extract_static.induct)
  case (2 i r rs)
  then show ?case by (cases "extract_static (Suc i) rs") (auto split: if_splits)
qed simp

lemma extractDesiredRoutes_interfaces:
  assumes "extractDesiredRoutes lc = Inr (st, df)" and "r \<in> set (all_routes st df)"
  shows "TrimSpace (Interface r) \<noteq> []"
  using assms extract_static_interfaces
  by (auto simp: extractDesiredRoutes_def all_routes_def split: sum.splits option.splits if_splits)

lemma deriveGateway_nonempty: "deriveGatewayFromVMPod e c m = Inr gw \<Longrightarrow> TrimSpace gw \<noteq> []"
  using deriveGateway_source gatewayFromOVNNetwork_gateway by metis

lemma fill_gateway_filled: "TrimSpace gw \<noteq> [] \<Longrightarrow> TrimSpace (Gateway (fill_gateway gw r)) \<noteq> []"
  by (simp add: fill_gateway_def lacks_gateway_def)

lemma fill_gateways_filled:
  assumes "fill_gateways e c m st0 df0 = Inr (st, df)" and "r \<in> set (all_routes st df)"
  shows "TrimSpace (Gateway r) \<noteq> [] \<and> (\<exists>r0 \<in> set (all_routes st0 df0). Interface r = Interface r0)"
proof (cases "needs_gateway st0 df0")
  case True
  then obtain gw where gw: "deriveGatewayFromVMPod e c m = Inr gw"
    and st: "st = map (fill_gateway gw) st0" "df = map_option (fill_gateway gw) df0"
    using assms(1) by (auto simp: fill_gateways_def split: sum.splits)
  then obtain r0 where "r0 \<in> set (all_routes st0 df0)" "r = fill_gateway gw r0"
    using assms(2) by (auto simp: all_routes_def split: option.splits)
  then show ?thesis using fill_gateway_filled [OF deriveGateway_nonempty [OF gw]] by auto
next
  case False
  then have "st = st0" "df = df0" using assms(1) by (simp_all add: fill_gateways_def)
  moreover have "\<not> lacks_gateway x" if "x \<in> set (all_routes st0 df0)" for x
    using False that by (auto simp: needs_gateway_def all_routes_def list_ex_iff split: option.splits)
  ultimately show ?thesis using assms(2) by (auto simp: lacks_gateway_def)
qed

lemma Reconcile_call_routes:
  assumes "call \<in> set (injector_calls (Reconcile e k c))"
    and "r \<in> set (all_routes (call_StaticRoutes call) (call_DefaultRoute call))"
  shows "TrimSpace (Gateway r) \<noteq> [] \<and> TrimSpace (Interface r) \<noteq> []"
proof (rule Reconcile_ways [of e k c])
  fix m prev
  assume way: "Reconcile e k c = reconcileMissingLinkConfig e c m (link_config_name m) prev"
  have "call_StaticRoutes call = []" "call_DefaultRoute call = None"
    using reconcileMissing_calls assms(1) unfolding way by blast+
  then show ?thesis using assms(2) by simp
next
  fix m prev lc
  assume way: "Reconcile e k c = reconcile_link_config e c m lc prev"
  obtain st0 df0 where "extractDesiredRoutes lc = Inr (st0, df0)"
    and "fill_gateways e c m st0 df0 = Inr (call_StaticRoutes call, call_DefaultRoute call)"
    using reconcile_link_config_calls assms(1) unfolding way by blast
  then show ?thesis using fill_gateways_filled [OF _ assms(2)] extractDesiredRoutes_interfaces by metis
qed (use assms in simp)

section \<open>The payload\<close>

text \<open>What is recorded is text: the link config's strings, and gateways that were decoded and trimmed.\<close>

lemma deriveGateway_text: "deriveGatewayFromVMPod e c m = Inr gw \<Longrightarrow> is_text gw"
proof -
  assume "deriveGatewayFromVMPod e c m = Inr gw"
  from deriveGateway_source [OF this] obtain raw nets name n where "Unmarshal_networks raw = Inr nets"
    "or_make nets name = Some n" and gw: "gatewayFromOVNNetwork name n = Inr gw" by blast
  then have "network_texts n" using Unmarshal_networks_texts by blast
  moreover have "gw \<in> TrimSpace ` (insert (GatewayIP n) (set (GatewayIPs n)))" using gatewayFromOVNNetwork_gateway [OF gw] by blast
  ultimately show ?thesis by (auto simp: network_texts_def list_all_iff intro: TrimSpace_text)
qed

lemma extract_static_texts:
  "extract_static i rs = Inr st \<Longrightarrow>
     list_all (\<lambda>r. is_text (lcr_Network r) \<and> is_text (lcr_Gateway r) \<and> is_text (lcr_Interface r)) rs
     \<Longrightarrow> list_all route_texts st"
proof (induction i rs arbitrary: st rule: extract_static.induct)
  case (2 i r rs)
  then show ?case by (cases "extract_static (Suc i) rs") (auto simp: route_texts_def split: if_splits)
qed simp

lemma fill_gateway_texts: "is_text gw \<Longrightarrow> route_texts r \<Longrightarrow> route_texts (fill_gateway gw r)"
  by (simp add: fill_gateway_def route_texts_def)

lemma payload_texts:
  assumes "wf_link_config lc" and "extractDesiredRoutes lc = Inr (st0, df0)"
    and "fill_gateways e c m st0 df0 = Inr (st, df)"
  shows "state_texts \<lparr>LinkConfigName = lc_Name lc, LinkConfigGeneration = lc_Generation lc, StaticRoutes = st, DefaultRoute = df\<rparr>"
proof -
  have st0: "list_all route_texts st0"
    using assms(1,2) extract_static_texts [of 0 "lc_StaticRoutes lc" st0]
    by (auto simp: extractDesiredRoutes_def wf_link_config_def split: sum.splits option.splits if_splits)
  have df0: "route_texts r" if "df0 = Some r" for r
    using assms(1,2) that
    by (auto simp: extractDesiredRoutes_def wf_link_config_def route_texts_def split: sum.splits option.splits if_splits)
  have "list_all route_texts st \<and> (\<forall>r. df = Some r \<longrightarrow> route_texts r)"
  proof (cases "needs_gateway st0 df0")
    case True
    then obtain gw where "deriveGatewayFromVMPod e c m = Inr gw"
      and st: "st = map (fill_gateway gw) st0" "df = map_option (fill_gateway gw) df0"
      using assms(3) by (auto simp: fill_gateways_def split: sum.splits)
    then show ?thesis using st0 df0 deriveGateway_text fill_gateway_texts
      by (auto simp: list_all_iff)
  next
    case False
    then show ?thesis using assms(3) st0 df0 by (simp add: fill_gateways_def)
  qed
  then show ?thesis using assms(1) by (simp add: state_texts_def wf_link_config_def)
qed

lemma link_config_name_text: "wf_machine m \<Longrightarrow> is_text (link_config_name m)"
proof -
  have "is_text defaultLinkConfigName" by (rule is_text_ascii) (simp add: defaultLinkConfigName_def)
  then show "wf_machine m \<Longrightarrow> ?thesis"
    by (auto simp: wf_machine_def link_config_name_def read_map_def or_make_def split: option.splits)
qed

lemma empty_payload_texts:
  "wf_cluster c \<Longrightarrow> machines c k = Some m \<Longrightarrow>
     state_texts \<lparr>LinkConfigName = link_config_name m, LinkConfigGeneration = 0, StaticRoutes = [], DefaultRoute = None\<rparr>"
  using link_config_name_text wf_clusterD(2) by (simp add: state_texts_def fits_int64_def)

lemma fetched_link_config:
  assumes "wf_cluster c" and "fetch e GetLinkConfig (link_configs c) k = Fetched lc"
  shows "wf_link_config lc"
proof -
  have "link_configs c k = Some lc" using assms(2) by (auto simp: fetch_def split: option.splits)
  then show ?thesis using assms(1) ranI unfolding wf_cluster_def by metis
qed

section \<open>Reconciling again\<close>

text \<open>The way of a reconciliation does not depend on the state annotation.\<close>

lemma fill_gateways_annotated:
  "fill_gateways e (patch_annotation k v c) (annotated v m) st df = fill_gateways e c m st df"
proof -
  have "deriveGatewayFromVMPod e (patch_annotation k v c) (annotated v m) = deriveGatewayFromVMPod e c m"
    unfolding deriveGatewayFromVMPod_def machineInternalIP_def findVMPodForMachine_def 
      annotated_rest patch_annotation_rest ..
  then show ?thesis by (simp add: fill_gateways_def)
qed

lemma node_annotated [simp]: "extractNodeFromMachine (annotated v m) = extractNodeFromMachine m"
  unfolding extractNodeFromMachine_def annotated_rest ..

lemma talosconfig_annotated [simp]:
  "extractTalosConfigFromClusterSecret e (patch_annotation k v c) (annotated v m) =
     extractTalosConfigFromClusterSecret e c m"
  unfolding extractTalosConfigFromClusterSecret_def annotated_rest patch_annotation_rest ..

lemma persist_current:
  assumes "Marshal_state \<lparr>LinkConfigName = name, LinkConfigGeneration = gen, StaticRoutes = st, DefaultRoute = df\<rparr> = Inr v"
    and "read_map (m_Annotations m) machineLinkConfigStateAnnKey = v"
  shows "persistReconciledLinkConfigState e c m name gen st df = (Inr False, c)"
  using assms by (simp add: persistReconciledLinkConfigState_def Let_def)

text \<open>
  If the cluster and the machine only differ in a current annotation, a second reconciliation with
  the link config does not write.
\<close>

lemma reconcile_link_config_settled:
  assumes "extractDesiredRoutes lc = Inr (st0, df0)" and "fill_gateways e c m st0 df0 = Inr (st, df)"
    and "Marshal_state \<lparr>LinkConfigName = lc_Name lc, LinkConfigGeneration = lc_Generation lc,
           StaticRoutes = st, DefaultRoute = df\<rparr> = Inr v"
    and "read_map (m_Annotations m) machineLinkConfigStateAnnKey = v"
  shows "cluster_after (reconcile_link_config e c m lc prev) = c"
  using assms persist_current [OF assms(3,4)]
  by (auto simp: reconcile_link_config_def Let_def split: sum.splits)

text \<open>After a success the machine's annotation is current, so nothing is written again.\<close>

lemma Reconcile_settled_link_config:
  assumes "wf_cluster c" and "machines c k = Some m" and "\<not> m_Deleting m"
    and "fetch e GetLinkConfig (link_configs c) (m_Namespace m, link_config_name m) = Fetched lc"
    and "fails e (GetMachine k) = None"
    and "reconcile_error (reconcile_link_config e c m lc prev) = None" and "patch_contract e"
  shows "cluster_after (Reconcile e k (cluster_after (reconcile_link_config e c m lc prev)))
    = cluster_after (reconcile_link_config e c m lc prev)"
proof -
  obtain call upd c' where call: "injector_calls (reconcile_link_config e c m lc prev) = [call]"
    and persist: "persistReconciledLinkConfigState e c m (lc_Name lc) (lc_Generation lc) (call_StaticRoutes call)
        (call_DefaultRoute call) = (Inr upd, c')" and c': "cluster_after (reconcile_link_config e c m lc prev) = c'"
    using reconcile_link_config_Ok [OF assms(6)] by blast
  have lc: "wf_link_config lc" by (rule fetched_link_config [OF assms(1,4)])
  obtain st0 df0 where routes: "extractDesiredRoutes lc = Inr (st0, df0)"
    and fill: "fill_gateways e c m st0 df0 = Inr (call_StaticRoutes call, call_DefaultRoute call)"
    using reconcile_link_config_calls [of call e c m lc prev] call by auto
  obtain m' v where m': "machines c' k = Some m'"
    and v: "Marshal_state \<lparr>LinkConfigName = lc_Name lc, LinkConfigGeneration = lc_Generation lc,
        StaticRoutes = call_StaticRoutes call, DefaultRoute = call_DefaultRoute call\<rparr> = Inr v"
    "read_map (m_Annotations m') machineLinkConfigStateAnnKey = v"
    and ex: "extractLinkConfigStateFromMachine m' =
        Inr (Some \<lparr>LinkConfigName = lc_Name lc, LinkConfigGeneration = lc_Generation lc,
                  StaticRoutes = call_StaticRoutes call, DefaultRoute = call_DefaultRoute call\<rparr>)"
    and change: "c' = c \<and> m' = m \<or> c' = patch_annotation k v c \<and> m' = annotated v m"
    using persisted [OF persist assms(2,1,7) payload_texts [OF lc routes fill]] by blast
  have "fill_gateways e c' m' st0 df0 = Inr (call_StaticRoutes call, call_DefaultRoute call)"
    using change fill fill_gateways_annotated by metis
  note settled = reconcile_link_config_settled [OF routes this v]
  have same: "m_Deleting m' = m_Deleting m" "m_Namespace m' = m_Namespace m" "link_config_name m' = link_config_name m"
    "link_configs c' = link_configs c" using change by auto
  have "fetch e GetMachine (machines c') k = Fetched m'" using m' assms(5) by (simp add: fetch_def)
  then have "cluster_after (Reconcile e k c') = c'"
    using ex same assms(3,4) settled by (simp add: Reconcile_def)
  then show ?thesis by (simp add: c')
qed

lemma Reconcile_settled_missing:
  assumes "wf_cluster c" and "machines c k = Some m" and "\<not> m_Deleting m"
    and "fetch e GetLinkConfig (link_configs c) (m_Namespace m, link_config_name m) = ObjectNotFound"
    and "extractLinkConfigStateFromMachine m = Inr prev" and "fails e (GetMachine k) = None"
    and "reconcile_error (reconcileMissingLinkConfig e c m (link_config_name m) prev) = None"
    and "patch_contract e"
  shows "cluster_after (Reconcile e k (cluster_after (reconcileMissingLinkConfig e c m (link_config_name m) prev)))
    = cluster_after (reconcileMissingLinkConfig e c m (link_config_name m) prev)"
proof (cases "\<exists>st. prev = Some st \<and> LinkConfigName st = link_config_name m \<and> state_interfaces (Some st) \<noteq> {}")
  case False
  then have idle: "reconcileMissingLinkConfig e c m (link_config_name m) prev = finished c"
    by (intro reconcileMissing_idle) auto
  then show ?thesis using assms(2-6) by (simp add: Reconcile_def fetch_def [of e GetMachine] idle)
next
  case True
  then obtain st where st: "prev = Some st" "LinkConfigName st = link_config_name m" "state_interfaces (Some st) \<noteq> {}"
    by blast
  let ?name = "link_config_name m"
  obtain upd c' where persist: "persistReconciledLinkConfigState e c m ?name 0 [] None = (Inr upd, c')"
    and c': "cluster_after (reconcileMissingLinkConfig e c m ?name prev) = c'"
    using reconcileMissing_Ok [OF assms(7) [unfolded st(1)] st(2,3)] st(1) by auto
  obtain m' v where m': "machines c' k = Some m'"
    and ex: "extractLinkConfigStateFromMachine m' =
        Inr (Some \<lparr>LinkConfigName = ?name, LinkConfigGeneration = 0, StaticRoutes = [], DefaultRoute = None\<rparr>)"
    and change: "c' = c \<and> m' = m \<or> c' = patch_annotation k v c \<and> m' = annotated v m"
    using persisted [OF persist assms(2,1,8) empty_payload_texts [OF assms(1,2)]] by blast
  have same: "m_Deleting m' = m_Deleting m" "m_Namespace m' = m_Namespace m" "link_config_name m' = ?name"
    "link_configs c' = link_configs c" using change by auto
  have "reconcileMissingLinkConfig e c' m' ?name (Some \<lparr>LinkConfigName = ?name, LinkConfigGeneration = 0,
      StaticRoutes = [], DefaultRoute = None\<rparr>) = finished c'"
    by (rule reconcileMissing_idle) auto
  moreover have "fetch e GetMachine (machines c') k = Fetched m'" using m' assms(6) by (simp add: fetch_def)
  ultimately have "cluster_after (Reconcile e k c') = c'"
    using ex same assms(3,4) by (simp add: Reconcile_def)
  then show ?thesis by (simp add: c')
qed

lemma Reconcile_settled:
  assumes "wf_cluster c" and "reconcile_error (Reconcile e k c) = None" and "patch_contract e"
  shows "cluster_after (Reconcile e k (cluster_after (Reconcile e k c))) = cluster_after (Reconcile e k c)"
proof (rule Reconcile_ways [of e k c])
  assume "cluster_after (Reconcile e k c) = c"
  then show ?thesis by simp
next
  fix m prev
  assume m: "machines c k = Some m" "\<not> m_Deleting m" "extractLinkConfigStateFromMachine m = Inr prev"
    and none: "fetch e GetLinkConfig (link_configs c) (m_Namespace m, link_config_name m) = ObjectNotFound"
    and way: "Reconcile e k c = reconcileMissingLinkConfig e c m (link_config_name m) prev"
  have "fails e (GetMachine k) = None"
    using assms(2) by (auto simp: Reconcile_def fetch_def split: option.splits)
  then show ?thesis using Reconcile_settled_missing [OF assms(1) m(1,2) none m(3)] assms(2,3) unfolding way by blast
next
  fix m prev lc
  assume m: "machines c k = Some m" "\<not> m_Deleting m"
    and lc: "fetch e GetLinkConfig (link_configs c) (m_Namespace m, link_config_name m) = Fetched lc"
    and way: "Reconcile e k c = reconcile_link_config e c m lc prev"
  have "fails e (GetMachine k) = None"
    using assms(2) by (auto simp: Reconcile_def fetch_def split: option.splits)
  then show ?thesis using Reconcile_settled_link_config [OF assms(1) m lc] assms(2,3) unfolding way by blast
qed

end
