(* ===== verification/LinkConfig_Properties.thy ===== *)
theory LinkConfig_Properties
  imports LinkConfig_Facts Routes_Properties
begin

text \<open>
  What the link config controller guarantees: an error changes nothing, a success is recorded on
  the machine, the managed interfaces are those of the routes and of the recorded state, removed
  routes are pruned from the node when the injector is the Talos injector, and gateways come from
  the network of the machine.
\<close>

section \<open>A cluster for the witnesses\<close>

definition ex_machine :: machine where
  "ex_machine = \<lparr>m_Name = ''m'', m_Namespace = ''n'', m_Annotations = None, m_Deleting = False,
     m_ClusterName = ''c'', m_InfrastructureRef_Name = ''vm'',
     m_Addresses = [\<lparr>addr_Type = MachineInternalIP, addr_Address = ''10.0.0.5''\<rparr>]\<rparr>"

definition ex_link_config :: link_config_resource where
  "ex_link_config = \<lparr>lc_Name = ''default'', lc_Namespace = ''n'', lc_Generation = 3, lc_StaticRoutes = [],
     lc_DefaultRoute = Some \<lparr>lcd_Interface = ''eth1'', lcd_Gateway = ''10.79.130.1'', lcd_Metric = 100\<rparr>\<rparr>"

text \<open>The recorded states: one for the route above, one for no routes, and their annotations.\<close>

definition ex_state :: link_config_state where
  "ex_state = \<lparr>LinkConfigName = ''default'', LinkConfigGeneration = 3, StaticRoutes = [], DefaultRoute = Some ex_route\<rparr>"

definition ex_none :: link_config_state where
  "ex_none = \<lparr>LinkConfigName = ''default'', LinkConfigGeneration = 0, StaticRoutes = [], DefaultRoute = None\<rparr>"

definition ex_text :: string where
  "ex_text = json_print (state_json ex_state)"

definition ex_none_text :: string where
  "ex_none_text = json_print (state_json ex_none)"

text \<open>The Talos injector as the controller's injector.\<close>

definition talos_injector ::
  "('x, 's) talos_env \<Rightarrow> node \<Rightarrow> bytes \<Rightarrow> route list \<Rightarrow> route option \<Rightarrow> string list \<Rightarrow> ensure_error + unit" where
  "talos_injector te nd talosConfig st df ms =
     (case snd (EnsureRoutes te nd talosConfig st df ms) of
        Some r \<Rightarrow> r
      | None \<Rightarrow> Inl (WaitRoutes (ContextErr ''context deadline exceeded'')))"

text \<open>An API server that lists the one machine it may hold, and stores what it is given.\<close>

definition ex_list_machines :: "(object_key \<rightharpoonup> machine) \<Rightarrow> string \<Rightarrow> string + machine list" where
  "ex_list_machines objs ns =
     (case objs (''n'', ''m'') of None \<Rightarrow> Inr [] | Some m \<Rightarrow> Inr (filter (\<lambda>m. m_Namespace m = ns) [m]))"

definition ex_patch :: "machine \<Rightarrow> machine \<Rightarrow> (object_key \<rightharpoonup> machine) \<Rightarrow> string option \<times> (object_key \<rightharpoonup> machine)" where
  "ex_patch base new objs = (None, objs(machine_key new \<mapsto> new))"

definition ex_controller :: "bytes \<Rightarrow> env" where
  "ex_controller body = \<lparr>fails = (\<lambda>call. None), network_order = [],
     List_pods = (\<lambda>ps n l v. Inr []), List_machines = ex_list_machines, Patch_machine = ex_patch,
     Injector = talos_injector (ex_env body)\<rparr>"

definition ex_cluster :: "machine \<Rightarrow> link_config_resource option \<Rightarrow> cluster" where
  "ex_cluster m lc = \<lparr>machines = [(''n'', ''m'') \<mapsto> m],
     link_configs = (\<lambda>k. if k = (''n'', ''default'') then lc else None),
     secrets = [(''n'', ''c-talosconfig'') \<mapsto> Some [''talosconfig'' \<mapsto> ''cfg'']], pods = []\<rparr>"

lemma ex_controller_simps [simp]:
  "fails (ex_controller b) call = None" "Injector (ex_controller b) = talos_injector (ex_env b)"
  "List_machines (ex_controller b) = ex_list_machines" "Patch_machine (ex_controller b) = ex_patch"
  by (simp_all add: ex_controller_def)

lemma plain_texts [simp]: "is_text ''eth1''" "is_text ''10.79.130.1''" "is_text ''default''"
  by (rule is_text_ascii, simp)+

lemma ex_Marshal [simp]: "Marshal_state ex_state = Inr ex_text" "Marshal_state ex_none = Inr ex_none_text"
  by (simp_all add: Marshal_state_def ex_text_def ex_none_text_def)

lemma ex_state_texts: "state_texts ex_state" "state_texts ex_none"
  by (simp_all add: state_texts_def ex_state_def ex_none_def ex_route_def route_texts_def fits_int64_def)

lemma ex_texts: "ex_text \<noteq> []" "ex_none_text \<noteq> []" "ex_text \<noteq> ex_none_text" "[] \<noteq> ex_text"
proof -
  have "ex_state \<noteq> ex_none" by (simp add: ex_state_def ex_none_def)
  then show "ex_text \<noteq> ex_none_text"
    using Unmarshal_Marshal_state [OF ex_state_texts(1)] Unmarshal_Marshal_state [OF ex_state_texts(2)] by fastforce
  show "ex_text \<noteq> []" "ex_none_text \<noteq> []" "[] \<noteq> ex_text"
    using Marshal_state_trimmed [of ex_state] Marshal_state_trimmed [of ex_none] by auto
qed

lemma ex_wf_link_config: "wf_link_config ex_link_config"
  by (simp add: wf_link_config_def ex_link_config_def fits_int64_def)

lemma ex_contract: "patch_contract (ex_controller b)"
  by (simp add: patch_contract_def ex_patch_def)

lemma ex_wf_cluster:
  "machine_key m = (''n'', ''m'') \<Longrightarrow> wf_machine m \<Longrightarrow> lc \<in> {None, Some ex_link_config} \<Longrightarrow> wf_cluster (ex_cluster m lc)"
  by (auto simp: wf_cluster_def ex_cluster_def ran_def ex_wf_link_config split: if_splits)

lemma ex_wf_machine [simp]: "wf_machine ex_machine"
  by (simp add: wf_machine_def ex_machine_def read_map_def)

lemma ex_extract: "extractDesiredRoutes ex_link_config = Inr ([], Some ex_route)"
  by (simp add: extractDesiredRoutes_def ex_link_config_def ex_route_def)

lemma ex_fill: "fill_gateways e c m [] (Some ex_route) = Inr ([], Some ex_route)"
proof -
  have "TrimSpace (Gateway ex_route) \<noteq> []" by (simp add: ex_route_def)
  then show ?thesis by (simp add: fill_gateways_def needs_gateway_def lacks_gateway_def)
qed

lemma ex_interfaces [simp]: "interfaces [ex_route] = {''eth1''}"
  by (simp add: interfaces_def) (simp add: ex_route_def)

lemma ex_all_routes [simp]: "all_routes [] (Some ex_route) = [ex_route]"
  by (simp add: all_routes_def)

text \<open>The first reconciliation of the machine: the node gets the config and the machine the state.\<close>

definition ex_call :: injector_call where
  "ex_call = \<lparr>call_Node = ex_node, call_TalosConfig = ''cfg'', call_StaticRoutes = [], call_DefaultRoute = Some ex_route,
     call_ManagedInterfaces = [''eth1'']\<rparr>"

lemma ex_node_of: "extractNodeFromMachine ex_machine = Inr ex_node"
  by (simp add: extractNodeFromMachine_def ex_machine_def ex_node_def node_port_def)

lemma ex_talosconfig: "extractTalosConfigFromClusterSecret (ex_controller b) (ex_cluster m lc) ex_machine = Inr ''cfg''"
  by (simp add: extractTalosConfigFromClusterSecret_def ex_machine_def ex_cluster_def fetch_def read_map_def Let_def)

lemma ex_merge: "mergeManagedInterfaces None [] (Some ex_route) = [''eth1'']"
  by (simp add: mergeManagedInterfaces_def managedInterfacesFromState_def set_route_interfaces)

lemma ex_injector: "talos_injector (ex_env ''A'') ex_node ''cfg'' [] (Some ex_route) [''eth1''] = Inr ()"
  using ex_ensure_routes [of "[]" "Some ex_route" "[''eth1'']"]
  by (simp add: talos_injector_def ex_managed)

lemma ex_payload:
  "\<lparr>LinkConfigName = lc_Name ex_link_config, LinkConfigGeneration = lc_Generation ex_link_config,
    StaticRoutes = [], DefaultRoute = Some ex_route\<rparr> = ex_state"
  by (simp add: ex_link_config_def ex_state_def)

lemma ex_fetches [simp]:
  "fetch (ex_controller b) GetMachine (machines (ex_cluster m lc)) (''n'', ''m'') = Fetched m"
  "fetch (ex_controller b) GetLinkConfig (link_configs (ex_cluster m lc)) (''n'', ''default'') =
     (case lc of None \<Rightarrow> ObjectNotFound | Some x \<Rightarrow> Fetched x)"
  "machines (ex_cluster m lc) (''n'', ''m'') = Some m"
  by (simp_all add: fetch_def ex_cluster_def)

lemma ex_machine_simps [simp]:
  "m_Deleting ex_machine = False" "m_Namespace ex_machine = ''n''" "link_config_name ex_machine = ''default''"
  "machine_key ex_machine = (''n'', ''m'')" "extractLinkConfigStateFromMachine ex_machine = Inr None"
  "read_map (m_Annotations ex_machine) k = []"
  by (simp_all add: ex_machine_def link_config_name_def defaultLinkConfigName_def machine_key_def
      extractLinkConfigStateFromMachine_def read_map_def)

lemma ex_reconcile_first:
  "Reconcile (ex_controller ''A'') (''n'', ''m'') (ex_cluster ex_machine (Some ex_link_config)) =
     \<lparr>RequeueAfter = 0, reconcile_error = None,
      injector_calls = [ex_call],
      cluster_after = patch_annotation (''n'', ''m'') ex_text (ex_cluster ex_machine (Some ex_link_config))\<rparr>"
proof -
  let ?e = "ex_controller ''A''" and ?c = "ex_cluster ex_machine (Some ex_link_config)"
  have "persistReconciledLinkConfigState ?e ?c ex_machine (lc_Name ex_link_config) (lc_Generation ex_link_config)
      [] (Some ex_route) = (Inr True, patch_annotation (''n'', ''m'') ex_text ?c)"
    by (simp add: persistReconciledLinkConfigState_def ex_payload ex_texts ex_patch_def
        patch_annotation_def Let_def)
  then have "reconcile_link_config ?e ?c ex_machine ex_link_config None =
     \<lparr>RequeueAfter = 0, reconcile_error = None,
      injector_calls = [ex_call],
      cluster_after = patch_annotation (''n'', ''m'') ex_text ?c\<rparr>"
    by (simp add: reconcile_link_config_def ex_extract ex_node_of ex_talosconfig ex_fill ex_merge ex_injector
        finished_def ex_call_def)
  then show ?thesis by (simp add: Reconcile_def)
qed

section \<open>Errors and successes\<close>

text \<open>
  C21. A reconciliation that returns an error leaves every object of the cluster as it was, unless
  it is the last step, the patch, that failed: the state annotation is written only after the
  injector has succeeded.
\<close>

theorem Reconcile_error_keeps_cluster:
  assumes "reconcile_error (Reconcile e k c) = Some err" and "\<And>x. err \<noteq> PatchFailed x"
  shows "cluster_after (Reconcile e k c) = c"
  using Reconcile_error_cluster [OF assms] .

definition ex_broken :: machine where
  "ex_broken = ex_machine\<lparr>m_Addresses := []\<rparr>"

theorem Reconcile_error_keeps_cluster_witness:
  "cluster_after (Reconcile (ex_controller ''A'') (''n'', ''m'') (ex_cluster ex_broken (Some ex_link_config)))
     = ex_cluster ex_broken (Some ex_link_config)"
proof (rule Reconcile_error_keeps_cluster [of _ _ _ NoUsableIP])
  have "link_config_name ex_broken = ''default''" "\<not> m_Deleting ex_broken" "m_Namespace ex_broken = ''n''"
    "extractLinkConfigStateFromMachine ex_broken = Inr None"
    "extractNodeFromMachine ex_broken = Inl NoUsableIP"
    by (simp_all add: ex_broken_def ex_machine_def link_config_name_def defaultLinkConfigName_def
        extractLinkConfigStateFromMachine_def extractNodeFromMachine_def)
  then show "reconcile_error (Reconcile (ex_controller ''A'') (''n'', ''m'') (ex_cluster ex_broken (Some ex_link_config))) = Some NoUsableIP"
    by (simp add: Reconcile_def reconcile_link_config_def ex_extract)
qed simp



section \<open>Ownership of interfaces\<close>

text \<open>
  The injector is asked to manage exactly the interfaces of the routes of the call and those of
  the state recorded on the machine.
\<close>

theorem Reconcile_managed_interfaces:
  "call \<in> set (injector_calls (Reconcile e k c)) \<Longrightarrow>
     \<exists>m prev. machines c k = Some m \<and> \<not> m_Deleting m \<and> extractLinkConfigStateFromMachine m = Inr prev
       \<and> set (call_ManagedInterfaces call) =
           interfaces (all_routes (call_StaticRoutes call) (call_DefaultRoute call)) \<union> state_interfaces prev"
  using Reconcile_call_interfaces by blast

theorem Reconcile_managed_interfaces_witness:
  "set (call_ManagedInterfaces ex_call) = interfaces [ex_route] \<union> state_interfaces None"
proof -
  have "ex_call \<in> set (injector_calls (Reconcile (ex_controller ''A'') (''n'', ''m'') (ex_cluster ex_machine (Some ex_link_config))))"
    by (simp add: ex_reconcile_first)
  from Reconcile_managed_interfaces [OF this] show ?thesis by (auto simp: ex_call_def)
qed



section \<open>Deleted link configs\<close>


definition ex_managed_machine :: machine where
  "ex_managed_machine = ex_machine\<lparr>m_Annotations := Some [machineLinkConfigStateAnnKey \<mapsto> ex_text]\<rparr>"


text \<open>
  C25. What a failed reconciliation applied is not owned: if the first reconciliation of a machine
  fails, even after the node took the config, and the link config is then deleted, no later
  reconciliation asks the injector for anything, so the applied routes stay. The witness is a node
  that accepts the config and whose wait is cut short.
\<close>

theorem failed_then_deleted_stays:
  assumes "reconcile_error (Reconcile e k c) = Some (EnsureRoutesFailed err)"
    and "machines c k = Some m" and "extractLinkConfigStateFromMachine m = Inr None"
  shows "injector_calls (Reconcile e' k ((cluster_after (Reconcile e k c))\<lparr>link_configs := Map.empty\<rparr>)) = []"
proof -
  let ?c = "c\<lparr>link_configs := Map.empty\<rparr>"
  have "injector_calls (Reconcile e' k ?c) = []"
  proof (rule Reconcile_ways [of e' k ?c])
    fix m' prev
    assume m': "machines ?c k = Some m'" "extractLinkConfigStateFromMachine m' = Inr prev"
      and way: "Reconcile e' k ?c = reconcileMissingLinkConfig e' ?c m' (link_config_name m') prev"
    have "prev = None" using m' assms(2,3) by simp
    then show ?thesis unfolding way by (simp add: reconcileMissing_idle)
  next
    fix m' lc
    assume "fetch e' GetLinkConfig (link_configs ?c) (m_Namespace m', link_config_name m') = Fetched lc"
    then show ?thesis by (simp add: fetch_def split: option.splits)
  qed
  then show ?thesis using Reconcile_error_cluster [OF assms(1)] by simp
qed

definition ex_slow_env :: "(unit, bytes) talos_env" where
  "ex_slow_env = (ex_env ''A'')\<lparr>wait_polls :=
     [\<lparr>poll_Get = (\<lambda>i. NotFoundError), poll_Now = ex_at 1, poll_Done = Some ''deadline exceeded''\<rparr>]\<rparr>"

lemma ex_slow_simps [simp]:
  "FromBytes ex_slow_env x = None" "talosclient_New ex_slow_env x y = None"
  "COSI_Get ex_slow_env = Inr \<lparr>mc_Annotations_Empty = True, mc_Spec = ''A''\<rparr>"
  "extractMachineConfigBody ex_slow_env \<lparr>mc_Annotations_Empty = True, mc_Spec = b\<rparr> = Inr b"
  "ApplyConfiguration ex_slow_env x = None" "config ex_slow_env = ex_lib" "net_lib ex_slow_env = ex_net"
  "wait_start ex_slow_env = ex_at 0"
  "wait_polls ex_slow_env =
     [\<lparr>poll_Get = (\<lambda>i. NotFoundError), poll_Now = ex_at 1, poll_Done = Some ''deadline exceeded''\<rparr>]"
  by (simp_all add: ex_slow_env_def ex_env_def extractMachineConfigBody_def)

lemma ex_slow_ensure:
  "EnsureRoutes ex_slow_env ex_node ''cfg'' [] (Some ex_route) [''eth1''] =
     ([\<lparr>request_Data = ''B'', accepted = True\<rparr>], Some (Inl (WaitRoutes (ContextErr ''deadline exceeded''))))"
proof -
  have "\<not> time_after (ex_at 1) (time_add (ex_at 0) (30 * ns_per_second))"
    by (simp add: time_after_def time_add_def ex_at_def ns_per_second_def fits_int64_def)
  then have "wait_for_routes ex_slow_env [ex_route] = Some (Inl (WaitRoutes (ContextErr ''deadline exceeded'')))"
    by (simp add: wait_for_routes_def waitForRoutesApplied_def ex_expected)
  then have "ensureRouteSet ex_slow_env ''A'' [''eth1''] [ex_route] =
     ([\<lparr>request_Data = ''B'', accepted = True\<rparr>], Some (Inl (WaitRoutes (ContextErr ''deadline exceeded''))))"
    by (simp add: ensureRouteSet_def ex_managed ex_desired ex_reconcile applyMachineConfig_def)
  then show ?thesis by (simp add: EnsureRoutes_def ex_managed ex_node_def Let_def)
qed

lemma ex_reconcile_slow:
  "Reconcile ((ex_controller ''A'')\<lparr>Injector := talos_injector ex_slow_env\<rparr>) (''n'', ''m'')
     (ex_cluster ex_machine (Some ex_link_config)) =
   \<lparr>RequeueAfter = retry, reconcile_error = Some (EnsureRoutesFailed (WaitRoutes (ContextErr ''deadline exceeded''))),
    injector_calls = [ex_call], cluster_after = ex_cluster ex_machine (Some ex_link_config)\<rparr>"
proof -
  let ?e = "(ex_controller ''A'')\<lparr>Injector := talos_injector ex_slow_env\<rparr>"
    and ?c = "ex_cluster ex_machine (Some ex_link_config)"
  have inj: "talos_injector ex_slow_env ex_node ''cfg'' [] (Some ex_route) [''eth1''] =
      Inl (WaitRoutes (ContextErr ''deadline exceeded''))"
    by (simp add: talos_injector_def ex_slow_ensure)
  have fetch: "fetch ?e GetMachine (machines ?c) (''n'', ''m'') = Fetched ex_machine"
    "fetch ?e GetLinkConfig (link_configs ?c) (''n'', ''default'') = Fetched ex_link_config"
    "extractTalosConfigFromClusterSecret ?e ?c ex_machine = Inr ''cfg''"
    by (simp_all add: fetch_def ex_cluster_def extractTalosConfigFromClusterSecret_def ex_machine_def read_map_def)
  show ?thesis
    by (simp add: Reconcile_def failed_def ex_call_def fetch reconcile_link_config_def ex_extract ex_node_of ex_fill ex_merge inj)
qed

theorem failed_then_deleted_stays_witness:
  "fst (EnsureRoutes ex_slow_env ex_node ''cfg'' [] (Some ex_route) [''eth1'']) = [\<lparr>request_Data = ''B'', accepted = True\<rparr>]
   \<and> injector_calls (Reconcile (ex_controller ''B'') (''n'', ''m'')
       ((cluster_after (Reconcile ((ex_controller ''A'')\<lparr>Injector := talos_injector ex_slow_env\<rparr>) (''n'', ''m'')
            (ex_cluster ex_machine (Some ex_link_config))))\<lparr>link_configs := Map.empty\<rparr>)) = []"
proof -
  let ?e = "(ex_controller ''A'')\<lparr>Injector := talos_injector ex_slow_env\<rparr>"
    and ?c = "ex_cluster ex_machine (Some ex_link_config)"
  have "reconcile_error (Reconcile ?e (''n'', ''m'') ?c) =
      Some (EnsureRoutesFailed (WaitRoutes (ContextErr ''deadline exceeded'')))"
    by (simp add: ex_reconcile_slow)
  then show ?thesis
    using failed_then_deleted_stays [of ?e "(''n'', ''m'')" ?c _ ex_machine "ex_controller ''B''"]
    by (simp add: ex_slow_ensure)
qed

section \<open>Gateways\<close>

text \<open>
  C26. Every route handed to the injector names its gateway and its interface, so the injector
  never refuses one as empty; a gateway that the link config left out is the trimmed
  gateway of a network of a pod of the machine that has the machine's internal IP.
\<close>

theorem Reconcile_routes_complete:
  assumes "call \<in> set (injector_calls (Reconcile e k c))"
    and "r \<in> set (all_routes (call_StaticRoutes call) (call_DefaultRoute call))"
  shows "TrimSpace (Gateway r) \<noteq> [] \<and> TrimSpace (Interface r) \<noteq> []
    \<and> desired_route i r \<noteq> Inl (GatewayEmpty i) \<and> desired_route i r \<noteq> Inl (InterfaceEmpty i)"
  using Reconcile_call_routes [OF assms]
  by (auto simp: desired_route_def Let_def split: option.splits)

theorem Reconcile_routes_complete_witness: "TrimSpace (Gateway ex_route) \<noteq> []"
proof -
  have "ex_call \<in> set (injector_calls (Reconcile (ex_controller ''A'') (''n'', ''m'') (ex_cluster ex_machine (Some ex_link_config))))"
    by (simp add: ex_reconcile_first)
  from Reconcile_routes_complete [OF this, of ex_route 0] show ?thesis by (simp add: ex_call_def)
qed

text \<open>
  C27. A derived gateway does not depend on the order in which the networks of the pod are visited
  when one network has the machine's address.
\<close>

theorem gateway_order_irrelevant:
  assumes "Unmarshal_networks raw = Inr nets" and "is_order (network_order e) (or_make nets)"
    and "or_make nets name = Some n" and "network_matches ip n"
    and "\<And>name' n'. or_make nets name' = Some n' \<Longrightarrow> network_matches ip n' \<Longrightarrow> name' = name"
  shows "selectGatewayFromOVNPodNetworks e raw ip = gatewayFromOVNNetwork name n"
proof -
  let ?nets = "range_over (network_order e) (or_make nets)"
  have set: "set ?nets = {(k, v). or_make nets k = Some v}" using assms(2) by (rule set_range_over_order)
  then have "(name, n) \<in> set ?nets" using assms(3) by simp
  then have ne: "?nets \<noteq> []" and "select_network ip ?nets \<noteq> None"
    using assms(4) by (auto simp: select_network_None)
  then obtain r where r: "select_network ip ?nets = Some r" by auto
  then obtain name' n' where "(name', n') \<in> set ?nets" "network_matches ip n'" "r = gatewayFromOVNNetwork name' n'"
    using select_network_match by metis
  then have "r = gatewayFromOVNNetwork name n" using assms(3,5) set by force
  then show ?thesis using assms(1) ne r by (simp add: selectGatewayFromOVNPodNetworks_def)
qed

definition ex_network :: ovn_pod_network where
  "ex_network = \<lparr>IPAddress = ''10.79.130.1'', IPAddresses = [], GatewayIP = [], GatewayIPs = [[], ''10.79.130.1'']\<rparr>"

definition ex_networks_json :: json where
  "ex_networks_json = JObject [(''default'', JObject [(''ip_address'', JString ''10.79.130.1''),
     (''gateway_ips'', JArray [JString [], JString ''10.79.130.1''])])]"

lemma ex_networks: "Unmarshal_networks (json_print ex_networks_json) = Inr (Some [''default'' \<mapsto> ex_network])"
proof -
  have names: "is_text ''ip_address''" "is_text ''gateway_ips''" by (rule is_text_ascii, simp)+
  have "printable_json 10000 ex_networks_json" by (simp add: ex_networks_json_def names)
  note parse = parse_json_print [OF this]
  have "decode_struct network_fields (JObject [(''ip_address'', JString ''10.79.130.1''),
      (''gateway_ips'', JArray [JString [], JString ''10.79.130.1''])]) zero_network = Some (ex_network, [], [])"
    by (simp add: decode_struct_def find_field_def network_fields_def zero_network_def decode_slice_def ex_network_def)
  then have "decode_map (decode_struct network_fields) zero_network ex_networks_json None =
      Some (Some [''default'' \<mapsto> (ex_network, [], [])])"
    by (simp add: decode_map_def ex_networks_json_def or_make_def)
  then show ?thesis by (auto simp: Unmarshal_networks_def Unmarshal_into_def parse)
qed

theorem gateway_order_irrelevant_witness:
  "selectGatewayFromOVNPodNetworks ((ex_controller ''A'')\<lparr>network_order := [''default'']\<rparr>)
      (json_print ex_networks_json) (IPv4 [10, 79, 130, 1])
     = Inr ''10.79.130.1''"
proof -
  have "ParsePrefix ''10.79.130.1'' = None" by (simp add: ParsePrefix_def)
  then have match: "network_matches (IPv4 [10, 79, 130, 1]) ex_network"
    by (simp add: network_matches_def ex_network_def parseFirstAddrFromPrefixString_def)
  have gw: "gatewayFromOVNNetwork ''default'' ex_network = Inr ''10.79.130.1''"
    by (simp add: gatewayFromOVNNetwork_def ex_network_def)
  show ?thesis unfolding gw [symmetric]
    by (rule gateway_order_irrelevant [OF ex_networks]) (simp_all add: match is_order_single split: if_splits)
qed

section \<open>Repetition and routing of events\<close>



text \<open>
  A changed link config wakes up exactly the machines of its namespace that select it by
  name, which are those whose reconciliation reads it.
\<close>

theorem linkConfigToMachines_selects:
  assumes "wf_cluster c" and "List_machines e (machines c) (lc_Namespace lc) = Inr items"
    and "set items = {m. \<exists>k. machines c k = Some m \<and> m_Namespace m = lc_Namespace lc}"
  shows "k \<in> set (linkConfigToMachines e c (Some lc)) \<longleftrightarrow>
    (\<exists>m. machines c k = Some m \<and> (m_Namespace m, link_config_name m) = (lc_Namespace lc, lc_Name lc))"
proof -
  have key: "machines c a = Some m \<Longrightarrow> machine_key m = a" for a m
    using wf_clusterD [OF assms(1)] by blast
  have sel: "set (linkConfigToMachines e c (Some lc)) =
      machine_key ` {m. (\<exists>a. machines c a = Some m) \<and> m_Namespace m = lc_Namespace lc \<and> link_config_name m = lc_Name lc}"
    using assms(2,3) by (auto simp: linkConfigToMachines_def)
  show ?thesis
  proof
    assume "k \<in> set (linkConfigToMachines e c (Some lc))"
    then obtain a m where "machines c a = Some m" "m_Namespace m = lc_Namespace lc" "link_config_name m = lc_Name lc"
      and "k = machine_key m" unfolding sel by blast
    moreover from this have "k = a" using key by blast
    ultimately show "\<exists>m. machines c k = Some m \<and> (m_Namespace m, link_config_name m) = (lc_Namespace lc, lc_Name lc)"
      by blast
  next
    assume "\<exists>m. machines c k = Some m \<and> (m_Namespace m, link_config_name m) = (lc_Namespace lc, lc_Name lc)"
    then show "k \<in> set (linkConfigToMachines e c (Some lc))" unfolding sel using key by blast
  qed
qed

theorem linkConfigToMachines_selects_witness:
  "(''n'', ''m'') \<in> set (linkConfigToMachines (ex_controller ''A'') (ex_cluster ex_machine None) (Some ex_link_config))"
proof -
  have "lc_Namespace ex_link_config = ''n''" "lc_Name ex_link_config = ''default''"
    by (simp_all add: ex_link_config_def)
  moreover have "{m. \<exists>k. machines (ex_cluster ex_machine None) k = Some m \<and> m_Namespace m = ''n''} = {ex_machine}"
    by (auto simp: ex_cluster_def split: if_splits)
  ultimately show ?thesis
    by (subst linkConfigToMachines_selects [where items = "[ex_machine]"])
      (simp_all add: ex_wf_cluster ex_list_machines_def)
qed

section \<open>The annotation\<close>

text \<open>
  C30. The state annotation round-trips through its JSON: every state whose strings are valid UTF-8 and
  whose generation is an \<^verbatim>\<open>int64\<close> is read back as it was written, whatever its strings contain, and the
  texts of two such states are equal only if the states are, so comparing the texts to decide whether to
  write compares the states.
\<close>

theorem annotation_roundtrip:
  assumes "state_texts st" and "state_texts st'"
  shows "\<exists>v. Marshal_state st = Inr v \<and> extractLinkConfigStateFromMachine (annotated v m) = Inr (Some st)
    \<and> (Marshal_state st' = Inr v \<longleftrightarrow> st' = st)"
proof -
  obtain v where v: "Marshal_state st = Inr v" by (simp add: Marshal_state_def)
  have "Marshal_state st' = Inr v \<longleftrightarrow> st' = st"
    using state_text.encode_eq_iff [OF assms(2,1)] v by (auto simp: Marshal_state_def)
  then show ?thesis using v extract_annotated [OF assms(1) v, of m] by blast
qed

definition ex_odd_state :: link_config_state where
  "ex_odd_state = \<lparr>LinkConfigName = [CHR 0x22, CHR 0x5C, CHR 0x0A, CHR ''<'', CHR 0xC3, CHR 0xA5], LinkConfigGeneration = -7,
     StaticRoutes = [ex_route, ex_route\<lparr>Metric := 4294967295\<rparr>], DefaultRoute = None\<rparr>"

theorem annotation_roundtrip_witness:
  "\<exists>v. Marshal_state ex_odd_state = Inr v
     \<and> extractLinkConfigStateFromMachine (annotated v ex_machine) = Inr (Some ex_odd_state)"
proof -
  have "is_text [CHR 0x22, CHR 0x5C, CHR 0x0A, CHR ''<'', CHR 0xC3, CHR 0xA5]"
    by (simp add: is_text_def split_runes.simps rune_len_def rune_info_def in_bytes_def is_rune_def)
  then have "state_texts ex_odd_state"
    by (simp add: state_texts_def ex_odd_state_def ex_route_def route_texts_def fits_int64_def)
  from annotation_roundtrip [OF this ex_state_texts(1)] show ?thesis by blast
qed

text \<open>
  C31. Whatever an annotation contains, also one that was edited by hand, a state that is read from it is
  well formed: its strings are valid UTF-8 and its generation is in range, so it can be written and read
  back unchanged.
\<close>

theorem read_state_well_formed:
  assumes "extractLinkConfigStateFromMachine m = Inr (Some st)"
  shows "state_texts st \<and> (\<exists>v. Marshal_state st = Inr v \<and> Unmarshal_state v = Inr st)"
proof -
  have "state_texts st"
    using assms Unmarshal_state_texts
    by (auto simp: extractLinkConfigStateFromMachine_def Let_def map_sum_def split: option.splits if_splits sum.splits)
  moreover obtain v where "Marshal_state st = Inr v" by (simp add: Marshal_state_def)
  ultimately show ?thesis using Unmarshal_Marshal_state by blast
qed

theorem read_state_well_formed_witness:
  "extractLinkConfigStateFromMachine ex_managed_machine = Inr (Some ex_state) \<and> fits_int64 (LinkConfigGeneration ex_state)"
proof -
  have "read_map (m_Annotations ex_managed_machine) machineLinkConfigStateAnnKey = ex_text"
    by (simp add: ex_managed_machine_def read_map_def)
  note read = extract_current [OF ex_state_texts(1) ex_Marshal(1) this]
  from read_state_well_formed [OF read] show ?thesis using read by (simp add: state_texts_def)
qed

end
