(* ===== verification/Routes_Pruning.thy ===== *)
theory Routes_Pruning
  imports Routes_Apply_Facts
begin

text \<open>
  On which interfaces a node's config has routes, and how a call of \<^verbatim>\<open>EnsureRoutes\<close> changes that: the
  managed interfaces are cleared but for those the call has routes for, the others stay as they were.
\<close>

section \<open>Interfaces with routes\<close>

definition routed_in :: "'x document list \<Rightarrow> string set" where
  "routed_in docs = {TrimSpace (MetaName lc) |lc. LinkDoc lc \<in> set docs \<and> LinkRoutes lc \<noteq> []}"

definition routed :: "'x config_lib \<Rightarrow> bytes \<Rightarrow> string set" where
  "routed lib body = (case NewFromBytes lib body of Inl e \<Rightarrow> {} | Inr docs \<Rightarrow> routed_in docs)"

lemma routed_inI: "LinkDoc lc \<in> set docs \<Longrightarrow> LinkRoutes lc \<noteq> [] \<Longrightarrow> TrimSpace (MetaName lc) \<in> routed_in docs"
  by (auto simp: routed_in_def)

lemma routed_inE:
  assumes "i \<in> routed_in docs"
  obtains lc where "LinkDoc lc \<in> set docs" "LinkRoutes lc \<noteq> []" "TrimSpace (MetaName lc) = i"
  using assms by (auto simp: routed_in_def)

lemma routed_Inr: "NewFromBytes lib body = Inr docs \<Longrightarrow> routed lib body = routed_in docs"
  by (simp add: routed_def)

text \<open>The interfaces with desired routes.\<close>

definition wanted_in :: "desired \<Rightarrow> string set" where
  "wanted_in d = {iface. \<exists>rs. map_of d iface = Some rs \<and> rs \<noteq> []}"

lemma enforced_routed:
  assumes "enforced d docs" and "i \<in> routed_in docs"
  shows "i \<in> wanted_in d \<or> map_of d i = None"
proof -
  obtain lc where lc: "LinkDoc lc \<in> set docs" "LinkRoutes lc \<noteq> []" "TrimSpace (MetaName lc) = i"
    using assms(2) by (rule routed_inE)
  show ?thesis
  proof (cases "map_of d i")
    case (Some rs)
    then have "mset (LinkRoutes lc) = mset rs" using assms(1) lc unfolding enforced_def by blast
    then show ?thesis using lc(2) Some by (auto simp: wanted_in_def)
  qed simp
qed

lemma reconcile_documents_routed:
  assumes "reconcile_documents lib d docs = (docs', changed)" and "wf_desired d" and "wf_lib lib"
  shows "routed_in docs' \<subseteq> (routed_in docs - dom (map_of d)) \<union> wanted_in d"
proof
  fix i assume i: "i \<in> routed_in docs'"
  show "i \<in> (routed_in docs - dom (map_of d)) \<union> wanted_in d"
  proof (cases "map_of d i")
    case (Some rs)
    then show ?thesis using enforced_routed [OF reconcile_documents_enforce [OF assms] i] by simp
  next
    case None
    obtain lc where lc: "LinkDoc lc \<in> set docs'" "LinkRoutes lc \<noteq> []" "TrimSpace (MetaName lc) = i"
      using i by (rule routed_inE)
    have "LinkDoc lc \<in> set (take (length docs) docs') \<or> LinkDoc lc \<in> set (drop (length docs) docs')"
      using lc(1) by (metis Un_iff append_take_drop_id set_append)
    then have "LinkDoc lc \<in> set (take (length docs) docs')"
    proof
      assume "LinkDoc lc \<in> set (drop (length docs) docs')"
      then obtain iface rs where "map_of d iface = Some rs" "lc = (NewLinkConfigV1Alpha1 lib iface)\<lparr>LinkRoutes := rs\<rparr>"
        using reconcile_documents_keep(2) [OF assms(1,2)] by blast
      moreover from this have "TrimSpace iface = iface" "MetaName lc = iface"
        using assms(2,3) by (auto simp: wf_desired_def wf_lib_def)
      ultimately show ?thesis using None lc(3) by simp
    qed
    then obtain n where n: "n < length docs" "take (length docs) docs' ! n = LinkDoc lc"
      "routes_changed d (docs ! n) (LinkDoc lc)"
      using reconcile_documents_keep(1) [OF assms(1)]
      by (metis in_set_conv_nth list_all2_conv_all_nth)
    from n(3) have "docs ! n = LinkDoc lc"
    proof cases
      case (managed lc0 rs)
      then show ?thesis using None lc(3) by simp
    qed simp
    then have "i \<in> routed_in docs" using n(1) lc routed_inI by (metis nth_mem)
    then show ?thesis using None by auto
  qed
qed

section \<open>The rewritten config\<close>

text \<open>
  White space around an encoded config is not content: a text that equals an encoding up to it, if it
  parses at all, has the encoded documents.
\<close>

definition codec_trim :: "'x config_lib \<Rightarrow> bool" where
  "codec_trim lib \<longleftrightarrow>
     (\<forall>docs b body docs'. container_New lib docs = None \<longrightarrow> container_Bytes lib docs = Inr b
        \<longrightarrow> TrimSpace b = TrimSpace body \<longrightarrow> NewFromBytes lib body = Inr docs' \<longrightarrow> docs' = docs)"

definition good_lib :: "'x config_lib \<Rightarrow> bool" where
  "good_lib lib \<longleftrightarrow> wf_lib lib \<and> codec_roundtrip lib \<and> codec_trim lib"

lemma reconcileManaged_routed:
  assumes "reconcileManagedLinkRoutes lib body d = Inr (b, changed)" and "wf_desired d" and "good_lib lib"
  shows "routed lib b \<subseteq> (routed lib body - dom (map_of d)) \<union> wanted_in d"
proof (cases "d = []")
  case True
  then show ?thesis using assms(1) by (simp add: reconcileManagedLinkRoutes_def)
next
  case False
  have lib: "wf_lib lib" "codec_roundtrip lib" "codec_trim lib" using assms(3) by (simp_all add: good_lib_def)
  obtain docs0 where docs0: "NewFromBytes lib body = Inr docs0"
    using assms(1) False by (auto simp: reconcileManagedLinkRoutes_def split: sum.splits)
  obtain docs ch where rec: "reconcile_documents lib d docs0 = (docs, ch)" by fastforce
  note step = reconcile_documents_routed [OF rec assms(2) lib(1)]
  show ?thesis
  proof (cases ch)
    case False
    then have b: "b = body"
      using assms(1) \<open>d \<noteq> []\<close> docs0 rec by (auto simp: reconcileManagedLinkRoutes_def)
    have "reconcile_documents lib d docs0 = (docs, False)" using rec False by simp
    then have "enforced d docs0"
      using reconcile_documents_unchanged [of lib d docs0 docs] assms(2) lib(1) docs0 by (auto simp: wf_lib_def)
    then show ?thesis unfolding b routed_Inr [OF docs0] using enforced_routed by fastforce
  next
    case True
    obtain ub where ub: "container_New lib docs = None" "container_Bytes lib docs = Inr ub"
      and b: "b = ub \<or> b = body \<and> TrimSpace ub = TrimSpace body"
      using assms(1) \<open>d \<noteq> []\<close> docs0 rec True
      by (auto simp: reconcileManagedLinkRoutes_def split: option.splits sum.splits if_splits)
    have "NewFromBytes lib b = Inr docs"
      using b ub lib(2,3) docs0 unfolding codec_roundtrip_def codec_trim_def by metis
    then show ?thesis using step by (simp add: routed_Inr [OF docs0] routed_Inr)
  qed
qed

section \<open>Calls\<close>

text \<open>
  A request that the node accepted, or a success, means that the active config is the rewritten one,
  exactly.
\<close>

lemma ensureRouteSet_active:
  assumes "ensureRouteSet env body ms rs = (sent, r)" and "normalizeManagedInterfaces ms rs \<noteq> []"
    and "(\<exists>q \<in> set sent. accepted q) \<or> r = Some (Inr u)"
  shows "\<exists>d changed. desiredRouteConfigsByInterface (normalizeManagedInterfaces ms rs) rs = Inr d
    \<and> reconcileManagedLinkRoutes (config env) body d = Inr (active_config body sent, changed)"
proof (cases "desiredRouteConfigsByInterface (normalizeManagedInterfaces ms rs) rs")
  case (Inl e)
  then show ?thesis using assms by (auto simp: ensureRouteSet_def Let_def)
next
  case d: (Inr d)
  show ?thesis
  proof (cases "reconcileManagedLinkRoutes (config env) body d")
    case (Inl e)
    then show ?thesis using assms d by (auto simp: ensureRouteSet_def Let_def)
  next
    case (Inr x)
    obtain b changed where x: "x = (b, changed)" by fastforce
    have "changed \<Longrightarrow> TrimSpace b \<noteq> TrimSpace body"
      using Inr x by (auto simp: reconcileManagedLinkRoutes_def split: if_splits sum.splits option.splits prod.splits)
    moreover have "\<not> changed \<Longrightarrow> b = body"
      using Inr x by (auto simp: reconcileManagedLinkRoutes_def split: if_splits sum.splits option.splits prod.splits)
    ultimately have "active_config body sent = b"
      using assms d Inr x
      by (cases changed) (auto simp: ensureRouteSet_def applyMachineConfig_def Let_def split: option.splits)
    then show ?thesis using d Inr x by auto
  qed
qed

text \<open>The config is read as it is on the node.\<close>

definition reads_config :: "('x, 's) talos_env \<Rightarrow> bytes \<Rightarrow> bool" where
  "reads_config env body \<longleftrightarrow> (\<forall>mc b. COSI_Get env = Inr mc \<longrightarrow> extractMachineConfigBody env mc = Inr b \<longrightarrow> b = body)"

lemma EnsureRoutes_routed:
  assumes "EnsureRoutes env nd tc st df ms = (sent, r)" and "reads_config env body" and "good_lib (config env)"
    and "(\<exists>q \<in> set sent. accepted q) \<or> r = Some (Inr u)"
  shows "routed (config env) (active_config body sent) \<subseteq>
    (routed (config env) body - set (normalizeManagedInterfaces ms (all_routes st df)))
      \<union> {iface. configs_for iface (all_routes st df) \<noteq> []}"
proof -
  let ?rs = "all_routes st df" and ?m = "normalizeManagedInterfaces ms (all_routes st df)"
  obtain mc body' where mc: "COSI_Get env = Inr mc" "extractMachineConfigBody env mc = Inr body'"
    and call: "?m = [] \<and> sent = [] \<or> ?m \<noteq> [] \<and> ensureRouteSet env body' ?m ?rs = (sent, r)"
    using assms(1,4)
    by (auto simp: EnsureRoutes_def Let_def split: if_splits option.splits sum.splits prod.splits)
  have body': "body' = body" using assms(2) mc by (auto simp: reads_config_def)
  from call show ?thesis
  proof
    assume "?m \<noteq> [] \<and> ensureRouteSet env body' ?m ?rs = (sent, r)"
    then obtain d changed where d: "desiredRouteConfigsByInterface ?m ?rs = Inr d"
      and rec: "reconcileManagedLinkRoutes (config env) body d = Inr (active_config body sent, changed)"
      using ensureRouteSet_active [of env body ?m ?rs sent r u] assms(4) body' by (auto simp: normalize_normalized)
    have "dom (map_of d) = set ?m" "wanted_in d \<subseteq> {iface. configs_for iface ?rs \<noteq> []}"
      by (auto simp: dom_def wanted_in_def desired_exact(2) [OF d] normalize_normalized sortRouteConfigs_def
          split: if_splits)
    then show ?thesis using reconcileManaged_routed [OF rec desired_wf [OF d] assms(3)] by auto
  qed simp
qed

lemma active_config_refused:
  "\<not> (\<exists>q \<in> set sent. accepted q) \<Longrightarrow> active_config body sent = body"
  by (induction sent arbitrary: body) (auto simp: active_config_def)

end
