(* ===== verification/LinkConfig_History.thy ===== *)
theory LinkConfig_History
  imports LinkConfig_Properties Routes_Pruning
begin

text \<open>
  The life of one machine: its link config, the objects around it and the config of its node change, and
  the controller reconciles it with the Talos injector, with or without success, in any order. What is
  kept is an account of every interface that has routes on the node: it is foreign, or recorded in the
  state annotation, or it was asked for by a reconciliation that failed after the node took its config.
\<close>

section \<open>What a reconciliation does to the node\<close>

definition recorded :: "cluster \<Rightarrow> object_key \<Rightarrow> link_config_state option" where
  "recorded c k =
     (case machines c k of
        None \<Rightarrow> None
      | Some m \<Rightarrow> (case extractLinkConfigStateFromMachine m of Inl e \<Rightarrow> None | Inr st \<Rightarrow> st))"

definition requests :: "('x, 's) talos_env \<Rightarrow> injector_call \<Rightarrow> apply_request list" where
  "requests te call = fst (EnsureRoutes te (call_Node call) (call_TalosConfig call) (call_StaticRoutes call)
     (call_DefaultRoute call) (call_ManagedInterfaces call))"

definition node_after :: "('x, 's) talos_env \<Rightarrow> bytes \<Rightarrow> injector_call list \<Rightarrow> bytes" where
  "node_after te body calls = fold (\<lambda>call b. active_config b (requests te call)) calls body"

definition touched :: "('x, 's) talos_env \<Rightarrow> injector_call list \<Rightarrow> bool" where
  "touched te calls \<longleftrightarrow> list_ex (\<lambda>call. list_ex accepted (requests te call)) calls"

definition call_interfaces :: "injector_call \<Rightarrow> string set" where
  "call_interfaces call = interfaces (all_routes (call_StaticRoutes call) (call_DefaultRoute call))"

text \<open>
  The interfaces a failure left behind: those of its routes, if the node took the config. A success
  clears the ones it manages.
\<close>

definition left_after :: "('x, 's) talos_env \<Rightarrow> reconcile_result \<Rightarrow> string set \<Rightarrow> string set" where
  "left_after te r left =
     (if reconcile_error r = None then left - (\<Union>call \<in> set (injector_calls r). set (call_ManagedInterfaces call))
      else if touched te (injector_calls r) then left \<union> (\<Union>call \<in> set (injector_calls r). call_interfaces call)
      else left)"

text \<open>A failed patch may or may not have been stored.\<close>

definition patch_failure_contract :: "env \<Rightarrow> bool" where
  "patch_failure_contract e \<longleftrightarrow> (\<forall>base new objs err objs'.
     Patch_machine e base new objs = (Some err, objs') \<longrightarrow> objs (machine_key base) = Some base
     \<longrightarrow> machine_key new = machine_key base \<longrightarrow> objs' = objs \<or> objs' = objs(machine_key base \<mapsto> new))"

section \<open>The cases of a reconciliation\<close>

text \<open>
  Either way of a reconciliation calls nobody, or fails in the injector, or ends with the patch, which
  may fail.
\<close>

inductive outcome :: "env \<Rightarrow> cluster \<Rightarrow> machine \<Rightarrow> string \<Rightarrow> int \<Rightarrow> reconcile_result \<Rightarrow> bool"
  for e c m name gen where
  idle: "injector_calls r = [] \<Longrightarrow> cluster_after r = c \<Longrightarrow> outcome e c m name gen r"
| refused: "injector_calls r = [call] \<Longrightarrow> cluster_after r = c \<Longrightarrow> reconcile_error r = Some err \<Longrightarrow> outcome e c m name gen r"
| stored: "injector_calls r = [call]
    \<Longrightarrow> Injector e (call_Node call) (call_TalosConfig call) (call_StaticRoutes call) (call_DefaultRoute call)
          (call_ManagedInterfaces call) = Inr ()
    \<Longrightarrow> persistReconciledLinkConfigState e c m name gen (call_StaticRoutes call) (call_DefaultRoute call) = (p, c')
    \<Longrightarrow> cluster_after r = c' \<Longrightarrow> reconcile_error r = (case p of Inl err \<Rightarrow> Some err | Inr upd \<Rightarrow> None)
    \<Longrightarrow> outcome e c m name gen r"

lemma reconcile_link_config_outcome: "outcome e c m (lc_Name lc) (lc_Generation lc) (reconcile_link_config e c m lc prev)"
  unfolding reconcile_link_config_def Let_def
  by (auto split: sum.splits prod.splits simp: finished_def failed_def intro: idle refused stored)

lemma reconcileMissing_outcome: "outcome e c m name 0 (reconcileMissingLinkConfig e c m name prev)"
  unfolding reconcileMissingLinkConfig_def Let_def
  by (auto split: option.splits sum.splits prod.splits simp: finished_def failed_def intro: idle refused stored)

section \<open>What is recorded\<close>

lemma wf_cluster_patch:
  assumes "wf_cluster c"
  shows "wf_cluster (patch_annotation k v c)"
proof -
  have "wf_machine (annotated v m) = wf_machine m" for m
    using keys_differ by (simp add: wf_machine_def annotated_def read_map_def or_make_def split: option.split)
  then show ?thesis using assms by (auto simp: wf_cluster_def patch_annotation_def split: if_splits)
qed

lemma recorded_patched:
  "machines c k = Some m \<Longrightarrow> state_texts st \<Longrightarrow> Marshal_state st = Inr v \<Longrightarrow> recorded (patch_annotation k v c) k = Some st"
  by (simp add: recorded_def patch_annotation_machine extract_annotated)

text \<open>After the patch either the old state is recorded or the new one, and after a success the new one.\<close>

lemma persist_recorded:
  assumes "persistReconciledLinkConfigState e c m name gen st df = (p, c')"
    and "machines c k = Some m" and "wf_cluster c" and "patch_contract e" and "patch_failure_contract e"
    and "state_texts \<lparr>LinkConfigName = name, LinkConfigGeneration = gen, StaticRoutes = st, DefaultRoute = df\<rparr>"
  shows "wf_cluster c' \<and> (c' = c \<or> (\<exists>v. c' = patch_annotation k v c))
    \<and> recorded c' k \<in> {recorded c k,
          Some \<lparr>LinkConfigName = name, LinkConfigGeneration = gen, StaticRoutes = st, DefaultRoute = df\<rparr>}
    \<and> (p = Inr upd \<longrightarrow> recorded c' k =
          Some \<lparr>LinkConfigName = name, LinkConfigGeneration = gen, StaticRoutes = st, DefaultRoute = df\<rparr>)"
proof -
  let ?st = "\<lparr>LinkConfigName = name, LinkConfigGeneration = gen, StaticRoutes = st, DefaultRoute = df\<rparr>"
  obtain v where v: "Marshal_state ?st = Inr v" by (simp add: Marshal_state_def)
  have key: "machine_key m = k" using wf_clusterD(1) [OF assms(3,2)] .
  have patch: "c\<lparr>machines := (machines c)(k \<mapsto> annotated v m)\<rparr> = patch_annotation k v c"
    by (simp add: patch_annotation_def assms(2))
  note new = recorded_patched [OF assms(2,6) v]
  show ?thesis
  proof (cases p)
    case (Inl err)
    have "c' = c \<or> c' = patch_annotation k v c"
    proof (cases "read_map (m_Annotations m) machineLinkConfigStateAnnKey = v")
      case True
      then show ?thesis using assms(1) v Inl by (simp add: persistReconciledLinkConfigState_def)
    next
      case False
      obtain res objs where ob: "Patch_machine e m (annotated v m) (machines c) = (res, objs)" by fastforce
      then obtain x where "res = Some x" and c': "c' = c\<lparr>machines := objs\<rparr>"
        using assms(1) v Inl False by (auto simp: persistReconciledLinkConfigState_def split: option.splits)
      then have "objs = machines c \<or> objs = (machines c)(k \<mapsto> annotated v m)"
        using assms(5) ob assms(2) key annotated_rest(7) [of v m] unfolding patch_failure_contract_def by metis
      then show ?thesis using c' patch by auto
    qed
    then show ?thesis using new wf_cluster_patch [OF assms(3), of k v] assms(3) Inl by auto
  next
    case (Inr upd)
    obtain m' v' where m': "machines c' k = Some m'" "extractLinkConfigStateFromMachine m' = Inr (Some ?st)"
      and "c' = c \<and> m' = m \<or> c' = patch_annotation k v' c \<and> m' = annotated v' m"
      using persisted [OF assms(1) [unfolded Inr] assms(2-4,6)] by blast
    then show ?thesis using wf_cluster_patch [OF assms(3), of k v'] assms(3) by (auto simp: recorded_def)
  qed
qed

section \<open>What one reconciliation does\<close>

text \<open>
  A reconciliation that calls nobody changes nothing; otherwise it calls once, and either it failed and
  the cluster is as before or the injector succeeded and the state of the call is recorded, perhaps.
\<close>

inductive effect :: "env \<Rightarrow> object_key \<Rightarrow> cluster \<Rightarrow> reconcile_result \<Rightarrow> bool" for e k c where
  nothing: "injector_calls r = [] \<Longrightarrow> cluster_after r = c \<Longrightarrow> effect e k c r"
| failure: "injector_calls r = [call] \<Longrightarrow> cluster_after r = c \<Longrightarrow> reconcile_error r = Some err \<Longrightarrow> effect e k c r"
| applied: "injector_calls r = [call]
    \<Longrightarrow> Injector e (call_Node call) (call_TalosConfig call) (call_StaticRoutes call) (call_DefaultRoute call)
          (call_ManagedInterfaces call) = Inr ()
    \<Longrightarrow> state_interfaces (Some st) = call_interfaces call \<Longrightarrow> wf_cluster (cluster_after r)
    \<Longrightarrow> recorded (cluster_after r) k \<in> {recorded c k, Some st}
    \<Longrightarrow> (reconcile_error r = None \<longrightarrow> recorded (cluster_after r) k = Some st) \<Longrightarrow> effect e k c r"

lemma outcome_effect:
  assumes "outcome e c m name gen r" and "machines c k = Some m"
    and "wf_cluster c" and "patch_contract e" and "patch_failure_contract e"
    and texts: "\<And>call. call \<in> set (injector_calls r) \<Longrightarrow>
        state_texts \<lparr>LinkConfigName = name, LinkConfigGeneration = gen, StaticRoutes = call_StaticRoutes call,
                      DefaultRoute = call_DefaultRoute call\<rparr>"
  shows "effect e k c r"
  using assms(1)
proof cases
  case (stored call p c')
  let ?st = "\<lparr>LinkConfigName = name, LinkConfigGeneration = gen, StaticRoutes = call_StaticRoutes call,
              DefaultRoute = call_DefaultRoute call\<rparr>"
  have "state_texts ?st" using texts stored(1) by simp
  note rec = persist_recorded [OF stored(3) assms(2-5) this]
  show ?thesis
    by (rule applied [OF stored(1,2), of ?st]) (use rec stored in \<open>auto simp: call_interfaces_def split: sum.splits\<close>)
next
  case idle
  then show ?thesis by (rule nothing)
next
  case (refused call err)
  then show ?thesis by (rule failure)
qed

lemma Reconcile_effect:
  assumes "wf_cluster c" and "patch_contract e" and "patch_failure_contract e"
  shows "effect e k c (Reconcile e k c)"
proof (rule Reconcile_ways [of e k c])
  fix m prev
  assume m: "machines c k = Some m" "extractLinkConfigStateFromMachine m = Inr prev"
    and way: "Reconcile e k c = reconcileMissingLinkConfig e c m (link_config_name m) prev"
  have out: "outcome e c m (link_config_name m) 0 (Reconcile e k c)" unfolding way by (rule reconcileMissing_outcome)
  have "state_texts \<lparr>LinkConfigName = link_config_name m, LinkConfigGeneration = 0,
      StaticRoutes = call_StaticRoutes call, DefaultRoute = call_DefaultRoute call\<rparr>"
    if "call \<in> set (injector_calls (Reconcile e k c))" for call
    using reconcileMissing_calls [OF that [unfolded way]] empty_payload_texts [OF assms(1) m(1)] by simp
  then show ?thesis by (rule outcome_effect [OF out m(1) assms])
next
  fix m prev lc
  assume m: "machines c k = Some m" "extractLinkConfigStateFromMachine m = Inr prev"
    and lc: "fetch e GetLinkConfig (link_configs c) (m_Namespace m, link_config_name m) = Fetched lc"
    and way: "Reconcile e k c = reconcile_link_config e c m lc prev"
  have out: "outcome e c m (lc_Name lc) (lc_Generation lc) (Reconcile e k c)"
    unfolding way by (rule reconcile_link_config_outcome)
  have "state_texts \<lparr>LinkConfigName = lc_Name lc, LinkConfigGeneration = lc_Generation lc,
      StaticRoutes = call_StaticRoutes call, DefaultRoute = call_DefaultRoute call\<rparr>"
    if "call \<in> set (injector_calls (Reconcile e k c))" for call
    using reconcile_link_config_calls [OF that [unfolded way]]
      payload_texts [OF fetched_link_config [OF assms(1) lc]] by blast
  then show ?thesis by (rule outcome_effect [OF out m(1) assms])
qed (rule nothing)

text \<open>The node after a reconciliation with a call that reached it.\<close>

lemma wanted_interfaces: "configs_for iface rs \<noteq> [] \<Longrightarrow> iface \<in> interfaces rs"
proof -
  assume "configs_for iface rs \<noteq> []"
  then obtain cfg where "cfg \<in> set (configs_for iface rs)" by (meson list.set_sel(1))
  then obtain r where "r \<in> set rs" "wanted_config r = Some (iface, cfg)" by (auto simp: configs_for_iff)
  then show ?thesis using wanted_config_interface by (fastforce simp: interfaces_def)
qed

lemma node_pruned:
  assumes "injector_calls (Reconcile e k c) = [call]" and "Injector e = talos_injector te"
    and "reads_config te body" and "good_lib (config te)"
    and "touched te [call] \<or> Injector e (call_Node call) (call_TalosConfig call) (call_StaticRoutes call)
           (call_DefaultRoute call) (call_ManagedInterfaces call) = Inr ()"
  shows "routed (config te) (node_after te body [call]) \<subseteq>
    (routed (config te) body - set (call_ManagedInterfaces call)) \<union> call_interfaces call"
    and "set (call_ManagedInterfaces call) = call_interfaces call \<union> state_interfaces (recorded c k)"
proof -
  let ?rs = "all_routes (call_StaticRoutes call) (call_DefaultRoute call)"
  let ?run = "EnsureRoutes te (call_Node call) (call_TalosConfig call) (call_StaticRoutes call) (call_DefaultRoute call)
     (call_ManagedInterfaces call)"
  have managed: "set (call_ManagedInterfaces call) = call_interfaces call \<union> state_interfaces (recorded c k)"
    and norm: "set (normalizeManagedInterfaces (call_ManagedInterfaces call) ?rs) = set (call_ManagedInterfaces call)"
    using Reconcile_call_interfaces [of call e k c] assms(1) by (auto simp: recorded_def call_interfaces_def)
  have run: "?run = (requests te call, snd ?run)" by (simp add: requests_def)
  have "(\<exists>q \<in> set (requests te call). accepted q) \<or> snd ?run = Some (Inr ())"
    using assms(2,5) by (auto simp: touched_def list_ex_iff talos_injector_def split: option.splits)
  then have "routed (config te) (active_config body (requests te call)) \<subseteq>
      (routed (config te) body - set (call_ManagedInterfaces call)) \<union> {iface. configs_for iface ?rs \<noteq> []}"
    using EnsureRoutes_routed [OF run assms(3,4), of "()"] norm by simp
  then show "routed (config te) (node_after te body [call]) \<subseteq>
    (routed (config te) body - set (call_ManagedInterfaces call)) \<union> call_interfaces call"
    using wanted_interfaces unfolding node_after_def call_interfaces_def by fastforce
  show "set (call_ManagedInterfaces call) = call_interfaces call \<union> state_interfaces (recorded c k)" by (rule managed)
qed

lemma untouched: "\<not> touched te calls \<Longrightarrow> node_after te body calls = body"
proof (induction calls arbitrary: body)
  case (Cons call calls)
  then have "active_config body (requests te call) = body"
    by (auto simp: touched_def list_ex_iff intro: active_config_refused)
  then show ?case using Cons by (simp add: node_after_def touched_def)
qed (simp add: node_after_def)

section \<open>The account of one reconciliation\<close>

definition accounted :: "'x config_lib \<Rightarrow> string set \<Rightarrow> object_key \<Rightarrow> cluster \<Rightarrow> bytes \<Rightarrow> string set \<Rightarrow> bool" where
  "accounted lib F k c body left \<longleftrightarrow> wf_cluster c \<and> routed lib body \<subseteq> F \<union> state_interfaces (recorded c k) \<union> left"

lemma touched_accounted:
  assumes "routed lib body \<subseteq> F \<union> S \<union> left" and "routed lib body' \<subseteq> (routed lib body - M) \<union> I" and "M = I \<union> S"
  shows "routed lib body' \<subseteq> F \<union> S' \<union> (left \<union> I)" and "I \<subseteq> S' \<Longrightarrow> routed lib body' \<subseteq> F \<union> S' \<union> (left - M)"
  using assms by auto

lemma Reconcile_accounted:
  assumes "accounted (config te) F k c body left" and "good_lib (config te)"
    and "Injector e = talos_injector te" and "reads_config te body"
    and "patch_contract e" and "patch_failure_contract e"
  shows "accounted (config te) F k (cluster_after (Reconcile e k c))
    (node_after te body (injector_calls (Reconcile e k c))) (left_after te (Reconcile e k c) left)"
proof -
  have wf: "wf_cluster c" and acc: "routed (config te) body \<subseteq> F \<union> state_interfaces (recorded c k) \<union> left"
    using assms(1) by (simp_all add: accounted_def)
  note pruned = node_pruned [OF _ assms(3,4,2)]
  from Reconcile_effect [OF wf assms(5,6), of k] show ?thesis
  proof cases
    case nothing
    then show ?thesis using wf acc by (simp add: accounted_def node_after_def left_after_def touched_def)
  next
    case (failure call err)
    then show ?thesis using touched_accounted(1) [OF acc pruned [OF failure(1)]] wf acc
      by (cases "touched te [call]") (simp_all add: accounted_def left_after_def untouched)
  next
    case (applied call st)
    note now = touched_accounted [OF acc pruned [OF applied(1) disjI2 [OF applied(2)]]]
    show ?thesis
    proof (cases "reconcile_error (Reconcile e k c) = None")
      case True
      then show ?thesis using now(2) [of "state_interfaces (Some st)"] applied
        by (simp add: accounted_def left_after_def del: state_interfaces_simps)
    next
      case False
      then show ?thesis using now(1) [of "{}"] applied acc
        by (cases "touched te [call]")
          (auto simp: accounted_def left_after_def untouched simp del: state_interfaces_simps)
    qed
  qed
qed

section \<open>Histories\<close>

text \<open>
  What may happen to machine \<open>k\<close> and its node, with the environments \<open>tes\<close> that calls may meet. At the start
  only foreign interfaces \<open>F\<close> have routes and no state is recorded. Then anybody may change the objects
  of the cluster, but for the state annotation of the machine; somebody may apply another config to the
  node, with routes on further foreign interfaces only; and the controller reconciles.
\<close>

inductive history ::
  "('x, 's) talos_env set \<Rightarrow> 'x config_lib \<Rightarrow> string set \<Rightarrow> object_key \<Rightarrow> cluster \<Rightarrow> bytes \<Rightarrow> string set \<Rightarrow> bool"
  for tes lib F k where
  start: "wf_cluster c \<Longrightarrow> recorded c k = None \<Longrightarrow> routed lib body \<subseteq> F \<Longrightarrow> history tes lib F k c body {}"
| edited: "history tes lib F k c body left \<Longrightarrow> wf_cluster c' \<Longrightarrow> recorded c' k = recorded c k
    \<Longrightarrow> history tes lib F k c' body left"
| reconfigured: "history tes lib F k c body left \<Longrightarrow> routed lib body' \<subseteq> routed lib body \<union> F
    \<Longrightarrow> history tes lib F k c body' left"
| reconciled: "history tes lib F k c body left \<Longrightarrow> te \<in> tes \<Longrightarrow> config te = lib \<Longrightarrow> reads_config te body
    \<Longrightarrow> Injector e = talos_injector te \<Longrightarrow> patch_contract e \<Longrightarrow> patch_failure_contract e
    \<Longrightarrow> history tes lib F k (cluster_after (Reconcile e k c)) (node_after te body (injector_calls (Reconcile e k c)))
          (left_after te (Reconcile e k c) left)"

lemma history_accounted:
  assumes "history tes lib F k c body left" and "good_lib lib"
  shows "accounted lib F k c body left"
  using assms(1)
proof induction
  case (reconciled c body left te e)
  then show ?case using Reconcile_accounted [of te F k c body left e] assms(2) by simp
qed (auto simp: accounted_def)

text \<open>The interfaces a link config names, and those of the calls made for it.\<close>

definition link_config_interfaces :: "link_config_resource \<Rightarrow> string set" where
  "link_config_interfaces lc =
     (\<lambda>r. TrimSpace (lcr_Interface r)) ` set (lc_StaticRoutes lc)
     \<union> (case lc_DefaultRoute lc of None \<Rightarrow> {} | Some d \<Rightarrow> {TrimSpace (lcd_Interface d)})"

lemma extract_static_names: "extract_static i rs = Inr st \<Longrightarrow> map Interface st = map lcr_Interface rs"
proof (induction i rs arbitrary: st rule: extract_static.induct)
  case (2 i r rs)
  then show ?case by (cases "extract_static (Suc i) rs") (auto split: if_splits)
qed simp

lemma extractDesiredRoutes_names:
  assumes "extractDesiredRoutes lc = Inr (st, df)" and "r \<in> set (all_routes st df)"
  shows "TrimSpace (Interface r) \<in> link_config_interfaces lc"
proof -
  obtain st' where st': "extract_static 0 (lc_StaticRoutes lc) = Inr st'" "st = st'"
    and df: "df = None \<or> (\<exists>d. lc_DefaultRoute lc = Some d \<and> df = Some \<lparr>Network = [], Gateway = lcd_Gateway d,
      Metric = lcd_Metric d, Interface = lcd_Interface d\<rparr>)"
    using assms(1) by (auto simp: extractDesiredRoutes_def split: sum.splits option.splits if_splits)
  have "Interface ` set st = lcr_Interface ` set (lc_StaticRoutes lc)"
    using extract_static_names [OF st'(1)] st'(2) by (metis list.set_map)
  then have "(\<lambda>r. TrimSpace (Interface r)) ` set st = (\<lambda>r. TrimSpace (lcr_Interface r)) ` set (lc_StaticRoutes lc)"
    by (metis image_image)
  then show ?thesis using df assms(2) by (auto simp: all_routes_def link_config_interfaces_def)
qed

lemma link_config_call_interfaces:
  assumes "call \<in> set (injector_calls (reconcile_link_config e c m lc prev))"
  shows "call_interfaces call \<subseteq> link_config_interfaces lc"
proof -
  obtain st0 df0 where "extractDesiredRoutes lc = Inr (st0, df0)"
    and "fill_gateways e c m st0 df0 = Inr (call_StaticRoutes call, call_DefaultRoute call)"
    using reconcile_link_config_calls [OF assms] by blast
  then show ?thesis using fill_gateways_filled extractDesiredRoutes_names
    by (fastforce simp: call_interfaces_def interfaces_def)
qed

text \<open>What is recorded after a success: the interfaces of the selected link config, none when it is gone.\<close>

definition selected_interfaces :: "env \<Rightarrow> cluster \<Rightarrow> machine \<Rightarrow> string set" where
  "selected_interfaces e c m =
     (case fetch e GetLinkConfig (link_configs c) (m_Namespace m, link_config_name m) of
        Fetched lc \<Rightarrow> link_config_interfaces lc
      | _ \<Rightarrow> {})"

definition cleans_up :: "env \<Rightarrow> cluster \<Rightarrow> object_key \<Rightarrow> machine \<Rightarrow> bool" where
  "cleans_up e c k m \<longleftrightarrow>
     fetch e GetLinkConfig (link_configs c) (m_Namespace m, link_config_name m) = ObjectNotFound
     \<longrightarrow> (case recorded c k of None \<Rightarrow> True | Some st \<Rightarrow> LinkConfigName st = link_config_name m)"

lemma success_recorded:
  assumes "wf_cluster c" and "machines c k = Some m" and "\<not> m_Deleting m" and "cleans_up e c k m"
    and ok: "reconcile_error (Reconcile e k c) = None" and contracts: "patch_contract e" "patch_failure_contract e"
  shows "state_interfaces (recorded (cluster_after (Reconcile e k c)) k) \<subseteq> selected_interfaces e c m"
proof -
  obtain prev where prev: "extractLinkConfigStateFromMachine m = Inr prev" "recorded c k = prev"
    using assms(2,3) ok by (auto simp: Reconcile_def fetch_def recorded_def Let_def split: option.splits sum.splits)
  have fm: "fetch e GetMachine (machines c) k = Fetched m"
    using assms(2) ok by (auto simp: Reconcile_def fetch_def split: option.splits)
  have one: "state_interfaces (recorded (cluster_after (Reconcile e k c)) k) = call_interfaces call"
    if "injector_calls (Reconcile e k c) = [call]" for call
    using Reconcile_effect [OF assms(1) contracts, of k] that ok by cases auto
  show ?thesis
  proof (cases "fetch e GetLinkConfig (link_configs c) (m_Namespace m, link_config_name m)")
    case (Fetched lc)
    have way: "Reconcile e k c = reconcile_link_config e c m lc prev"
      using fm prev assms(3) Fetched by (simp add: Reconcile_def)
    obtain call where call: "injector_calls (Reconcile e k c) = [call]"
      using reconcile_link_config_Ok [OF ok [unfolded way]] unfolding way by blast
    then have "call_interfaces call \<subseteq> link_config_interfaces lc"
      using link_config_call_interfaces [of call e c m lc prev] way by simp
    then show ?thesis using one [OF call] Fetched by (simp add: selected_interfaces_def)
  next
    case (FetchError err)
    then show ?thesis using ok fm prev assms(3) by (simp add: Reconcile_def)
  next
    case ObjectNotFound
    have way: "Reconcile e k c = reconcileMissingLinkConfig e c m (link_config_name m) prev"
      using fm prev assms(3) ObjectNotFound by (simp add: Reconcile_def)
    show ?thesis
    proof (cases "state_interfaces prev = {}")
      case True
      then have "Reconcile e k c = finished c"
        unfolding way by (intro reconcileMissing_idle) simp
      then show ?thesis using True prev by simp
    next
      case False
      then obtain st where st: "prev = Some st" by (cases prev) simp_all
      then have "LinkConfigName st = link_config_name m"
        using assms(4) ObjectNotFound prev(2) by (simp add: cleans_up_def)
      then obtain call where "injector_calls (Reconcile e k c) = [call]" "call_interfaces call = {}"
        using reconcileMissing_Ok [of e c m "link_config_name m" st] ok False unfolding way st
        by (auto simp: call_interfaces_def)
      then show ?thesis using one by simp
    qed
  qed
qed

section \<open>Every route on the node is accounted for\<close>

lemma ex_good_lib: "good_lib ex_lib"
proof -
  have "codec_trim ex_lib" by (auto simp: codec_trim_def ex_lib_def split: if_splits)
  then show ?thesis by (simp add: good_lib_def ex_wf_lib ex_roundtrip)
qed

lemma ex_routed: "routed ex_lib ''A'' = {}" "routed ex_lib ''B'' = {''eth1''}"
  by (simp_all add: routed_def routed_in_def ex_lib_def ex_link_def)

lemma ex_recorded: "recorded (ex_cluster ex_machine lc) (''n'', ''m'') = None"
  by (simp add: recorded_def)

lemma ex_start: "history tes ex_lib {} (''n'', ''m'') (ex_cluster ex_machine (Some ex_link_config)) ''A'' {}"
  by (rule start) (simp_all add: ex_wf_cluster ex_recorded ex_routed)

lemma ex_failure_contract: "patch_failure_contract (ex_controller b)"
  by (simp add: patch_failure_contract_def ex_patch_def)

lemma ex_call_interfaces: "call_interfaces ex_call = {''eth1''}"
  by (simp add: call_interfaces_def ex_call_def)

text \<open>
  C1. In every history of a machine, whatever edits, other configs, failures and successes it holds and in
  whatever order, each interface with routes on the node is a foreign one, or an interface of the state
  recorded on the machine, which the next reconciliation will manage, or was asked for by a
  reconciliation that failed after the node had taken its config.
\<close>

theorem node_routes_accounted:
  assumes "history tes lib F k c body left" and "good_lib lib"
  shows "routed lib body \<subseteq> F \<union> state_interfaces (recorded c k) \<union> left"
  using history_accounted [OF assms] by (simp add: accounted_def)

theorem node_routes_accounted_witness:
  "history {ex_slow_env} ex_lib {} (''n'', ''m'') (ex_cluster ex_machine (Some ex_link_config)) ''B'' {''eth1''}
   \<and> routed ex_lib ''B'' = {''eth1''} \<and> routed ex_lib ''B'' \<subseteq> {} \<union> state_interfaces None \<union> {''eth1''}"
proof -
  let ?e = "(ex_controller ''A'')\<lparr>Injector := talos_injector ex_slow_env\<rparr>"
    and ?c = "ex_cluster ex_machine (Some ex_link_config)"
  have "patch_contract ?e" "patch_failure_contract ?e"
    using ex_contract [of "''A''"] ex_failure_contract [of "''A''"]
    by (simp_all add: patch_contract_def patch_failure_contract_def)
  moreover have "config ex_slow_env = ex_lib" "reads_config ex_slow_env ''A''" by (simp_all add: reads_config_def)
  ultimately have "history {ex_slow_env} ex_lib {} (''n'', ''m'') (cluster_after (Reconcile ?e (''n'', ''m'') ?c))
      (node_after ex_slow_env ''A'' (injector_calls (Reconcile ?e (''n'', ''m'') ?c)))
      (left_after ex_slow_env (Reconcile ?e (''n'', ''m'') ?c) {})"
    by (intro reconciled [OF ex_start]) simp_all
  moreover have "requests ex_slow_env ex_call = [\<lparr>request_Data = ''B'', accepted = True\<rparr>]"
    by (simp add: requests_def ex_call_def ex_slow_ensure)
  ultimately have run: "history {ex_slow_env} ex_lib {} (''n'', ''m'') ?c ''B'' {''eth1''}"
    by (simp add: ex_reconcile_slow node_after_def left_after_def touched_def ex_call_interfaces)
  show ?thesis using run node_routes_accounted [OF run ex_good_lib] by (simp add: ex_routed ex_recorded)
qed



text \<open>
  A machine that is switched to a link config that does not exist keeps the routes of the one before: the
  name that is recorded is another, so nothing is called, also when that one is deleted later.
\<close>

lemma switched_machine_keeps_routes:
  assumes "machines c k = Some m" and "recorded c k = Some st" and "LinkConfigName st \<noteq> link_config_name m"
    and "fetch e GetLinkConfig (link_configs c) (m_Namespace m, link_config_name m) = ObjectNotFound"
  shows "injector_calls (Reconcile e k c) = [] \<and> cluster_after (Reconcile e k c) = c"
proof (rule Reconcile_ways [of e k c])
  fix m' prev
  assume m': "machines c k = Some m'" "extractLinkConfigStateFromMachine m' = Inr prev"
    and way: "Reconcile e k c = reconcileMissingLinkConfig e c m' (link_config_name m') prev"
  then have "prev = Some st" "m' = m" using assms(1,2) by (simp_all add: recorded_def)
  then have "Reconcile e k c = finished c" unfolding way using assms(3) by (intro reconcileMissing_idle) simp
  then show ?thesis by simp
qed (use assms(1,4) in auto)

end
