(* ===== verification/GoURL.thy ===== *)
theory GoURL
  imports Prelude
begin

text \<open>
  What the code uses of Go's \<^verbatim>\<open>path\<close> and \<^verbatim>\<open>net/url\<close> packages: \<^verbatim>\<open>path.Join\<close> with its lexical
  cleaning, and \<^verbatim>\<open>URL.String\<close> for a URL given by scheme, host and path. Strings are byte strings.
\<close>

section \<open>path.Join\<close>

fun split_on :: "char \<Rightarrow> string \<Rightarrow> string list" where
  "split_on c [] = [[]]"
| "split_on c (x # xs) =
     (if x = c then [] # split_on c xs
      else (case split_on c xs of [] \<Rightarrow> [[x]] | y # ys \<Rightarrow> (x # y) # ys))"

text \<open>
  One element of the path, on the elements kept so far (the last first): empty elements and dots
  are dropped, a double dot removes the element before it, and stays only at the front of a
  path that is not rooted.
\<close>

definition clean_step :: "bool \<Rightarrow> string list \<Rightarrow> string \<Rightarrow> string list" where
  "clean_step rooted out seg =
     (if seg = [] \<or> seg = ''.'' then out
      else if seg = ''..'' then
        (case out of
           [] \<Rightarrow> (if rooted then [] else [''..''])
         | s # rest \<Rightarrow> if s = ''..'' then ''..'' # out else rest)
      else seg # out)"

definition path_Clean :: "string \<Rightarrow> string" where
  "path_Clean p =
     (let rooted = (p \<noteq> [] \<and> hd p = CHR ''/'');
          out = rev (foldl (clean_step rooted) [] (split_on (CHR ''/'') p))
      in if rooted then CHR ''/'' # join ''/'' out
         else if out = [] then ''.'' else join ''/'' out)"

definition path_Join :: "string list \<Rightarrow> string" where
  "path_Join elems =
     (let es = dropWhile (\<lambda>e. e = []) elems
      in if es = [] then [] else path_Clean (join ''/'' es))"

text \<open>Elements that cleaning leaves alone.\<close>

definition plain_segment :: "string \<Rightarrow> bool" where
  "plain_segment s \<longleftrightarrow> s \<noteq> [] \<and> CHR ''/'' \<notin> set s \<and> s \<noteq> ''.'' \<and> s \<noteq> ''..''"

lemma split_on_none: "c \<notin> set s \<Longrightarrow> split_on c s = [s]"
  by (induction s) auto

lemma split_on_append: "c \<notin> set s \<Longrightarrow> split_on c (s @ c # t) = s # split_on c t"
  by (induction s) auto

lemma split_on_join:
  "xs \<noteq> [] \<Longrightarrow> (\<And>x. x \<in> set xs \<Longrightarrow> c \<notin> set x) \<Longrightarrow> split_on c (join [c] xs) = xs"
proof (induction xs)
  case (Cons x xs)
  then show ?case by (cases xs) (auto simp: split_on_none split_on_append)
qed simp

lemma foldl_clean_plain:
  "(\<And>s. s \<in> set segs \<Longrightarrow> plain_segment s) \<Longrightarrow> foldl (clean_step r) out segs = rev segs @ out"
  by (induction segs arbitrary: out) (auto simp: clean_step_def plain_segment_def)

lemma hd_join_plain: "xs \<noteq> [] \<Longrightarrow> plain_segment (hd xs) \<Longrightarrow> join sep xs \<noteq> [] \<and> hd (join sep xs) = hd (hd xs)"
proof (cases xs)
  case (Cons x ys)
  moreover assume "plain_segment (hd xs)"
  ultimately show ?thesis by (cases ys) (simp_all add: plain_segment_def)
qed simp

lemma path_Join_plain:
  assumes "segs \<noteq> []" and plain: "\<And>s. s \<in> set segs \<Longrightarrow> plain_segment s"
  shows "path_Join segs = join ''/'' segs"
proof -
  obtain s ss where segs: "segs = s # ss" using assms(1) by (cases segs) auto
  have s: "plain_segment s" using plain segs by simp
  then have "dropWhile (\<lambda>e. e = []) segs = segs" by (simp add: segs plain_segment_def)
  moreover have "join ''/'' segs \<noteq> []" and "hd (join ''/'' segs) = hd s"
    using hd_join_plain [OF assms(1), of "''/''"] s by (simp_all add: segs)
  moreover have "hd s \<noteq> CHR ''/''" using s hd_in_set [of s] by (auto simp: plain_segment_def simp del: hd_in_set)
  moreover have "split_on (CHR ''/'') (join ''/'' segs) = segs"
    using split_on_join [OF assms(1), of "CHR ''/''"] plain by (auto simp: plain_segment_def)
  ultimately show ?thesis using assms(1) foldl_clean_plain [OF plain] by (simp add: path_Join_def path_Clean_def)
qed

section \<open>URL.String\<close>

definition between :: "char \<Rightarrow> char \<Rightarrow> char \<Rightarrow> bool" where
  "between a b c \<longleftrightarrow> a \<le> c \<and> c \<le> b"

definition unreserved :: "char \<Rightarrow> bool" where
  "unreserved c \<longleftrightarrow> between (CHR ''a'') (CHR ''z'') c \<or> between (CHR ''A'') (CHR ''Z'') c
     \<or> between (CHR ''0'') (CHR ''9'') c \<or> c \<in> set ''-_.~''"

datatype encoding = EncodePath | EncodeHost

definition shouldEscape :: "char \<Rightarrow> encoding \<Rightarrow> bool" where
  "shouldEscape c mode \<longleftrightarrow> \<not> unreserved c \<and>
     (case mode of
        EncodePath \<Rightarrow> c \<notin> set ''$&+,/:;=@''
      | EncodeHost \<Rightarrow> c \<notin> set ''!$&()*+,;=:[]<>'' \<union> {CHR 0x27, CHR 0x22})"

definition upperhex :: "nat \<Rightarrow> char" where
  "upperhex n = ''0123456789ABCDEF'' ! n"

definition escape_byte :: "encoding \<Rightarrow> char \<Rightarrow> string" where
  "escape_byte mode c =
     (if shouldEscape c mode
      then [CHR ''%'', upperhex (of_char c div 16), upperhex (of_char c mod 16)] else [c])"

definition escape :: "encoding \<Rightarrow> string \<Rightarrow> string" where
  "escape mode s = concat (map (escape_byte mode) s)"

text \<open>The URL of the code has a scheme, so the text always starts with it.\<close>

record url =
  Scheme :: string
  Host :: string
  Path :: string

definition EscapedPath :: "url \<Rightarrow> string" where
  "EscapedPath u = (if Path u = ''*'' then ''*'' else escape EncodePath (Path u))"

definition URL_String :: "url \<Rightarrow> string" where
  "URL_String u =
     (let path = EscapedPath u
      in (if Scheme u \<noteq> [] then Scheme u @ '':'' else [])
         @ (if (Scheme u \<noteq> [] \<or> Host u \<noteq> []) \<and> (Host u \<noteq> [] \<or> Path u \<noteq> [])
            then ''//'' @ escape EncodeHost (Host u) else [])
         @ (if path \<noteq> [] \<and> hd path \<noteq> CHR ''/'' \<and> Host u \<noteq> [] then ''/'' else [])
         @ path)"

lemma escape_append [simp]: "escape mode (s @ t) = escape mode s @ escape mode t"
  by (simp add: escape_def)

lemma escape_plain: "(\<And>c. c \<in> set s \<Longrightarrow> \<not> shouldEscape c mode) \<Longrightarrow> escape mode s = s"
  by (induction s) (simp_all add: escape_def escape_byte_def)

lemma escape_Nil [simp]: "escape mode [] = [] "
  by (simp add: escape_def)

lemma nibbles [simp]: "(of_char c :: nat) div 16 < 16" "(of_char c :: nat) mod 16 < 16"
  using nat_of_char_less_256 [of c] by (simp_all add: less_mult_imp_div_less)

text \<open>Escaping never writes a space, a question mark, a hash or a control character into a path.\<close>

lemma upperhex_unreserved: "n < 16 \<Longrightarrow> unreserved (upperhex n)"
proof -
  assume "n < 16"
  then have "n \<in> set [0..<16]" by simp
  moreover have "\<forall>n \<in> set [0..<16]. unreserved (upperhex n)" by code_simp
  ultimately show ?thesis by blast
qed

lemma escape_chars:
  "c \<in> set (escape mode s) \<Longrightarrow> c = CHR ''%'' \<or> \<not> shouldEscape c mode"
proof (induction s)
  case (Cons x s)
  have "unreserved (upperhex (of_char x div 16))" "unreserved (upperhex (of_char x mod 16))"
    by (auto intro!: upperhex_unreserved)
  then show ?case using Cons
    by (auto simp: escape_def escape_byte_def shouldEscape_def split: if_splits)
qed simp

text \<open>Different texts have different escapes.\<close>

lemma upperhex_inj: "m < 16 \<Longrightarrow> n < 16 \<Longrightarrow> upperhex m = upperhex n \<Longrightarrow> m = n"
proof -
  assume "m < 16" "n < 16" and eq: "upperhex m = upperhex n"
  then have "m \<in> set [0..<16]" "n \<in> set [0..<16]" by simp_all
  moreover have "\<forall>m \<in> set [0..<16]. \<forall>n \<in> set [0..<16]. upperhex m = upperhex n \<longrightarrow> m = n" by code_simp
  ultimately show ?thesis using eq by blast
qed

lemma percent_escaped: "shouldEscape (CHR ''%'') mode"
  by (cases mode) (simp_all add: shouldEscape_def unreserved_def between_def less_eq_char_def)

lemma escape_byte_inj:
  assumes "escape_byte mode x @ s = escape_byte mode y @ t"
  shows "x = y \<and> s = t"
proof -
  show ?thesis
  proof (cases "shouldEscape x mode"; cases "shouldEscape y mode")
    assume e: "shouldEscape x mode" "shouldEscape y mode"
    then have "(of_char x :: nat) div 16 = of_char y div 16" "(of_char x :: nat) mod 16 = of_char y mod 16"
      using assms by (auto simp: escape_byte_def intro: upperhex_inj)
    then have "(of_char x :: nat) = of_char y" by (metis div_mult_mod_eq)
    then show ?thesis using assms e by (simp add: escape_byte_def)
  qed (use assms percent_escaped in \<open>auto simp: escape_byte_def\<close>)
qed

lemma escape_inj: "escape mode s = escape mode t \<Longrightarrow> s = t"
proof (induction s arbitrary: t)
  case Nil
  then show ?case by (cases t) (auto simp: escape_def escape_byte_def split: if_splits)
next
  case (Cons x s)
  then obtain y t' where t: "t = y # t'"
    by (cases t) (auto simp: escape_def escape_byte_def split: if_splits)
  have "escape_byte mode x @ escape mode s = escape_byte mode y @ escape mode t'"
    using Cons.prems by (simp add: t escape_def)
  from escape_byte_inj [OF this] show ?case using Cons.IH by (simp add: t)
qed

end
