(* ===== verification/Release_Controller.thy ===== *)
theory Release_Controller
  imports Kube GoURL GoTime
begin

text \<open>
  The controller of releases (\<^verbatim>\<open>controllers/dockyardsrelease_controller.go\<close> and
  \<^verbatim>\<open>controller_consts.go\<close>): for each release it keeps an image repository and image policies, and
  copies the versions the policies found, and the URL of the disk image, into the release's status. The
  client, the patch helper, the semver library and the list of cloud platforms are parameters.
\<close>

section \<open>Objects\<close>

datatype release_type = ReleaseTypeKubernetes | ReleaseTypeTalosInstaller | OtherReleaseType string

record release =
  rel_Name :: string
  rel_Namespace :: string
  rel_Annotations :: "(string, string) gomap"
  rel_Type :: release_type
  rel_Ranges :: "string list"
  Status_Versions :: "string list"
  Status_LatestVersion :: string
  Status_LatestURL :: "string option"

record image_repository =
  repo_Name :: string
  repo_Namespace :: string
  repo_Image :: string
  repo_Interval :: int

text \<open>\<open>pol_Range\<close> is the range of the semver policy, \<open>pol_LatestRef\<close> the tag of the latest reference.\<close>

record image_policy =
  pol_Name :: string
  pol_Namespace :: string
  pol_Labels :: "(string, string) gomap"
  pol_RepositoryRef :: string
  pol_Range :: "string option"
  pol_LatestRef :: "string option"

definition release_key :: "release \<Rightarrow> object_key" where
  "release_key r = (rel_Namespace r, rel_Name r)"

definition repository_key :: "image_repository \<Rightarrow> object_key" where
  "repository_key r = (repo_Namespace r, repo_Name r)"

definition policy_key :: "image_policy \<Rightarrow> object_key" where
  "policy_key p = (pol_Namespace p, pol_Name p)"

section \<open>Environment\<close>

record release_cluster =
  releases :: "object_key \<rightharpoonup> release"
  repositories :: "object_key \<rightharpoonup> image_repository"
  policies :: "object_key \<rightharpoonup> image_policy"

record platform =
  platform_Name :: string
  DiskImageDefaultPath :: string

record 'v release_env =
  Get_release_fails :: "object_key \<Rightarrow> string option"
  NewHelper_fails :: "release \<Rightarrow> string option"
  Patch_release :: "release \<Rightarrow> release \<Rightarrow> (object_key \<rightharpoonup> release) \<Rightarrow> string option \<times> (object_key \<rightharpoonup> release)"
  CreateOrPatch_repository :: "image_repository create_or_patch"
  CreateOrPatch_policy :: "image_policy create_or_patch"
  NewVersion :: "string \<Rightarrow> string + 'v"
  GreaterThan :: "'v \<Rightarrow> 'v \<Rightarrow> bool"
  Original :: "'v \<Rightarrow> string"
  CloudPlatforms :: "platform list"
  LabelReleaseName :: string
  ImageFactoryHost :: string

datatype release_error =
    GetRelease string
  | NewHelper string
  | CreateOrPatchRepository string
  | CreateOrPatchPolicy string
  | PatchRelease string

text \<open>An error as it is returned: one of the above, or an aggregate.\<close>

datatype returned_error = SingleError release_error | Aggregate "release_error list"

section \<open>Constants\<close>

definition AnnotationTalosPlatformName :: string where
  "AnnotationTalosPlatformName = ''talos.dockyards.io/platform-name''"

definition AnnotationTalosSchematicID :: string where
  "AnnotationTalosSchematicID = ''talos.dockyards.io/schematic-id''"

definition DefaultSchematicID :: string where
  "DefaultSchematicID = ''376567988ad370138ad8b2698212367b8edcb69b5fd68c80be1f2ec7d603b4ba''"

section \<open>Image repositories and policies\<close>

text \<open>The object given to \<^verbatim>\<open>CreateOrPatch\<close> and the closure that sets its fields.\<close>

definition new_repository :: "release \<Rightarrow> image_repository" where
  "new_repository r = \<lparr>repo_Name = rel_Name r, repo_Namespace = rel_Namespace r, repo_Image = [], repo_Interval = 0\<rparr>"

definition set_repository :: "string \<Rightarrow> image_repository \<Rightarrow> image_repository" where
  "set_repository img repo = repo\<lparr>repo_Image := img, repo_Interval := minutes 60\<rparr>"

definition new_policy :: "string \<Rightarrow> string \<Rightarrow> image_policy" where
  "new_policy name namespace = \<lparr>pol_Name = name, pol_Namespace = namespace, pol_Labels = None,
     pol_RepositoryRef = [], pol_Range = None, pol_LatestRef = None\<rparr>"

definition set_policy ::
  "'v release_env \<Rightarrow> release \<Rightarrow> image_repository \<Rightarrow> string \<Rightarrow> image_policy \<Rightarrow> image_policy" where
  "set_policy e r repo rng p =
     p\<lparr>pol_RepositoryRef := repo_Name repo, pol_Range := Some rng,
       pol_Labels := Some ((or_make (pol_Labels p))(LabelReleaseName e \<mapsto> rel_Name r))\<rparr>"

section \<open>Kubernetes releases\<close>

text \<open>
  The loop over the ranges, with the tags found so far and the latest version among those that
  parse. A failing call ends it.
\<close>

definition policy_name :: "image_repository \<Rightarrow> string \<Rightarrow> string" where
  "policy_name repo rng = repo_Name repo @ ''-'' @ rng"

definition newer :: "'v release_env \<Rightarrow> 'v option \<Rightarrow> 'v \<Rightarrow> 'v option" where
  "newer e latestVersion v =
     (case latestVersion of
        None \<Rightarrow> Some v
      | Some l \<Rightarrow> if GreaterThan e v l then Some v else latestVersion)"

fun range_loop ::
  "'v release_env \<Rightarrow> release \<Rightarrow> image_repository \<Rightarrow> string list \<Rightarrow> string list \<Rightarrow> 'v option
   \<Rightarrow> (object_key \<rightharpoonup> image_policy) \<Rightarrow> (string + string list \<times> 'v option) \<times> (object_key \<rightharpoonup> image_policy)" where
  "range_loop e r repo [] versions latestVersion ps = (Inr (versions, latestVersion), ps)"
| "range_loop e r repo (rng # ranges) versions latestVersion ps =
     (case CreateOrPatch_policy e (new_policy (policy_name repo rng) (repo_Namespace repo))
             (set_policy e r repo rng) ps of
        (Inl err, ps') \<Rightarrow> (Inl err, ps')
      | (Inr p, ps') \<Rightarrow>
          (case pol_LatestRef p of
             None \<Rightarrow> range_loop e r repo ranges versions latestVersion ps'
           | Some tag \<Rightarrow>
               let versions' = versions @ [tag]
               in (case NewVersion e tag of
                     Inl err \<Rightarrow> range_loop e r repo ranges versions' latestVersion ps'
                   | Inr v \<Rightarrow> range_loop e r repo ranges versions' (newer e latestVersion v) ps')))"

text \<open>A reconciliation of either type: the error, the release with its new status, and the cluster.\<close>

type_synonym release_outcome = "release_error option \<times> release \<times> release_cluster"

definition reconcileKubernetesReleases :: "'v release_env \<Rightarrow> release \<Rightarrow> release_cluster \<Rightarrow> release_outcome" where
  "reconcileKubernetesReleases e r c =
     (case CreateOrPatch_repository e (new_repository r) (set_repository ''ghcr.io/siderolabs/kubelet'') (repositories c) of
        (Inl err, rs) \<Rightarrow> (Some (CreateOrPatchRepository err), r, c\<lparr>repositories := rs\<rparr>)
      | (Inr repo, rs) \<Rightarrow>
          (case range_loop e r repo (rel_Ranges r) [] None (policies c) of
             (Inl err, ps) \<Rightarrow> (Some (CreateOrPatchPolicy err), r, c\<lparr>repositories := rs, policies := ps\<rparr>)
           | (Inr (versions, latestVersion), ps) \<Rightarrow>
               (None,
                (case latestVersion of
                   None \<Rightarrow> r
                 | Some v \<Rightarrow> r\<lparr>Status_Versions := versions, Status_LatestVersion := Original e v\<rparr>),
                c\<lparr>repositories := rs, policies := ps\<rparr>)))"

section \<open>Talos installer releases\<close>

text \<open>The status once the tag is known: the URL needs a known platform; a missing schematic is the default.\<close>

definition image_url :: "'v release_env \<Rightarrow> string \<Rightarrow> string \<Rightarrow> platform \<Rightarrow> url" where
  "image_url e schematicID tag p =
     \<lparr>Scheme = ''https'', Host = ImageFactoryHost e,
      Path = path_Join [''image'', schematicID, tag, DiskImageDefaultPath p]\<rparr>"

definition installer_status :: "'v release_env \<Rightarrow> string \<Rightarrow> release \<Rightarrow> release" where
  "installer_status e tag r0 =
     (let r = r0\<lparr>Status_Versions := [tag], Status_LatestVersion := tag\<rparr>
      in case or_make (rel_Annotations r) AnnotationTalosPlatformName of
           None \<Rightarrow> r\<lparr>Status_LatestURL := None\<rparr>
         | Some platformName \<Rightarrow>
             let schematicID = (case or_make (rel_Annotations r) AnnotationTalosSchematicID of
                                  None \<Rightarrow> DefaultSchematicID | Some s \<Rightarrow> s)
             in (case find (\<lambda>p. \<not> platform_Name p \<noteq> platformName) (CloudPlatforms e) of
                   None \<Rightarrow> r\<lparr>Status_LatestURL := None\<rparr>
                 | Some p \<Rightarrow> r\<lparr>Status_LatestURL := Some (URL_String (image_url e schematicID tag p))\<rparr>))"

definition reconcileTalosInstaller :: "'v release_env \<Rightarrow> release \<Rightarrow> release_cluster \<Rightarrow> release_outcome" where
  "reconcileTalosInstaller e r c =
     (if length (rel_Ranges r) \<noteq> 1 then (None, r, c)
      else
        (case CreateOrPatch_repository e (new_repository r) (set_repository ''ghcr.io/siderolabs/installer'') (repositories c) of
           (Inl err, rs) \<Rightarrow> (Some (CreateOrPatchRepository err), r, c\<lparr>repositories := rs\<rparr>)
         | (Inr repo, rs) \<Rightarrow>
             (case CreateOrPatch_policy e (new_policy (repo_Name repo) (repo_Namespace repo))
                     (set_policy e r repo (rel_Ranges r ! 0)) (policies c) of
                (Inl err, ps) \<Rightarrow> (Some (CreateOrPatchPolicy err), r, c\<lparr>repositories := rs, policies := ps\<rparr>)
              | (Inr p, ps) \<Rightarrow>
                  (None, (case pol_LatestRef p of None \<Rightarrow> r | Some tag \<Rightarrow> installer_status e tag r),
                   c\<lparr>repositories := rs, policies := ps\<rparr>))))"

section \<open>Reconcile\<close>

definition reconcile_by_type :: "'v release_env \<Rightarrow> release \<Rightarrow> release_cluster \<Rightarrow> release_outcome" where
  "reconcile_by_type e r c =
     (case rel_Type r of
        ReleaseTypeKubernetes \<Rightarrow> reconcileKubernetesReleases e r c
      | ReleaseTypeTalosInstaller \<Rightarrow> reconcileTalosInstaller e r c
      | OtherReleaseType t \<Rightarrow> (None, r, c))"

text \<open>The deferred patch runs whatever the reconciliation returned; its error is aggregated with that.\<close>

definition Reconcile_release ::
  "'v release_env \<Rightarrow> object_key \<Rightarrow> release_cluster \<Rightarrow> returned_error option \<times> release_cluster" where
  "Reconcile_release e k c =
     (case Get_release_fails e k of
        Some err \<Rightarrow> (Some (SingleError (GetRelease err)), c)
      | None \<Rightarrow>
          (case releases c k of
             None \<Rightarrow> (None, c)
           | Some r \<Rightarrow>
               (case NewHelper_fails e r of
                  Some err \<Rightarrow> (Some (SingleError (NewHelper err)), c)
                | None \<Rightarrow>
                    let (reterr, r', c') = reconcile_by_type e r c
                    in (case Patch_release e r r' (releases c') of
                          (None, rels) \<Rightarrow> (map_option SingleError reterr, c'\<lparr>releases := rels\<rparr>)
                        | (Some err, rels) \<Rightarrow>
                            (Some (Aggregate (case reterr of None \<Rightarrow> [PatchRelease err] | Some re \<Rightarrow> [re, PatchRelease err])),
                             c'\<lparr>releases := rels\<rparr>)))))"

text \<open>Events of image policies; \<open>None\<close> is an object of another type.\<close>

definition ReleaseFromImagePolicy :: "'v release_env \<Rightarrow> image_policy option \<Rightarrow> object_key list" where
  "ReleaseFromImagePolicy e obj =
     (case obj of
        None \<Rightarrow> []
      | Some p \<Rightarrow>
          (case or_make (pol_Labels p) (LabelReleaseName e) of
             None \<Rightarrow> []
           | Some releaseName \<Rightarrow> [(pol_Namespace p, releaseName)]))"

end
