(* ===== verification/NodePool_Webhook.thy ===== *)
theory NodePool_Webhook
  imports Complex_Main Prelude
begin

text \<open>
  The validating webhook for node pools (\<^verbatim>\<open>webhooks/dockyardsnodepool_webhook.go\<close>). Quantities are
  those of the Kubernetes library, a parameter with the documented meaning of its comparison.
\<close>

record 'q quantities =
  MustParse :: "string \<Rightarrow> 'q"
  IsZero :: "'q \<Rightarrow> bool"
  Cmp :: "'q \<Rightarrow> 'q \<Rightarrow> int"
  Quantity_String :: "'q \<Rightarrow> string"
  zero_quantity :: 'q

text \<open>The resources of a pool; \<^verbatim>\<open>Memory()\<close> is the zero quantity when there is no entry.\<close>

record 'q node_pool =
  np_Name :: string
  np_Memory :: "'q option"

definition Memory :: "'q quantities \<Rightarrow> 'q node_pool \<Rightarrow> 'q" where
  "Memory q p = (case np_Memory p of None \<Rightarrow> zero_quantity q | Some m \<Rightarrow> m)"

record invalid_field =
  field_Path :: "string list"
  field_Value :: string
  field_Detail :: string

record invalid_error =
  invalid_Name :: string
  invalid_Fields :: "invalid_field list"

definition memoryLimit :: "'q quantities \<Rightarrow> 'q" where
  "memoryLimit q = MustParse q ''2Gi''"

definition memoryLimitDetail :: "'q quantities \<Rightarrow> string" where
  "memoryLimitDetail q = ''must be at least '' @ Quantity_String q (memoryLimit q)"

definition validate :: "'q quantities \<Rightarrow> 'q node_pool \<Rightarrow> invalid_error option" where
  "validate q p =
     (let memory = Memory q p
      in if IsZero q memory \<or> Cmp q memory (memoryLimit q) = -1 then
           Some \<lparr>invalid_Name = np_Name p,
                 invalid_Fields = [\<lparr>field_Path = [''spec'', ''resources'', ''memory''],
                                   field_Value = Quantity_String q memory,
                                   field_Detail = memoryLimitDetail q\<rparr>]\<rparr>
         else None)"

definition ValidateCreate :: "'q quantities \<Rightarrow> 'q node_pool \<Rightarrow> string list \<times> invalid_error option" where
  "ValidateCreate q p = ([], validate q p)"

definition ValidateDelete :: "'q quantities \<Rightarrow> 'q node_pool \<Rightarrow> string list \<times> invalid_error option" where
  "ValidateDelete q p = ([], None)"

definition ValidateUpdate ::
  "'q quantities \<Rightarrow> 'q node_pool \<Rightarrow> 'q node_pool \<Rightarrow> string list \<times> invalid_error option" where
  "ValidateUpdate q old_pool new_pool = ([], validate q new_pool)"

text \<open>What the library documents: quantities have values, compared as numbers; \<^verbatim>\<open>2Gi\<close> is \<open>2 ^ 31\<close>.\<close>

definition quantity_contract :: "'q quantities \<Rightarrow> ('q \<Rightarrow> rat) \<Rightarrow> bool" where
  "quantity_contract q val \<longleftrightarrow>
     (\<forall>a. IsZero q a \<longleftrightarrow> val a = 0)
     \<and> (\<forall>a b. Cmp q a b = (if val a < val b then -1 else if val a = val b then 0 else 1))
     \<and> val (MustParse q ''2Gi'') = 2147483648 \<and> val (zero_quantity q) = 0"

text \<open>
  C38. The memory of every pool that is created or updated is at least two gibibytes: a pool is let through
  exactly when it names a memory of at least 2147483648 bytes, whatever it was before; an error names
  the pool and the field. Deletion is always let through.
\<close>

theorem webhook_memory_bound:
  assumes "quantity_contract q val"
  shows "(snd (ValidateCreate q p) = None \<longleftrightarrow> (\<exists>m. np_Memory p = Some m \<and> 2147483648 \<le> val m))
    \<and> snd (ValidateUpdate q old_pool p) = snd (ValidateCreate q p)
    \<and> (\<forall>err. snd (ValidateCreate q p) = Some err \<longrightarrow> invalid_Name err = np_Name p
          \<and> map field_Path (invalid_Fields err) = [[''spec'', ''resources'', ''memory'']])
    \<and> snd (ValidateDelete q p) = None"
proof -
  have "validate q p = None \<longleftrightarrow> (\<exists>m. np_Memory p = Some m \<and> 2147483648 \<le> val m)"
  proof (cases "np_Memory p")
    case None
    then show ?thesis using assms by (simp add: validate_def Memory_def quantity_contract_def)
  next
    case (Some m)
    have "validate q p = None \<longleftrightarrow> \<not> (val m = 0 \<or> val m < 2147483648)"
      using assms by (simp add: validate_def Memory_def memoryLimit_def Some quantity_contract_def Let_def)
    then show ?thesis using Some by auto
  qed
  then show ?thesis
    by (auto simp: ValidateCreate_def ValidateUpdate_def ValidateDelete_def validate_def Let_def split: if_splits)
qed

text \<open>Quantities as numbers of bytes.\<close>

definition ex_quantities :: "rat quantities" where
  "ex_quantities = \<lparr>MustParse = (\<lambda>s. if s = ''2Gi'' then 2147483648 else 0), IsZero = (\<lambda>a. a = 0),
     Cmp = (\<lambda>a b. if a < b then -1 else if a = b then 0 else 1), Quantity_String = (\<lambda>a. ''quantity''),
     zero_quantity = 0\<rparr>"

theorem webhook_memory_bound_witness:
  "snd (ValidateCreate ex_quantities \<lparr>np_Name = ''p'', np_Memory = Some 4294967296\<rparr>) = None
   \<and> snd (ValidateCreate ex_quantities \<lparr>np_Name = ''p'', np_Memory = Some 2000000000\<rparr>) \<noteq> None
   \<and> snd (ValidateCreate ex_quantities \<lparr>np_Name = ''p'', np_Memory = None\<rparr>) \<noteq> None"
proof -
  have "quantity_contract ex_quantities (\<lambda>a. a)" by (simp add: quantity_contract_def ex_quantities_def)
  from webhook_memory_bound [OF this] show ?thesis by simp
qed

end
