(* ===== verification/Controller_Setup.thy ===== *)
theory Controller_Setup
  imports LinkConfig_Properties Release_Controller NodePool_Webhook
begin

text \<open>
  How the controllers and the webhook are hung into the manager (\<^verbatim>\<open>SetupWithManager\<close> of the link config
  controller, \<^verbatim>\<open>SetupwithManager\<close> of the release controller, \<^verbatim>\<open>SetupWebhookWithManager\<close>), and what follows
  for the events of link configs: a machine that no event wakes up would not have been reconciled
  differently. The manager, which delivers the events, is a parameter.
\<close>

section \<open>Controllers as they are built\<close>

datatype watched_object =
    WatchedMachine machine
  | WatchedLinkConfig link_config_resource
  | WatchedRelease release
  | WatchedImagePolicy image_policy

datatype object_kind = MachineKind | LinkConfigKind | ReleaseKind | ImagePolicyKind

fun kind_of :: "watched_object \<Rightarrow> object_kind" where
  "kind_of (WatchedMachine m) = MachineKind"
| "kind_of (WatchedLinkConfig lc) = LinkConfigKind"
| "kind_of (WatchedRelease r) = ReleaseKind"
| "kind_of (WatchedImagePolicy p) = ImagePolicyKind"

fun object_key_of :: "watched_object \<Rightarrow> object_key" where
  "object_key_of (WatchedMachine m) = machine_key m"
| "object_key_of (WatchedLinkConfig lc) = (lc_Namespace lc, lc_Name lc)"
| "object_key_of (WatchedRelease r) = release_key r"
| "object_key_of (WatchedImagePolicy p) = policy_key p"

text \<open>The type assertions at the start of the map functions.\<close>

fun as_link_config :: "watched_object \<Rightarrow> link_config_resource option" where
  "as_link_config (WatchedLinkConfig lc) = Some lc"
| "as_link_config _ = None"

fun as_image_policy :: "watched_object \<Rightarrow> image_policy option" where
  "as_image_policy (WatchedImagePolicy p) = Some p"
| "as_image_policy _ = None"

text \<open>A builder: the kind that is reconciled, and the watched kinds with their map functions; \<open>'c\<close> is the cluster.\<close>

record 'c controller =
  For_kind :: object_kind
  Watched_kinds :: "(object_kind \<times> ('c \<Rightarrow> watched_object \<Rightarrow> object_key list)) list"

record ('c, 's, 'q) manager_lib =
  Complete_controller :: "'c controller \<Rightarrow> 's \<Rightarrow> string option"
  Enqueue :: "'c controller \<Rightarrow> 'c \<Rightarrow> watched_object \<Rightarrow> object_key list"
  dockyardsv1_AddToScheme :: "'s \<Rightarrow> string option \<times> 's"
  imagev1_AddToScheme :: "'s \<Rightarrow> string option \<times> 's"
  Complete_webhook :: "('q node_pool \<Rightarrow> string list \<times> invalid_error option) \<Rightarrow>
    ('q node_pool \<Rightarrow> 'q node_pool \<Rightarrow> string list \<times> invalid_error option) \<Rightarrow>
    ('q node_pool \<Rightarrow> string list \<times> invalid_error option) \<Rightarrow> 's \<Rightarrow> string option"

definition link_config_controller :: "env \<Rightarrow> cluster controller" where
  "link_config_controller e = \<lparr>For_kind = MachineKind,
     Watched_kinds = [(LinkConfigKind, \<lambda>c obj. linkConfigToMachines e c (as_link_config obj))]\<rparr>"

definition release_controller :: "'v release_env \<Rightarrow> 'c controller" where
  "release_controller e = \<lparr>For_kind = ReleaseKind,
     Watched_kinds = [(ImagePolicyKind, \<lambda>c obj. ReleaseFromImagePolicy e (as_image_policy obj))]\<rparr>"

text \<open>The error of the setup, and the scheme it leaves; errors of \<^verbatim>\<open>AddToScheme\<close> are dropped.\<close>

definition SetupWithManager :: "(cluster, 's, 'q) manager_lib \<Rightarrow> env \<Rightarrow> 's \<Rightarrow> string option \<times> 's" where
  "SetupWithManager mgr e scheme = (Complete_controller mgr (link_config_controller e) scheme, scheme)"

definition SetupwithManager :: "('c, 's, 'q) manager_lib \<Rightarrow> 'v release_env \<Rightarrow> 's \<Rightarrow> string option \<times> 's" where
  "SetupwithManager m e scheme =
     (let (ignored, scheme) = dockyardsv1_AddToScheme m scheme;
          (ignored, scheme) = imagev1_AddToScheme m scheme
      in (case Complete_controller m (release_controller e) scheme of
            Some err \<Rightarrow> (Some err, scheme)
          | None \<Rightarrow> (None, scheme)))"

definition SetupWebhookWithManager :: "('c, 's, 'q) manager_lib \<Rightarrow> 'q quantities \<Rightarrow> 's \<Rightarrow> string option \<times> 's" where
  "SetupWebhookWithManager mgr q scheme =
     (let (ignored, scheme) = dockyardsv1_AddToScheme mgr scheme
      in (Complete_webhook mgr (ValidateCreate q) (ValidateUpdate q) (ValidateDelete q) scheme, scheme))"

text \<open>
  What the builder documents: an event of the reconciled kind is a request for the object, one of a watched
  kind is what the map function gives.
\<close>

definition enqueue_contract :: "('c, 's, 'q) manager_lib \<Rightarrow> bool" where
  "enqueue_contract mgr \<longleftrightarrow> (\<forall>ctl c obj.
     set (Enqueue mgr ctl c obj) =
       (if kind_of obj = For_kind ctl then {object_key_of obj} else {})
       \<union> (\<Union>(kind, f) \<in> set (Watched_kinds ctl). if kind_of obj = kind then set (f c obj) else {}))"

lemma link_config_requests:
  assumes "enqueue_contract mgr"
  shows "set (Enqueue mgr (link_config_controller e) c (WatchedLinkConfig lc)) = set (linkConfigToMachines e c (Some lc))"
    and "set (Enqueue mgr (link_config_controller e) c (WatchedMachine m)) = {machine_key m}"
  using assms by (simp_all add: enqueue_contract_def link_config_controller_def)

lemma release_requests:
  assumes "enqueue_contract mgr"
  shows "set (Enqueue mgr (release_controller e) c (WatchedImagePolicy p)) = set (ReleaseFromImagePolicy e (Some p))"
    and "set (Enqueue mgr (release_controller e) c (WatchedRelease r)) = {release_key r}"
  using assms by (simp_all add: enqueue_contract_def release_controller_def)

section \<open>Event sources\<close>

text \<open>Whether one of a sequence of changes wakes up a key.\<close>

fun woken :: "('s \<Rightarrow> 'o \<Rightarrow> 'k list) \<Rightarrow> ('o \<Rightarrow> 's \<Rightarrow> 's) \<Rightarrow> 'k \<Rightarrow> 's \<Rightarrow> 'o list \<Rightarrow> bool" where
  "woken wakes change k s [] \<longleftrightarrow> False"
| "woken wakes change k s (x # xs) \<longleftrightarrow> k \<in> set (wakes s x) \<or> woken wakes change k (change x s) xs"

text \<open>
  The contract of an event source: a change that does not wake up a key leaves its reconciliation as it
  was. Then so does every sequence of changes.
\<close>

locale event_source =
  fixes ok :: "'s \<Rightarrow> bool" and change :: "'o \<Rightarrow> 's \<Rightarrow> 's" and wakes :: "'s \<Rightarrow> 'o \<Rightarrow> 'k list"
    and run :: "'k \<Rightarrow> 's \<Rightarrow> 'r"
  assumes keeps: "ok s \<Longrightarrow> ok (change x s)"
    and unaffected: "ok s \<Longrightarrow> k \<notin> set (wakes s x) \<Longrightarrow> run k (change x s) = run k s"
begin

lemma unwoken_unaffected: "ok s \<Longrightarrow> \<not> woken wakes change k s xs \<Longrightarrow> run k (fold change xs s) = run k s"
  by (induction xs arbitrary: s) (auto simp: keeps unaffected)

end

section \<open>Link config events\<close>

datatype link_config_change = PutLinkConfig link_config_resource | DeleteLinkConfig link_config_resource

fun changed_link_config :: "link_config_change \<Rightarrow> link_config_resource" where
  "changed_link_config (PutLinkConfig lc) = lc"
| "changed_link_config (DeleteLinkConfig lc) = lc"

fun apply_change :: "link_config_change \<Rightarrow> cluster \<Rightarrow> cluster" where
  "apply_change (PutLinkConfig lc) c = c\<lparr>link_configs := (link_configs c)((lc_Namespace lc, lc_Name lc) \<mapsto> lc)\<rparr>"
| "apply_change (DeleteLinkConfig lc) c = c\<lparr>link_configs := (link_configs c)((lc_Namespace lc, lc_Name lc) := None)\<rparr>"

definition link_config_wakes ::
  "(cluster, 's, 'q) manager_lib \<Rightarrow> env \<Rightarrow> cluster \<Rightarrow> link_config_change \<Rightarrow> object_key list" where
  "link_config_wakes mgr e c x = Enqueue mgr (link_config_controller e) c (WatchedLinkConfig (changed_link_config x))"

text \<open>What a reconciliation does, but for the link configs it leaves, which it never changes.\<close>

definition reconcile_effect ::
  "env \<Rightarrow> object_key \<Rightarrow> cluster \<Rightarrow> int \<times> controller_error option \<times> injector_call list \<times> (object_key \<rightharpoonup> machine)" where
  "reconcile_effect e k c = (let r = Reconcile e k c
     in (RequeueAfter r, reconcile_error r, injector_calls r, machines (cluster_after r)))"

text \<open>The list call returns the machines of the namespace.\<close>

definition lists_machines :: "env \<Rightarrow> (object_key \<rightharpoonup> machine) \<Rightarrow> bool" where
  "lists_machines e objs \<longleftrightarrow> (\<forall>ns. \<exists>items. List_machines e objs ns = Inr items
     \<and> set items = {m. \<exists>k. objs k = Some m \<and> m_Namespace m = ns})"

lemma linkConfigToMachines_set:
  assumes "keyed machine_key (machines c)" and "lists_machines e (machines c)"
  shows "k \<in> set (linkConfigToMachines e c (Some lc)) \<longleftrightarrow>
    (\<exists>m. machines c k = Some m \<and> (m_Namespace m, link_config_name m) = (lc_Namespace lc, lc_Name lc))"
proof -
  obtain items where "List_machines e (machines c) (lc_Namespace lc) = Inr items"
    and "set items = {m. \<exists>k. machines c k = Some m \<and> m_Namespace m = lc_Namespace lc}"
    using assms(2) unfolding lists_machines_def by blast
  then have "set (linkConfigToMachines e c (Some lc)) =
      machine_key ` {m. (\<exists>a. machines c a = Some m) \<and> m_Namespace m = lc_Namespace lc \<and> link_config_name m = lc_Name lc}"
    by (auto simp: linkConfigToMachines_def)
  then have "k \<in> set (linkConfigToMachines e c (Some lc)) \<longleftrightarrow>
      (\<exists>a m. k = machine_key m \<and> machines c a = Some m \<and> (m_Namespace m, link_config_name m) = (lc_Namespace lc, lc_Name lc))"
    by auto
  also have "\<dots> \<longleftrightarrow> (\<exists>m. machines c k = Some m \<and> (m_Namespace m, link_config_name m) = (lc_Namespace lc, lc_Name lc))"
    using assms(1) unfolding keyed_def by metis
  finally show ?thesis .
qed

text \<open>Only the selected link config matters to a reconciliation.\<close>

lemma persist_link_configs:
  "persistReconciledLinkConfigState e (c\<lparr>link_configs := L\<rparr>) m name gen st df =
     map_prod id (\<lambda>c'. c'\<lparr>link_configs := L\<rparr>) (persistReconciledLinkConfigState e c m name gen st df)"
proof -
  obtain v where v: "Marshal_state \<lparr>LinkConfigName = name, LinkConfigGeneration = gen, StaticRoutes = st, DefaultRoute = df\<rparr> = Inr v"
    by (simp add: Marshal_state_def)
  obtain res objs where patch: "Patch_machine e m (annotated v m) (machines c) = (res, objs)" by fastforce
  show ?thesis
    by (cases "read_map (m_Annotations m) machineLinkConfigStateAnnKey = v"; cases res)
      (simp_all add: persistReconciledLinkConfigState_def v patch)
qed

definition with_link_configs :: "(object_key \<rightharpoonup> link_config_resource) \<Rightarrow> reconcile_result \<Rightarrow> reconcile_result" where
  "with_link_configs L r = r\<lparr>cluster_after := (cluster_after r)\<lparr>link_configs := L\<rparr>\<rparr>"

lemma with_link_configs_simps [simp]:
  "with_link_configs L (finished c) = finished (c\<lparr>link_configs := L\<rparr>)"
  "with_link_configs L (failed t err c) = failed t err (c\<lparr>link_configs := L\<rparr>)"
  "with_link_configs L (r\<lparr>injector_calls := calls\<rparr>) = (with_link_configs L r)\<lparr>injector_calls := calls\<rparr>"
  by (simp_all add: with_link_configs_def finished_def failed_def)

lemma other_objects:
  "machines (c\<lparr>link_configs := L\<rparr>) = machines c" "secrets (c\<lparr>link_configs := L\<rparr>) = secrets c"
  "pods (c\<lparr>link_configs := L\<rparr>) = pods c"
  by simp_all

lemma reads_no_link_config:
  "extractTalosConfigFromClusterSecret e (c\<lparr>link_configs := L\<rparr>) m = extractTalosConfigFromClusterSecret e c m"
  "fill_gateways e (c\<lparr>link_configs := L\<rparr>) m st df = fill_gateways e c m st df"
  unfolding extractTalosConfigFromClusterSecret_def fill_gateways_def deriveGatewayFromVMPod_def
    findVMPodForMachine_def other_objects by (rule refl)+

lemma reconcileMissing_link_configs:
  "reconcileMissingLinkConfig e (c\<lparr>link_configs := L\<rparr>) m name prev =
     with_link_configs L (reconcileMissingLinkConfig e c m name prev)"
  unfolding reconcileMissingLinkConfig_def persist_link_configs reads_no_link_config Let_def
  by (cases "persistReconciledLinkConfigState e c m name 0 [] None"; simp split: option.split sum.split)

lemma reconcile_link_config_link_configs:
  "reconcile_link_config e (c\<lparr>link_configs := L\<rparr>) m lc prev =
     with_link_configs L (reconcile_link_config e c m lc prev)"
  unfolding reconcile_link_config_def persist_link_configs reads_no_link_config Let_def
  by (simp split: sum.split prod.split)

lemma Reconcile_selected_only:
  assumes "\<And>m. machines c k = Some m \<Longrightarrow>
    L (m_Namespace m, link_config_name m) = link_configs c (m_Namespace m, link_config_name m)"
  shows "reconcile_effect e k (c\<lparr>link_configs := L\<rparr>) = reconcile_effect e k c"
proof -
  have "Reconcile e k (c\<lparr>link_configs := L\<rparr>) = with_link_configs L (Reconcile e k c)"
  proof (cases "fetch e GetMachine (machines c) k")
    case (Fetched m)
    then have "machines c k = Some m" by (auto simp: fetch_def split: option.splits)
    then have "fetch e GetLinkConfig L (m_Namespace m, link_config_name m) =
        fetch e GetLinkConfig (link_configs c) (m_Namespace m, link_config_name m)"
      using assms by (simp add: fetch_def split: option.split)
    then show ?thesis
      unfolding Reconcile_def reconcileMissing_link_configs reconcile_link_config_link_configs other_objects Fetched
      by (simp add: Let_def split: sum.split fetched.split)
  qed (simp_all add: Reconcile_def)
  then show ?thesis by (simp add: reconcile_effect_def with_link_configs_def Let_def)
qed

definition well_watched :: "(cluster, 's, 'q) manager_lib \<Rightarrow> env \<Rightarrow> cluster \<Rightarrow> bool" where
  "well_watched mgr e c \<longleftrightarrow> keyed machine_key (machines c) \<and> lists_machines e (machines c) \<and> enqueue_contract mgr"

interpretation link_config_events: event_source "well_watched mgr e" apply_change "link_config_wakes mgr e" "reconcile_effect e"
  for mgr e
proof
  show "well_watched mgr e (apply_change x c)" if "well_watched mgr e c" for c x
    using that by (cases x) (simp_all add: well_watched_def)
  fix c k x
  assume ok: "well_watched mgr e c" and k: "k \<notin> set (link_config_wakes mgr e c x)"
  let ?lc = "changed_link_config x"
  have "k \<notin> set (linkConfigToMachines e c (Some ?lc))"
    using ok k by (simp add: link_config_wakes_def well_watched_def link_config_requests)
  then have other: "(m_Namespace m, link_config_name m) \<noteq> (lc_Namespace ?lc, lc_Name ?lc)" if "machines c k = Some m" for m
    using ok that linkConfigToMachines_set by (auto simp: well_watched_def)
  show "reconcile_effect e k (apply_change x c) = reconcile_effect e k c"
    by (cases x; simp only: apply_change.simps; rule Reconcile_selected_only; use other in fastforce)
qed

text \<open>
  C29. The events of link configs suffice. A changed or deleted link config wakes up exactly the machines of
  its namespace that select it by name; and when no change of a sequence wakes up a machine, a
  reconciliation of it afterwards calls the injector, patches and returns exactly as one before.
\<close>

theorem link_config_events_suffice:
  assumes "keyed machine_key (machines c)" and "lists_machines e (machines c)" and "enqueue_contract mgr"
  shows "(k \<in> set (link_config_wakes mgr e c x) \<longleftrightarrow>
      (\<exists>m. machines c k = Some m \<and> (m_Namespace m, link_config_name m) =
         (lc_Namespace (changed_link_config x), lc_Name (changed_link_config x))))
    \<and> (\<not> woken (link_config_wakes mgr e) apply_change k c xs
        \<longrightarrow> reconcile_effect e k (fold apply_change xs c) = reconcile_effect e k c)"
proof
  show "k \<in> set (link_config_wakes mgr e c x) \<longleftrightarrow>
      (\<exists>m. machines c k = Some m \<and> (m_Namespace m, link_config_name m) =
         (lc_Namespace (changed_link_config x), lc_Name (changed_link_config x)))"
    unfolding link_config_wakes_def link_config_requests(1) [OF assms(3)]
    by (rule linkConfigToMachines_set [OF assms(1,2)])
  have "well_watched mgr e c" using assms by (simp add: well_watched_def)
  then show "\<not> woken (link_config_wakes mgr e) apply_change k c xs
      \<longrightarrow> reconcile_effect e k (fold apply_change xs c) = reconcile_effect e k c"
    using link_config_events.unwoken_unaffected by blast
qed

text \<open>A manager that delivers the events, and a change of a link config that no machine selects.\<close>

definition ex_manager :: "(cluster, unit, unit) manager_lib" where
  "ex_manager = \<lparr>Complete_controller = (\<lambda>ctl s. None),
     Enqueue = (\<lambda>ctl c obj. (if kind_of obj = For_kind ctl then [object_key_of obj] else [])
        @ concat (map (\<lambda>(kind, f). if kind_of obj = kind then f c obj else []) (Watched_kinds ctl))),
     dockyardsv1_AddToScheme = (\<lambda>s. (None, s)), imagev1_AddToScheme = (\<lambda>s. (None, s)),
     Complete_webhook = (\<lambda>create upd del s. None)\<rparr>"

definition ex_other_link_config :: link_config_resource where
  "ex_other_link_config = ex_link_config\<lparr>lc_Name := ''other''\<rparr>"

theorem link_config_events_suffice_witness:
  "reconcile_effect (ex_controller ''A'') (''n'', ''m'')
     (apply_change (PutLinkConfig ex_other_link_config) (ex_cluster ex_machine (Some ex_link_config)))
   = (0, None, [ex_call], [(''n'', ''m'') \<mapsto> annotated ex_text ex_machine])
   \<and> (''n'', ''m'') \<in> set (link_config_wakes ex_manager (ex_controller ''A'')
         (ex_cluster ex_machine (Some ex_link_config)) (DeleteLinkConfig ex_link_config))"
proof -
  let ?c = "ex_cluster ex_machine (Some ex_link_config)" and ?e = "ex_controller ''A''"
  have machines: "machines ?c k = Some m \<longleftrightarrow> k = (''n'', ''m'') \<and> m = ex_machine" for k m
    by (auto simp: ex_cluster_def)
  have "keyed machine_key (machines ?c)" by (simp add: keyed_def machines)
  moreover have "lists_machines ?e (machines ?c)"
    by (auto simp: lists_machines_def ex_list_machines_def machines)
  moreover have "enqueue_contract ex_manager"
    by (auto simp: enqueue_contract_def ex_manager_def split: if_splits)
  ultimately have suffice: "((''n'', ''m'') \<in> set (link_config_wakes ex_manager ?e ?c x) \<longleftrightarrow>
      (\<exists>m. machines ?c (''n'', ''m'') = Some m \<and> (m_Namespace m, link_config_name m) =
         (lc_Namespace (changed_link_config x), lc_Name (changed_link_config x))))
    \<and> (\<not> woken (link_config_wakes ex_manager ?e) apply_change (''n'', ''m'') ?c xs
        \<longrightarrow> reconcile_effect ?e (''n'', ''m'') (fold apply_change xs ?c) = reconcile_effect ?e (''n'', ''m'') ?c)" for x xs
    by (rule link_config_events_suffice)
  have names: "lc_Namespace ex_link_config = ''n''" "lc_Name ex_link_config = ''default''" "lc_Name ex_other_link_config = ''other''"
    by (simp_all add: ex_link_config_def ex_other_link_config_def)
  then have "\<not> woken (link_config_wakes ex_manager ?e) apply_change (''n'', ''m'') ?c [PutLinkConfig ex_other_link_config]"
    using suffice [of "PutLinkConfig ex_other_link_config" "[]"] by simp
  then have "reconcile_effect ?e (''n'', ''m'') (apply_change (PutLinkConfig ex_other_link_config) ?c)
      = reconcile_effect ?e (''n'', ''m'') ?c"
    using suffice [of _ "[PutLinkConfig ex_other_link_config]"] by simp
  moreover have "reconcile_effect ?e (''n'', ''m'') ?c = (0, None, [ex_call], [(''n'', ''m'') \<mapsto> annotated ex_text ex_machine])"
    by (simp add: reconcile_effect_def ex_reconcile_first patch_annotation_def Let_def) (auto simp: ex_cluster_def)
  moreover have "(''n'', ''m'') \<in> set (link_config_wakes ex_manager ?e ?c (DeleteLinkConfig ex_link_config))"
    using suffice [of "DeleteLinkConfig ex_link_config" "[]"] names by simp
  ultimately show ?thesis by simp
qed

end
