(* ===== verification/Release_Properties.thy ===== *)
theory Release_Properties
  imports Release_Controller
begin

text \<open>
  What the release controller guarantees: the published versions are the tags of the policies of the
  release, in the order of its ranges, with the greatest parseable one as the latest; every policy it
  maintains wakes the release up again; a failed reconciliation publishes nothing; and the disk image
  URL of an installer release has the documented form.
\<close>

section \<open>Contracts\<close>

definition repository_contract :: "'v release_env \<Rightarrow> bool" where
  "repository_contract e \<longleftrightarrow>
     create_or_patch_contract repository_key (\<lambda>x. (repo_Image x, repo_Interval x)) (CreateOrPatch_repository e)"

definition policy_contract :: "'v release_env \<Rightarrow> bool" where
  "policy_contract e \<longleftrightarrow>
     create_or_patch_contract policy_key (\<lambda>p. (pol_Labels p, pol_RepositoryRef p, pol_Range p)) (CreateOrPatch_policy e)"

text \<open>
  The semver library: a version remembers the text it was parsed from, and \<^verbatim>\<open>GreaterThan\<close> is a strict
  order.
\<close>

definition semver_contract :: "'v release_env \<Rightarrow> bool" where
  "semver_contract e \<longleftrightarrow> (\<forall>t v. NewVersion e t = Inr v \<longrightarrow> Original e v = t)
     \<and> (\<forall>a. \<not> GreaterThan e a a)
     \<and> (\<forall>a b c. GreaterThan e a b \<longrightarrow> GreaterThan e b c \<longrightarrow> GreaterThan e a c)"

text \<open>The patch helper stores the release it is given last, when it succeeds.\<close>

definition patch_release_contract :: "'v release_env \<Rightarrow> bool" where
  "patch_release_contract e \<longleftrightarrow>
     (\<forall>b r rels. (\<exists>err. Patch_release e b r rels = (Some err, rels))
        \<or> Patch_release e b r rels = (None, rels(release_key r \<mapsto> r)))"

section \<open>Policies\<close>

definition range_key :: "image_repository \<Rightarrow> string \<Rightarrow> object_key" where
  "range_key repo rng = (repo_Namespace repo, policy_name repo rng)"

lemma range_key_inj [simp]: "range_key repo x = range_key repo y \<longleftrightarrow> x = y"
  by (simp add: range_key_def policy_name_def)

definition tags_of :: "(object_key \<rightharpoonup> image_policy) \<Rightarrow> image_repository \<Rightarrow> string list \<Rightarrow> string list" where
  "tags_of ps repo ranges = List.map_filter (\<lambda>rng. Option.bind (ps (range_key repo rng)) pol_LatestRef) ranges"

lemma tags_of_simps [simp]:
  "tags_of ps repo [] = []"
  "tags_of ps repo (rng # ranges) =
     (case Option.bind (ps (range_key repo rng)) pol_LatestRef of
        None \<Rightarrow> tags_of ps repo ranges | Some t \<Rightarrow> t # tags_of ps repo ranges)"
  by (simp_all add: tags_of_def map_filter_simps split: option.split)

text \<open>What the code sets on a policy.\<close>

definition maintained :: "'v release_env \<Rightarrow> release \<Rightarrow> image_repository \<Rightarrow> string \<Rightarrow> image_policy \<Rightarrow> bool" where
  "maintained e r repo rng p \<longleftrightarrow> pol_Namespace p = repo_Namespace repo \<and> pol_RepositoryRef p = repo_Name repo \<and> pol_Range p = Some rng
     \<and> or_make (pol_Labels p) (LabelReleaseName e) = Some (rel_Name r)"

lemma set_policy_key [simp]: "policy_key (set_policy e r repo rng p) = policy_key p"
  by (simp add: policy_key_def set_policy_def)

lemma set_repository_key [simp]: "repository_key (set_repository img repo) = repository_key repo"
  by (simp add: repository_key_def set_repository_def)

lemma policy_written:
  assumes "policy_contract e" and "keyed policy_key ps"
    and "CreateOrPatch_policy e (new_policy name (repo_Namespace repo)) (set_policy e r repo rng) ps = (Inr p, ps')"
  shows "ps' = ps((repo_Namespace repo, name) \<mapsto> p)" and "maintained e r repo rng p" and "keyed policy_key ps'"
proof -
  note w = create_or_patchD [OF assms(1) [unfolded policy_contract_def], OF assms(2), OF assms(3), OF set_policy_key]
  show "ps' = ps((repo_Namespace repo, name) \<mapsto> p)" using w(2) by (simp add: new_policy_def policy_key_def)
  show "maintained e r repo rng p" using w(1,3) by (simp add: maintained_def set_policy_def new_policy_def policy_key_def)
  show "keyed policy_key ps'" using w(1,2) assms(2) by (simp add: keyed_upd)
qed

lemma repository_written:
  assumes "repository_contract e" and "keyed repository_key rs"
    and "CreateOrPatch_repository e (new_repository r) (set_repository img) rs = (Inr repo, rs')"
  shows "repo_Name repo = rel_Name r" and "repo_Namespace repo = rel_Namespace r"
    and "rs' = rs(release_key r \<mapsto> repo)" and "repo_Image repo = img"
proof -
  note w = create_or_patchD [OF assms(1) [unfolded repository_contract_def], OF assms(2), OF assms(3), OF set_repository_key]
  show "repo_Name repo = rel_Name r" "repo_Namespace repo = rel_Namespace r"
    using w(1) by (simp_all add: repository_key_def new_repository_def)
  show "rs' = rs(release_key r \<mapsto> repo)" using w(2) by (simp add: repository_key_def new_repository_def release_key_def)
  show "repo_Image repo = img" using w(3) by (simp add: set_repository_def)
qed

section \<open>The loop over the ranges\<close>

text \<open>The latest version, as a fold over the tags.\<close>

definition later :: "'v release_env \<Rightarrow> 'v option \<Rightarrow> string \<Rightarrow> 'v option" where
  "later e l tag = (case NewVersion e tag of Inl err \<Rightarrow> l | Inr v \<Rightarrow> newer e l v)"

lemma range_loop_other:
  assumes "policy_contract e" and "keyed policy_key ps" and "range_loop e r repo ranges versions l ps = (Inr res, ps')"
    and "k \<notin> range_key repo ` set ranges"
  shows "ps' k = ps k"
  using assms(2-4)
proof (induction ranges arbitrary: versions l ps)
  case (Cons rng ranges)
  obtain p ps1 where c: "CreateOrPatch_policy e (new_policy (policy_name repo rng) (repo_Namespace repo))
             (set_policy e r repo rng) ps = (Inr p, ps1)"
    using Cons.prems(2) by (auto split: prod.splits sum.splits)
  note w = policy_written [OF assms(1) Cons.prems(1) c]
  have "ps1 k = ps k" using w(1) Cons.prems(3) by (simp add: range_key_def)
  then show ?case using Cons w(3) by (auto simp: c Let_def split: option.splits sum.splits)
qed simp

lemma range_loop_Ok:
  assumes "policy_contract e" and "distinct ranges" and "keyed policy_key ps"
    and "range_loop e r repo ranges versions l ps = (Inr (versions', l'), ps')"
  shows "versions' = versions @ tags_of ps' repo ranges \<and> l' = foldl (later e) l (tags_of ps' repo ranges)
    \<and> (\<forall>rng \<in> set ranges. \<exists>p. ps' (range_key repo rng) = Some p \<and> maintained e r repo rng p)"
  using assms(2-4)
proof (induction ranges arbitrary: versions l ps)
  case (Cons rng ranges)
  let ?k = "range_key repo rng"
  obtain p ps1 where c: "CreateOrPatch_policy e (new_policy (policy_name repo rng) (repo_Namespace repo))
             (set_policy e r repo rng) ps = (Inr p, ps1)"
    using Cons.prems(3) by (auto split: prod.splits sum.splits)
  note w = policy_written [OF assms(1) Cons.prems(2) c]
  have ps1: "ps1 ?k = Some p" using w(1) by (simp add: range_key_def)
  have keep: "ps' ?k = Some p" if "range_loop e r repo ranges v m ps1 = (Inr (versions', l'), ps')" for v m
    using range_loop_other [OF assms(1) w(3) that, of ?k] Cons.prems(1) ps1 by (simp add: image_iff)
  show ?case
  proof (cases "pol_LatestRef p")
    case None
    then have rest: "range_loop e r repo ranges versions l ps1 = (Inr (versions', l'), ps')"
      using Cons.prems(3) by (simp add: c)
    show ?thesis using Cons.IH [OF _ w(3) rest] Cons.prems(1) keep [OF rest] w(2) None by auto
  next
    case (Some tag)
    then have rest: "range_loop e r repo ranges (versions @ [tag]) (later e l tag) ps1 = (Inr (versions', l'), ps')"
      using Cons.prems(3) by (simp add: c Let_def later_def split: sum.splits)
    show ?thesis using Cons.IH [OF _ w(3) rest] Cons.prems(1) keep [OF rest] w(2) Some by auto
  qed
qed simp

text \<open>The fold keeps a greatest version.\<close>

definition greatest_tag :: "'v release_env \<Rightarrow> string list \<Rightarrow> 'v \<Rightarrow> bool" where
  "greatest_tag e tags v \<longleftrightarrow> (\<exists>t \<in> set tags. NewVersion e t = Inr v)
     \<and> (\<forall>t \<in> set tags. \<forall>w. NewVersion e t = Inr w \<longrightarrow> \<not> GreaterThan e w v)"

lemma later_simps:
  "NewVersion e tag = Inl err \<Longrightarrow> later e l tag = l"
  "NewVersion e tag = Inr v \<Longrightarrow> later e l tag = newer e l v"
  by (simp_all add: later_def)

lemma greatest_tag_single:
  assumes "semver_contract e" and "NewVersion e t = Inr v" and "\<forall>t' \<in> set tags. \<exists>err. NewVersion e t' = Inl err"
  shows "greatest_tag e (tags @ [t]) v"
  using assms unfolding greatest_tag_def semver_contract_def by fastforce

lemma greatest_tag_newer:
  assumes "semver_contract e" and "greatest_tag e tags m" and "NewVersion e t = Inr v"
  shows "\<exists>x. newer e (Some m) v = Some x \<and> greatest_tag e (tags @ [t]) x"
proof (cases "GreaterThan e v m")
  case True
  have irr: "\<not> GreaterThan e v v" and tr: "\<not> GreaterThan e w m \<Longrightarrow> \<not> GreaterThan e w v" for w
    using assms(1) True unfolding semver_contract_def by blast+
  have "greatest_tag e (tags @ [t]) v"
    using assms(2,3) irr tr unfolding greatest_tag_def by auto
  then show ?thesis using True by (simp add: newer_def)
next
  case False
  then have "greatest_tag e (tags @ [t]) m" using assms(2,3) unfolding greatest_tag_def by auto
  then show ?thesis using False by (simp add: newer_def)
qed

lemma foldl_later:
  assumes "semver_contract e"
  shows "case foldl (later e) None tags of
      None \<Rightarrow> \<forall>t \<in> set tags. \<exists>err. NewVersion e t = Inl err
    | Some v \<Rightarrow> greatest_tag e tags v"
proof (induction tags rule: rev_induct)
  case (snoc tag tags)
  show ?case
  proof (cases "NewVersion e tag")
    case (Inl err)
    then show ?thesis using snoc by (auto simp: later_simps greatest_tag_def split: option.splits)
  next
    case (Inr v)
    show ?thesis
    proof (cases "foldl (later e) None tags")
      case None
      then show ?thesis using snoc Inr greatest_tag_single [OF assms Inr, of tags]
        by (simp add: later_simps newer_def)
    next
      case (Some m)
      then show ?thesis using snoc greatest_tag_newer [OF assms _ Inr, of tags m] Inr
        by (auto simp: later_simps)
    qed
  qed
qed simp

section \<open>An environment for the witnesses\<close>

definition ex_release_env :: "string release_env" where
  "ex_release_env = \<lparr>Get_release_fails = (\<lambda>k. None), NewHelper_fails = (\<lambda>r. None),
     Patch_release = (\<lambda>b r rels. (None, rels(release_key r \<mapsto> r))),
     CreateOrPatch_repository = plain_create_or_patch repository_key,
     CreateOrPatch_policy = plain_create_or_patch policy_key,
     NewVersion = (\<lambda>t. if t = [] then Inl ''invalid'' else Inr t), GreaterThan = (\<lambda>a b. b < a), Original = (\<lambda>t. t),
     CloudPlatforms = [\<lparr>platform_Name = ''vmware'', DiskImageDefaultPath = ''vmware-amd64.ova''\<rparr>],
     LabelReleaseName = ''release'', ImageFactoryHost = ''localhost''\<rparr>"

lemma ex_release_env_simps [simp]:
  "Get_release_fails ex_release_env k = None" "NewHelper_fails ex_release_env r = None"
  "Patch_release ex_release_env old new rels = (None, rels(release_key new \<mapsto> new))"
  "CreateOrPatch_repository ex_release_env = plain_create_or_patch repository_key"
  "CreateOrPatch_policy ex_release_env = plain_create_or_patch policy_key"
  "NewVersion ex_release_env t = (if t = [] then Inl ''invalid'' else Inr t)"
  "GreaterThan ex_release_env a b \<longleftrightarrow> b < a" "Original ex_release_env t = t"
  "CloudPlatforms ex_release_env = [\<lparr>platform_Name = ''vmware'', DiskImageDefaultPath = ''vmware-amd64.ova''\<rparr>]"
  "LabelReleaseName ex_release_env = ''release''" "ImageFactoryHost ex_release_env = ''localhost''"
  by (simp_all add: ex_release_env_def)

lemma ex_release_contracts [simp]:
  "repository_contract ex_release_env" "policy_contract ex_release_env" "semver_contract ex_release_env"
  "patch_release_contract ex_release_env"
  by (auto simp: repository_contract_def policy_contract_def plain_contract semver_contract_def patch_release_contract_def)

definition ex_release :: "release_type \<Rightarrow> string list \<Rightarrow> release" where
  "ex_release t ranges = \<lparr>rel_Name = ''test'', rel_Namespace = ''ns'',
     rel_Annotations = Some [AnnotationTalosPlatformName \<mapsto> ''vmware''], rel_Type = t, rel_Ranges = ranges,
     Status_Versions = [], Status_LatestVersion = [], Status_LatestURL = None\<rparr>"

lemma ex_release_simps [simp]:
  "rel_Name (ex_release t ranges) = ''test''" "rel_Namespace (ex_release t ranges) = ''ns''"
  "rel_Annotations (ex_release t ranges) = Some [AnnotationTalosPlatformName \<mapsto> ''vmware'']"
  "rel_Type (ex_release t ranges) = t" "rel_Ranges (ex_release t ranges) = ranges"
  "release_key (ex_release t ranges) = (''ns'', ''test'')"
  by (simp_all add: ex_release_def release_key_def)

text \<open>A cluster whose policy of the given name has found a tag.\<close>

definition ex_policy :: "string \<Rightarrow> string \<Rightarrow> image_policy" where
  "ex_policy name tag = (new_policy name ''ns'')\<lparr>pol_LatestRef := Some tag\<rparr>"

definition ex_releases :: "release \<Rightarrow> string \<Rightarrow> string \<Rightarrow> release_cluster" where
  "ex_releases r name tag = \<lparr>releases = [(''ns'', ''test'') \<mapsto> r], repositories = Map.empty,
     policies = [(''ns'', name) \<mapsto> ex_policy name tag]\<rparr>"

lemma ex_releases_simps [simp]:
  "releases (ex_releases r name tag) = [(''ns'', ''test'') \<mapsto> r]" "repositories (ex_releases r name tag) = Map.empty"
  "policies (ex_releases r name tag) = [(''ns'', name) \<mapsto> ex_policy name tag]"
  by (simp_all add: ex_releases_def)

lemma ex_releases_keyed [simp]: "keyed policy_key [(''ns'', name) \<mapsto> ex_policy name tag]"
  by (simp add: keyed_def ex_policy_def new_policy_def policy_key_def)

definition ex_repo :: "string \<Rightarrow> image_repository" where
  "ex_repo img = set_repository img \<lparr>repo_Name = ''test'', repo_Namespace = ''ns'', repo_Image = [], repo_Interval = 0\<rparr>"

lemma ex_repo_simps [simp]: "repo_Name (ex_repo img) = ''test''" "repo_Namespace (ex_repo img) = ''ns''"
  by (simp_all add: ex_repo_def set_repository_def)

lemma ex_repository_created:
  "plain_create_or_patch repository_key (new_repository (ex_release t ranges)) (set_repository img) Map.empty
     = (Inr (ex_repo img), [(''ns'', ''test'') \<mapsto> ex_repo img])"
  by (simp add: plain_create_or_patch_def new_repository_def repository_key_def ex_repo_def Let_def)

lemma ex_policy_patched:
  "plain_create_or_patch policy_key (new_policy name ''ns'') f [(''ns'', name) \<mapsto> ex_policy name tag]
     = (Inr (f (ex_policy name tag)), [(''ns'', name) \<mapsto> f (ex_policy name tag)])"
  by (simp add: plain_create_or_patch_def new_policy_def policy_key_def Let_def)

lemma ex_policy_tag [simp]: "pol_LatestRef (set_policy e r repo rng (ex_policy name tag)) = Some tag"
  by (simp add: set_policy_def ex_policy_def)

definition ex_kubernetes :: "release \<times> release_cluster" where
  "ex_kubernetes = snd (reconcileKubernetesReleases ex_release_env (ex_release ReleaseTypeKubernetes [''1.34.x''])
     (ex_releases (ex_release ReleaseTypeKubernetes [''1.34.x'']) ''test-1.34.x'' ''v1.34.1''))"

lemma ex_kubernetes_runs:
  "reconcileKubernetesReleases ex_release_env (ex_release ReleaseTypeKubernetes [''1.34.x''])
     (ex_releases (ex_release ReleaseTypeKubernetes [''1.34.x'']) ''test-1.34.x'' ''v1.34.1'')
     = (None, fst ex_kubernetes, snd ex_kubernetes)"
  "Status_LatestVersion (fst ex_kubernetes) = ''v1.34.1''"
  by (simp_all add: ex_kubernetes_def reconcileKubernetesReleases_def ex_repository_created policy_name_def
      ex_policy_patched newer_def)

section \<open>Kubernetes releases\<close>

lemma range_key_repository:
  "repo_Name repo = rel_Name r \<Longrightarrow> repo_Namespace repo = rel_Namespace r \<Longrightarrow>
     range_key repo = range_key (new_repository r)"
  by (simp add: range_key_def policy_name_def new_repository_def fun_eq_iff)

lemma reconcileKubernetes_Ok:
  assumes "repository_contract e" and "policy_contract e" and "distinct (rel_Ranges r)"
    and "keyed repository_key (repositories c)" and "keyed policy_key (policies c)"
    and "reconcileKubernetesReleases e r c = (None, r', c')"
  obtains repo where "repo_Name repo = rel_Name r" and "repo_Namespace repo = rel_Namespace r"
    and "r' = (case foldl (later e) None (tags_of (policies c') repo (rel_Ranges r)) of
                 None \<Rightarrow> r
               | Some v \<Rightarrow> r\<lparr>Status_Versions := tags_of (policies c') repo (rel_Ranges r), Status_LatestVersion := Original e v\<rparr>)"
    and "\<And>rng. rng \<in> set (rel_Ranges r) \<Longrightarrow>
           \<exists>p. policies c' (range_key repo rng) = Some p \<and> maintained e r repo rng p"
proof -
  obtain repo rs where repo: "CreateOrPatch_repository e (new_repository r) (set_repository ''ghcr.io/siderolabs/kubelet'')
      (repositories c) = (Inr repo, rs)"
    using assms(6) by (auto simp: reconcileKubernetesReleases_def split: prod.splits sum.splits)
  obtain versions l ps where loop: "range_loop e r repo (rel_Ranges r) [] None (policies c) = (Inr (versions, l), ps)"
    using assms(6) by (auto simp: reconcileKubernetesReleases_def repo split: prod.splits sum.splits)
  have "policies c' = ps" "r' = (case l of None \<Rightarrow> r
      | Some v \<Rightarrow> r\<lparr>Status_Versions := versions, Status_LatestVersion := Original e v\<rparr>)"
    using assms(6) by (auto simp: reconcileKubernetesReleases_def repo loop)
  then show thesis
    using repository_written(1,2) [OF assms(1,4) repo] range_loop_Ok [OF assms(2,3,5) loop] by (intro that [of repo]) auto
qed

text \<open>
  C33. A reconciliation of a Kubernetes release without error publishes the tags its policies found, in
  the order of the ranges, tags that are not semantic versions included, with a latest version
  that is one of them and that no other one exceeds; when no tag is a version the status stays as
  it was. Nothing else of the release changes.
\<close>

theorem kubernetes_versions:
  assumes "repository_contract e" and "policy_contract e" and "semver_contract e" and "distinct (rel_Ranges r)"
    and "keyed repository_key (repositories c)" and "keyed policy_key (policies c)"
    and "reconcileKubernetesReleases e r c = (None, r', c')"
  shows "(\<exists>v. greatest_tag e (tags_of (policies c') (new_repository r) (rel_Ranges r)) v
        \<and> Original e v \<in> set (tags_of (policies c') (new_repository r) (rel_Ranges r))
        \<and> r' = r\<lparr>Status_Versions := tags_of (policies c') (new_repository r) (rel_Ranges r), Status_LatestVersion := Original e v\<rparr>)
    \<or> (\<forall>t \<in> set (tags_of (policies c') (new_repository r) (rel_Ranges r)). \<exists>err. NewVersion e t = Inl err) \<and> r' = r"
proof -
  obtain repo where repo: "repo_Name repo = rel_Name r" "repo_Namespace repo = rel_Namespace r"
    and r': "r' = (case foldl (later e) None (tags_of (policies c') repo (rel_Ranges r)) of
                 None \<Rightarrow> r
               | Some v \<Rightarrow> r\<lparr>Status_Versions := tags_of (policies c') repo (rel_Ranges r), Status_LatestVersion := Original e v\<rparr>)"
    by (rule reconcileKubernetes_Ok [OF assms(1,2,4-7)])
  let ?tags = "tags_of (policies c') (new_repository r) (rel_Ranges r)"
  have tags: "tags_of (policies c') repo (rel_Ranges r) = ?tags"
    by (simp add: tags_of_def range_key_repository [OF repo])
  show ?thesis
  proof (cases "foldl (later e) None ?tags")
    case None
    then show ?thesis using foldl_later [OF assms(3), of ?tags] r' by (simp add: tags)
  next
    case (Some v)
    then have v: "greatest_tag e ?tags v" using foldl_later [OF assms(3), of ?tags] by simp
    then have "Original e v \<in> set ?tags" using assms(3) unfolding greatest_tag_def semver_contract_def by auto
    then show ?thesis using v r' Some by (auto simp: tags)
  qed
qed

theorem kubernetes_versions_witness:
  "Status_Versions (fst ex_kubernetes) = [''v1.34.1''] \<and> Status_LatestVersion (fst ex_kubernetes) \<in> set [''v1.34.1'']"
proof -
  have key: "range_key (new_repository (ex_release t rs)) rng = (''ns'', ''test-'' @ rng)" for t rs rng
    by (simp add: range_key_def new_repository_def policy_name_def)
  have tags: "tags_of (policies (snd ex_kubernetes)) (new_repository (ex_release ReleaseTypeKubernetes [''1.34.x''])) [''1.34.x''] = [''v1.34.1'']"
    by (simp add: ex_kubernetes_def reconcileKubernetesReleases_def ex_repository_created policy_name_def
        ex_policy_patched key)
  show ?thesis
    using kubernetes_versions [OF _ _ _ _ _ _ ex_kubernetes_runs(1)] ex_kubernetes_runs(2)
    by (auto simp: tags simp del: tags_of_simps)
qed

section \<open>Events\<close>

lemma maintained_event:
  "maintained e r repo rng p \<Longrightarrow> repo_Namespace repo = rel_Namespace r \<Longrightarrow>
     ReleaseFromImagePolicy e (Some p) = [release_key r]"
  by (simp add: maintained_def ReleaseFromImagePolicy_def release_key_def)

lemma reconcileTalosInstaller_Ok:
  assumes "repository_contract e" and "policy_contract e" and "rel_Ranges r = [rng]"
    and "keyed repository_key (repositories c)" and "keyed policy_key (policies c)"
    and "reconcileTalosInstaller e r c = (None, r', c')"
  obtains repo p where "repo_Name repo = rel_Name r" and "repo_Namespace repo = rel_Namespace r"
    and "policies c' (release_key r) = Some p" and "maintained e r repo rng p"
    and "r' = (case pol_LatestRef p of None \<Rightarrow> r | Some tag \<Rightarrow> installer_status e tag r)"
proof -
  obtain repo rs where repo: "CreateOrPatch_repository e (new_repository r) (set_repository ''ghcr.io/siderolabs/installer'')
      (repositories c) = (Inr repo, rs)"
    using assms(3,6) by (auto simp: reconcileTalosInstaller_def split: prod.splits sum.splits)
  obtain p ps where p: "CreateOrPatch_policy e (new_policy (repo_Name repo) (repo_Namespace repo))
                     (set_policy e r repo rng) (policies c) = (Inr p, ps)"
    using assms(3,6) by (auto simp: reconcileTalosInstaller_def repo split: prod.splits sum.splits)
  have "policies c' = ps" "r' = (case pol_LatestRef p of None \<Rightarrow> r | Some tag \<Rightarrow> installer_status e tag r)"
    using assms(3,6) by (auto simp: reconcileTalosInstaller_def repo p)
  then show thesis
    using repository_written(1,2) [OF assms(1,4) repo] policy_written [OF assms(2,5) p]
    by (intro that [of repo p]) (auto simp: release_key_def)
qed

text \<open>
  C34. After a reconciliation without error there is a policy for every range of the release, with that
  range, and a change of any of these policies wakes up exactly this release: the controller
  cannot miss a new version.
\<close>

theorem policies_wake_release:
  assumes "repository_contract e" and "policy_contract e" and "distinct (rel_Ranges r)"
    and "keyed repository_key (repositories c)" and "keyed policy_key (policies c)"
    and "reconcile_by_type e r c = (None, r', c')" and "rng \<in> set (rel_Ranges r)"
    and "rel_Type r = ReleaseTypeKubernetes \<or> rel_Type r = ReleaseTypeTalosInstaller \<and> length (rel_Ranges r) = 1"
  shows "\<exists>name p. policies c' (rel_Namespace r, name) = Some p \<and> pol_Range p = Some rng
    \<and> ReleaseFromImagePolicy e (Some p) = [release_key r]"
  using assms(8)
proof (elim disjE conjE)
  assume "rel_Type r = ReleaseTypeKubernetes"
  then have run: "reconcileKubernetesReleases e r c = (None, r', c')" using assms(6) by (simp add: reconcile_by_type_def)
  obtain repo p where repo: "repo_Namespace repo = rel_Namespace r"
    and p: "policies c' (range_key repo rng) = Some p" "maintained e r repo rng p"
    using reconcileKubernetes_Ok [OF assms(1-5) run] assms(7) by metis
  then show ?thesis using maintained_event [OF p(2) repo] by (auto simp: range_key_def maintained_def)
next
  assume "rel_Type r = ReleaseTypeTalosInstaller" "length (rel_Ranges r) = 1"
  then have run: "reconcileTalosInstaller e r c = (None, r', c')" and rng: "rel_Ranges r = [rng]"
    using assms(6,7) by (auto simp: reconcile_by_type_def length_Suc_conv)
  obtain repo p where repo: "repo_Namespace repo = rel_Namespace r" and p: "policies c' (release_key r) = Some p"
    and m: "maintained e r repo rng p"
    using reconcileTalosInstaller_Ok [OF assms(1,2) rng assms(4,5) run] by metis
  show ?thesis
    by (intro exI [of _ "rel_Name r"] exI [of _ p])
      (use maintained_event [OF m repo] p m in \<open>simp add: release_key_def maintained_def\<close>)
qed

theorem policies_wake_release_witness:
  "\<exists>name p. policies (snd ex_kubernetes) (''ns'', name) = Some p
    \<and> ReleaseFromImagePolicy ex_release_env (Some p) = [(''ns'', ''test'')]"
proof -
  have "reconcile_by_type ex_release_env (ex_release ReleaseTypeKubernetes [''1.34.x''])
     (ex_releases (ex_release ReleaseTypeKubernetes [''1.34.x'']) ''test-1.34.x'' ''v1.34.1'')
     = (None, fst ex_kubernetes, snd ex_kubernetes)"
    by (simp add: reconcile_by_type_def ex_kubernetes_runs)
  from policies_wake_release [OF _ _ _ _ _ this, of "''1.34.x''"] show ?thesis by auto
qed

section \<open>Errors\<close>

lemma reconcile_by_type_error: "reconcile_by_type e r c = (Some err, r', c') \<Longrightarrow> r' = r"
  by (auto simp: reconcile_by_type_def reconcileKubernetesReleases_def reconcileTalosInstaller_def
      split: release_type.splits prod.splits sum.splits if_splits)

lemma reconcile_by_type_releases: "reconcile_by_type e r c = (err, r', c') \<Longrightarrow> releases c' = releases c"
  by (auto simp: reconcile_by_type_def reconcileKubernetesReleases_def reconcileTalosInstaller_def
      split: release_type.splits prod.splits sum.splits if_splits)


definition ex_failing_env :: "string release_env" where
  "ex_failing_env = ex_release_env\<lparr>CreateOrPatch_repository := (\<lambda>obj f objs. (Inl ''forbidden'', objs))\<rparr>"


section \<open>Disk images\<close>

definition plain_for :: "encoding \<Rightarrow> string \<Rightarrow> bool" where
  "plain_for mode s \<longleftrightarrow> (\<forall>c \<in> set s. \<not> shouldEscape c mode)"

lemma plain_for_simps:
  "plain_for mode []" "plain_for mode (c # s) \<longleftrightarrow> \<not> shouldEscape c mode \<and> plain_for mode s"
  "plain_for mode (s @ t) \<longleftrightarrow> plain_for mode s \<and> plain_for mode t"
  by (auto simp: plain_for_def)

lemma image_chars [simp]:
  "\<not> shouldEscape (CHR ''i'') EncodePath" "\<not> shouldEscape (CHR ''m'') EncodePath"
  "\<not> shouldEscape (CHR ''a'') EncodePath" "\<not> shouldEscape (CHR ''g'') EncodePath"
  "\<not> shouldEscape (CHR ''e'') EncodePath" "\<not> shouldEscape (CHR ''/'') EncodePath"
  by code_simp+

lemma escape_plain_for: "plain_for mode s \<Longrightarrow> escape mode s = s"
  by (rule escape_plain) (simp add: plain_for_def)

lemma plain_segment_image [simp]: "plain_segment ''image''"
  by (simp add: plain_segment_def)

lemma image_path:
  assumes "plain_segment s" and "plain_segment tag" and "plain_segment (DiskImageDefaultPath p)"
  shows "Path (image_url e s tag p) = ''image/'' @ s @ ''/'' @ tag @ ''/'' @ DiskImageDefaultPath p"
proof -
  have "path_Join [''image'', s, tag, DiskImageDefaultPath p] = join ''/'' [''image'', s, tag, DiskImageDefaultPath p]"
    by (rule path_Join_plain) (use assms in auto)
  then show ?thesis by (simp add: image_url_def)
qed

lemma image_url_string:
  assumes "plain_segment s" and "plain_segment tag" and "plain_segment (DiskImageDefaultPath p)" and "ImageFactoryHost e \<noteq> []"
  shows "URL_String (image_url e s tag p) = ''https://'' @ escape EncodeHost (ImageFactoryHost e) @ ''/''
    @ escape EncodePath (''image/'' @ s @ ''/'' @ tag @ ''/'' @ DiskImageDefaultPath p)"
proof -
  have "escape EncodePath (CHR ''i'' # t) = CHR ''i'' # escape EncodePath t" for t
    by (simp add: escape_def escape_byte_def)
  then show ?thesis using image_path [OF assms(1-3), of e] assms(4)
    by (simp add: URL_String_def EscapedPath_def) (simp add: image_url_def)
qed

lemma installer_status_versions:
  "Status_Versions (installer_status e tag r) = [tag] \<and> Status_LatestVersion (installer_status e tag r) = tag"
proof (cases "or_make (rel_Annotations r) AnnotationTalosPlatformName")
  case (Some name)
  then show ?thesis
    by (cases "find (\<lambda>p. \<not> platform_Name p \<noteq> name) (CloudPlatforms e)") (simp_all add: installer_status_def Let_def)
qed (simp add: installer_status_def Let_def)

lemma installer_status_no_url:
  assumes "\<forall>p \<in> set (CloudPlatforms e). or_make (rel_Annotations r) AnnotationTalosPlatformName \<noteq> Some (platform_Name p)"
  shows "Status_LatestURL (installer_status e tag r) = None"
proof (cases "or_make (rel_Annotations r) AnnotationTalosPlatformName")
  case (Some name)
  then have "find (\<lambda>p. \<not> platform_Name p \<noteq> name) (CloudPlatforms e) = None"
    using assms by (auto simp: find_None_iff)
  then show ?thesis using Some by (simp add: installer_status_def Let_def)
qed (simp add: installer_status_def Let_def)

lemma find_platform:
  "p \<in> set ps \<Longrightarrow> distinct (map platform_Name ps) \<Longrightarrow> find (\<lambda>q. \<not> platform_Name q \<noteq> platform_Name p) ps = Some p"
  by (induction ps) force+

text \<open>
  C36. A reconciliation of an installer release whose policy has found a tag publishes that tag alone and,
  when the release names a known platform and all parts are plain, the URL
  \<^verbatim>\<open>https://host/image/schematic/tag/disk\<close> of its disk image, with the default schematic when the
  release names none. Without a platform, or with an unknown one, no URL is published.
\<close>

theorem installer_publishes_url:
  assumes "repository_contract e" and "policy_contract e" and "rel_Ranges r = [rng]"
    and "keyed repository_key (repositories c)" and "keyed policy_key (policies c)"
    and "reconcileTalosInstaller e r c = (None, r', c')"
    and "policies c' (release_key r) = Some pol" and "pol_LatestRef pol = Some tag"
    and "sid = (case or_make (rel_Annotations r) AnnotationTalosSchematicID of None \<Rightarrow> DefaultSchematicID | Some s \<Rightarrow> s)"
  shows "Status_Versions r' = [tag] \<and> Status_LatestVersion r' = tag
    \<and> (\<forall>p. p \<in> set (CloudPlatforms e) \<longrightarrow> distinct (map platform_Name (CloudPlatforms e))
          \<longrightarrow> or_make (rel_Annotations r) AnnotationTalosPlatformName = Some (platform_Name p)
          \<longrightarrow> (\<forall>s \<in> {sid, tag, DiskImageDefaultPath p}. plain_segment s \<and> plain_for EncodePath s)
          \<longrightarrow> ImageFactoryHost e \<noteq> [] \<longrightarrow> plain_for EncodeHost (ImageFactoryHost e)
          \<longrightarrow> Status_LatestURL r' = Some (''https://'' @ ImageFactoryHost e @ ''/image/'' @ sid @ ''/'' @ tag @ ''/''
                @ DiskImageDefaultPath p))
    \<and> ((\<forall>p \<in> set (CloudPlatforms e). or_make (rel_Annotations r) AnnotationTalosPlatformName \<noteq> Some (platform_Name p))
          \<longrightarrow> Status_LatestURL r' = None)"
proof -
  have "r' = installer_status e tag r"
    using reconcileTalosInstaller_Ok [OF assms(1-6)] assms(7,8) by (metis option.inject option.simps(5))
  moreover have "Status_LatestURL (installer_status e tag r) = Some (''https://'' @ ImageFactoryHost e @ ''/image/'' @ sid @ ''/''
      @ tag @ ''/'' @ DiskImageDefaultPath p)"
    if "p \<in> set (CloudPlatforms e)" "distinct (map platform_Name (CloudPlatforms e))"
      "or_make (rel_Annotations r) AnnotationTalosPlatformName = Some (platform_Name p)"
      "\<forall>s \<in> {sid, tag, DiskImageDefaultPath p}. plain_segment s \<and> plain_for EncodePath s"
      "ImageFactoryHost e \<noteq> []" "plain_for EncodeHost (ImageFactoryHost e)" for p
  proof -
    have "find (\<lambda>q. \<not> platform_Name q \<noteq> platform_Name p) (CloudPlatforms e) = Some p"
      by (rule find_platform [OF that(1,2)])
    then have "Status_LatestURL (installer_status e tag r) = Some (URL_String (image_url e sid tag p))"
      using that(3) assms(9) by (simp add: installer_status_def Let_def)
    moreover have "escape EncodePath (''image/'' @ sid @ ''/'' @ tag @ ''/'' @ DiskImageDefaultPath p)
        = ''image/'' @ sid @ ''/'' @ tag @ ''/'' @ DiskImageDefaultPath p"
      by (rule escape_plain_for) (use that(4) in \<open>simp add: plain_for_simps\<close>)
    moreover have "escape EncodeHost (ImageFactoryHost e) = ImageFactoryHost e"
      by (rule escape_plain_for) (use that(6) in simp)
    ultimately show ?thesis using that(4,5) by (simp add: image_url_string)
  qed
  moreover have "Status_LatestURL (installer_status e tag r) = None"
    if "\<forall>p \<in> set (CloudPlatforms e). or_make (rel_Annotations r) AnnotationTalosPlatformName \<noteq> Some (platform_Name p)"
    by (rule installer_status_no_url [OF that])
  moreover have "Status_Versions (installer_status e tag r) = [tag] \<and> Status_LatestVersion (installer_status e tag r) = tag"
    by (rule installer_status_versions)
  ultimately show ?thesis by simp
qed

definition ex_installer :: "release \<times> release_cluster" where
  "ex_installer = snd (reconcileTalosInstaller ex_release_env (ex_release ReleaseTypeTalosInstaller [''v1.8.x''])
     (ex_releases (ex_release ReleaseTypeTalosInstaller [''v1.8.x'']) ''test'' ''v1.8.9''))"

lemma ex_installer_runs:
  "reconcileTalosInstaller ex_release_env (ex_release ReleaseTypeTalosInstaller [''v1.8.x''])
     (ex_releases (ex_release ReleaseTypeTalosInstaller [''v1.8.x'']) ''test'' ''v1.8.9'')
     = (None, fst ex_installer, snd ex_installer)"
  "\<exists>p. policies (snd ex_installer) (''ns'', ''test'') = Some p \<and> pol_LatestRef p = Some ''v1.8.9''"
  by (simp_all add: ex_installer_def reconcileTalosInstaller_def ex_repository_created ex_policy_patched)

lemma keys_of_release [simp]: "AnnotationTalosSchematicID \<noteq> AnnotationTalosPlatformName"
  by (simp add: AnnotationTalosSchematicID_def AnnotationTalosPlatformName_def)

lemma plain_by_computation [simp]:
  "plain_segment DefaultSchematicID \<and> plain_for EncodePath DefaultSchematicID"
  "plain_segment ''v1.8.9'' \<and> plain_for EncodePath ''v1.8.9''"
  "plain_segment ''vmware-amd64.ova'' \<and> plain_for EncodePath ''vmware-amd64.ova''"
  "plain_for EncodeHost ''localhost''"
  by (simp_all only: plain_segment_def plain_for_def) code_simp+

theorem installer_publishes_url_witness:
  "Status_LatestURL (fst ex_installer) = Some (''https://localhost/image/'' @ DefaultSchematicID @ ''/v1.8.9/vmware-amd64.ova'')"
proof -
  obtain p where p: "policies (snd ex_installer) (''ns'', ''test'') = Some p" "pol_LatestRef p = Some ''v1.8.9''"
    using ex_installer_runs(2) by blast
  have "policies (snd ex_installer) (release_key (ex_release ReleaseTypeTalosInstaller [''v1.8.x''])) = Some p"
    using p(1) by simp
  from installer_publishes_url [OF _ _ _ _ _ ex_installer_runs(1) this p(2) refl]
  show ?thesis by simp
qed



end
