(* ===== verification/Discovery_Hello.thy ===== *)
theory Discovery_Hello
  imports NetIP
begin

text \<open>
  The \<^verbatim>\<open>Hello\<close> call of the discovery service (\<^verbatim>\<open>cluster_discovery_server.go\<close>): it answers with the
  address of the peer, which the gRPC library puts into the context.
\<close>

text \<open>The peer of the context, its address, and the form of an address: the IP may be nil.\<close>

datatype net_addr =
    TCPAddr "8 word list option"
  | UDPAddr "8 word list option"
  | IPAddr "8 word list option"
  | OtherAddr string

datatype context_peer = NoPeer | NilPeer | PeerAddr "net_addr option"

datatype hello_error = NoClientIP | UnparsableClientIP

text \<open>Other addresses are often written as host and port; both that and a bare IP are handled.\<close>

fun client_ip :: "net_addr \<Rightarrow> 8 word list option" where
  "client_ip (TCPAddr ip) = ip"
| "client_ip (UDPAddr ip) = ip"
| "client_ip (IPAddr ip) = ip"
| "client_ip (OtherAddr s) =
     (case SplitHostPort s of Some (host, port) \<Rightarrow> ParseIP host | None \<Rightarrow> ParseIP s)"

definition Hello :: "context_peer \<Rightarrow> hello_error + 8 word list" where
  "Hello ctx =
     (case ctx of
        NoPeer \<Rightarrow> Inl NoClientIP
      | NilPeer \<Rightarrow> Inl NoClientIP
      | PeerAddr None \<Rightarrow> Inl NoClientIP
      | PeerAddr (Some addr) \<Rightarrow>
          (case client_ip addr of None \<Rightarrow> Inl UnparsableClientIP | Some clientIP \<Rightarrow> Inr clientIP))"

section \<open>Host and port\<close>

lemma takeWhile_until: "c \<notin> set a \<Longrightarrow> takeWhile (\<lambda>d. d \<noteq> c) (a @ c # b) = a"
  by (induction a) auto

lemma index_of_append: "c \<notin> set a \<Longrightarrow> index_of c (a @ c # b) = Some (length a)"
  by (simp add: index_of_def takeWhile_until)

lemma last_index_of_append: "c \<notin> set b \<Longrightarrow> last_index_of c (a @ c # b) = Some (length a)"
  by (simp add: last_index_of_def takeWhile_until)

lemma SplitHostPort_Join:
  assumes "CHR '':'' \<notin> set port" and "set port \<inter> {CHR ''['', CHR '']''} = {}" and "set host \<inter> {CHR ''['', CHR '']''} = {}"
  shows "SplitHostPort (JoinHostPort host port) = Some (host, port)"
proof (cases "CHR '':'' \<in> set host")
  case True
  have "last_index_of (CHR '':'') (CHR ''['' # host @ CHR '']'' # CHR '':'' # port) = Some (length (CHR ''['' # host @ '']''))"
    using last_index_of_append [of "CHR '':''" port "CHR ''['' # host @ '']''"] assms(1) by simp
  moreover have "index_of (CHR '']'') (CHR ''['' # host @ CHR '']'' # CHR '':'' # port) = Some (length (CHR ''['' # host))"
    using index_of_append [of "CHR '']''" "CHR ''['' # host"] assms(3) by simp
  ultimately show ?thesis using True assms(2,3) by (auto simp: JoinHostPort_def SplitHostPort_def)
next
  case False
  have "take 1 (host @ CHR '':'' # port) \<noteq> ''[''" using assms(3) by (cases host) auto
  then show ?thesis using False assms last_index_of_append [of "CHR '':''" port host]
    by (auto simp: JoinHostPort_def SplitHostPort_def)
qed

lemma SplitHostPort_bare:
  assumes "count_list s (CHR '':'') \<noteq> 1" and "set s \<inter> {CHR ''['', CHR '']''} = {}"
  shows "SplitHostPort s = None"
proof (cases "last_index_of (CHR '':'') s")
  case None
  then show ?thesis by (simp add: SplitHostPort_def)
next
  case (Some i)
  then have "CHR '':'' \<in> set s" by (auto simp: last_index_of_def split: if_splits)
  then obtain a b where s: "s = a @ CHR '':'' # b" "CHR '':'' \<notin> set b"
    by (metis split_list_last)
  then have "CHR '':'' \<in> set a" using assms(1) by (auto simp: count_list_0_iff)
  moreover have "take 1 s \<noteq> ''[''" using assms(2) by (cases s) auto
  ultimately show ?thesis using last_index_of_append [OF s(2), of a]
    by (simp add: SplitHostPort_def s(1))
qed



end
