(* ===== verification/Discovery_Restart.thy ===== *)
theory Discovery_Restart
  imports Discovery_Properties
begin

text \<open>
  Restarts: what \<^verbatim>\<open>statePersister\<close> saves to the JSON file, and what \<^verbatim>\<open>Load\<close> and
  \<^verbatim>\<open>NewClusterDiscoveryServer\<close> make of it when the process starts again; and what a failed write leaves.
\<close>

section \<open>The codec\<close>

text \<open>
  What JSON keeps of an entry: times lose their monotonic reading, and the generated type leaves out
  empty data (\<^verbatim>\<open>omitempty\<close>), which is read back as nil.
\<close>

definition as_saved :: "cluster_affiliate \<Rightarrow> cluster_affiliate" where
  "as_saved a = a\<lparr>ca_Affiliate := map_option (\<lambda>x. if Affiliate_Data x = Some [] then x\<lparr>Affiliate_Data := None\<rparr> else x) (ca_Affiliate a),
                  RemoveAfter := (RemoveAfter a)\<lparr>mono := None\<rparr>\<rparr>"

text \<open>The codec reads back what it wrote, for entries that JSON can write (their IDs are valid UTF-8, their year has four digits).\<close>

definition json_contract :: "json_codec \<Rightarrow> (cluster_affiliate \<Rightarrow> bool) \<Rightarrow> bool" where
  "json_contract json valid \<longleftrightarrow>
     (\<forall>l. list_all valid l \<longrightarrow> (\<exists>data. Marshal json l = Inr data \<and> Unmarshal json data = Inr (map as_saved l)))"

text \<open>The state file can be created, written completely and read.\<close>

definition writable :: "string \<Rightarrow> os_world \<Rightarrow> bool" where
  "writable path w \<longleftrightarrow> \<not> create_fails w \<and> short_write w = None \<and> path \<notin> unreadable w"

lemma as_saved_key [simp]: "key_of (as_saved a) = key_of a"
  by (cases "ca_Affiliate a") (simp_all add: as_saved_def key_of_def GetId_def)

lemma as_saved_affiliate [simp]: "ca_Affiliate (as_saved a) = None \<longleftrightarrow> ca_Affiliate a = None"
  by (simp add: as_saved_def)

lemma as_saved_expiry: "time_after now (RemoveAfter (as_saved a)) \<longleftrightarrow> wall (RemoveAfter a) < wall now"
  by (simp add: as_saved_def time_after_def split: option.splits)

section \<open>Saving and loading\<close>

lemma Save_file:
  assumes "path \<noteq> []" and "writable path w" and "Marshal json l = Inr data"
  shows "Save json (select_provider path) l w = w\<lparr>files := (files w)(path \<mapsto> data), watch_log := watch_log w @ [l]\<rparr>"
  using assms by (simp add: select_provider_def AddWatch_def JSONFile_Save_def os_Create_def file_Write_def writable_def Let_def)

lemma Load_file:
  assumes "path \<noteq> []" and "path \<notin> unreadable w" and "files w path = Some data" and "Unmarshal json data = Inr l"
  shows "Load json (select_provider path) w = (l, w)"
  using assms by (simp add: select_provider_def AddWatch_def JSONFile_Load_def os_ReadFile_def)

lemma Save_Load:
  assumes "json_contract json valid" and "list_all valid l" and "path \<noteq> []" and "writable path w"
  shows "Load json (select_provider path) (Save json (select_provider path) l w) =
     (map as_saved l, Save json (select_provider path) l w)"
proof -
  obtain data where data: "Marshal json l = Inr data" "Unmarshal json data = Inr (map as_saved l)"
    using assms(1,2) unfolding json_contract_def by blast
  note save = Save_file [OF assms(3,4) data(1)]
  have "path \<notin> unreadable w" using assms(4) by (simp add: writable_def)
  then show ?thesis unfolding save by (intro Load_file [OF assms(3) _ _ data(2)]) simp_all
qed

text \<open>Entries that are filed under their own keys form the map they came from again.\<close>

lemma initial_store_of:
  assumes "\<And>v. v \<in> set l \<Longrightarrow> ca_Affiliate v \<noteq> None \<and> m (key_of v) = Some v"
    and "\<And>k v. m k = Some v \<Longrightarrow> v \<in> set l \<and> key_of v = k"
  shows "initial_store l = m"
proof -
  have "initial_store l = store_all (map (\<lambda>a. (key_of a, a)) l) Map.empty"
    using assms(1) by (simp add: initial_store_def filter_id_conv)
  also have "\<dots> = map_of (rev (map (\<lambda>a. (key_of a, a)) l))" by (simp add: store_all_map_of)
  also have "\<dots> = m"
  proof
    fix k show "map_of (rev (map (\<lambda>a. (key_of a, a)) l)) k = m k"
    proof (cases "m k")
      case None
      then have "k \<notin> key_of ` set l" using assms(1) by auto
      then show ?thesis using None by (simp add: map_of_eq_None_iff image_image)
    next
      case (Some v)
      then have v: "v \<in> set l" "key_of v = k" using assms(2) by blast+
      then have "k \<in> fst ` set (rev (map (\<lambda>a. (key_of a, a)) l))" by force
      then obtain u where u: "map_of (rev (map (\<lambda>a. (key_of a, a)) l)) k = Some u"
        by (metis (no_types, lifting) map_of_eq_None_iff not_None_eq)
      then have "(k, u) \<in> set (rev (map (\<lambda>a. (key_of a, a)) l))" by (rule map_of_SomeD)
      then have "u \<in> set l" "key_of u = k" by auto
      then show ?thesis using u Some assms(1) by fastforce
    qed
  qed
  finally show ?thesis .
qed

lemma reloaded_store:
  assumes "wf_map m" and "is_order ks m"
  shows "initial_store (map as_saved (map snd (range_over ks m))) = (\<lambda>k. map_option as_saved (m k))"
proof (rule initial_store_of)
  fix v assume "v \<in> set (map as_saved (map snd (range_over ks m)))"
  then obtain k u where u: "m k = Some u" "v = as_saved u" by (auto simp: set_range_over_order [OF assms(2)])
  then show "ca_Affiliate v \<noteq> None \<and> map_option as_saved (m (key_of v)) = Some v"
    using wf_mapD [OF assms(1) u(1)] by auto
next
  fix k v assume "map_option as_saved (m k) = Some v"
  then obtain u where u: "m k = Some u" "v = as_saved u" by auto
  then have "(k, u) \<in> set (range_over ks m)" by (simp add: set_range_over_order [OF assms(2)])
  then show "v \<in> set (map as_saved (map snd (range_over ks m))) \<and> key_of v = k"
    using u wf_mapD [OF assms(1) u(1)] by force
qed

text \<open>
  What a state provider promises its server: a list that was saved is loaded again. The server then has the
  map the list was collected from.
\<close>

locale saved_state =
  fixes load :: "os_world \<Rightarrow> cluster_affiliate list \<times> os_world"
    and save :: "cluster_affiliate list \<Rightarrow> os_world \<Rightarrow> os_world"
    and valid :: "cluster_affiliate \<Rightarrow> bool"
    and usable :: "os_world \<Rightarrow> bool"
  assumes load_save: "usable w \<Longrightarrow> list_all valid l \<Longrightarrow> load (save l w) = (map as_saved l, save l w)"
begin

lemma restored:
  assumes "usable w" and "wf_map m" and "is_order ks m" and "\<forall>a \<in> ran m. valid a"
  shows "initial_store (fst (load (save (map snd (range_over ks m)) w))) = (\<lambda>k. map_option as_saved (m k))"
proof -
  have "list_all valid (map snd (range_over ks m))"
    using assms(3,4) by (auto simp: list_all_iff set_range_over_order ran_def)
  then show ?thesis using load_save [OF assms(1)] reloaded_store [OF assms(2,3)] by simp
qed

end

interpretation state_file: saved_state "Load json (select_provider path)" "Save json (select_provider path)" valid
    "\<lambda>w. json_contract json valid \<and> path \<noteq> [] \<and> writable path w" for json path valid
  by unfold_locales (blast intro: Save_Load)

lemma New_affiliates:
  "affiliates_of (NewClusterDiscoveryServer w c [ClusterDiscoveryServerStateProvider l]) = initial_store l"
  by (simp add: NewClusterDiscoveryServer_def configured_def ClusterDiscoveryServerStateProvider_def Let_def)

section \<open>Restarts\<close>


text \<open>A codec for copies of one entry, and a world with an empty disk.\<close>

definition ex_codec :: json_codec where
  "ex_codec = \<lparr>Marshal = (\<lambda>l. Inr (CHR ''['' # replicate (length l) (CHR ''e''))),
     Unmarshal = (\<lambda>b. if b = [] then Inl ''unexpected end of JSON input''
                      else Inr (replicate (length (tl b)) (as_saved ex_entry)))\<rparr>"

definition ex_world :: os_world where
  "ex_world = \<lparr>files = Map.empty, unreadable = {}, create_fails = False, short_write = None, watch_log = []\<rparr>"

lemma ex_codec_contract: "json_contract ex_codec (\<lambda>v. v = ex_entry)"
proof -
  have "map as_saved l = replicate (length l) (as_saved ex_entry)" if "list_all (\<lambda>v. v = ex_entry) l" for l
    using that by (induction l) auto
  then show ?thesis by (simp add: json_contract_def ex_codec_def)
qed


section \<open>Failed writes\<close>

text \<open>
  C10. A save that fails after the file was created has destroyed the state that was saved before: \<^verbatim>\<open>os.Create\<close>
  truncates the file, so it holds the part that was written, and if that part is no JSON text the process
  starts again with no affiliates at all. A save that cannot create the file leaves the saved state alone.
\<close>

theorem failed_write_loses_state:
  assumes "path \<noteq> []" and "Marshal json l = Inr data" and "path \<notin> unreadable w"
    and "\<not> create_fails w" and "short_write w = Some n" and "Unmarshal json (take n data) = Inl err"
  shows "files (Save json (select_provider path) l w) path = Some (take n data)
    \<and> Load json (select_provider path) (Save json (select_provider path) l w) = ([], Save json (select_provider path) l w)
    \<and> affiliates_of (NewClusterDiscoveryServer v c [ClusterDiscoveryServerStateProvider
          (fst (Load json (select_provider path) (Save json (select_provider path) l w)))]) = Map.empty
    \<and> files (Save json (select_provider path) l (w\<lparr>create_fails := True\<rparr>)) = files w"
proof -
  have save: "Save json (select_provider path) l w = w\<lparr>files := (files w)(path \<mapsto> take n data), watch_log := watch_log w @ [l]\<rparr>"
    using assms by (simp add: select_provider_def AddWatch_def JSONFile_Save_def os_Create_def file_Write_def Let_def)
  have load: "Load json (select_provider path) (Save json (select_provider path) l w) = ([], Save json (select_provider path) l w)"
    using assms unfolding save by (simp add: select_provider_def AddWatch_def JSONFile_Load_def os_ReadFile_def)
  have "files (Save json (select_provider path) l (w\<lparr>create_fails := True\<rparr>)) = files w"
    using assms by (simp add: select_provider_def AddWatch_def JSONFile_Save_def os_Create_def Let_def)
  then show ?thesis unfolding load by (simp add: New_affiliates initial_store_def save)
qed

theorem failed_write_loses_state_witness:
  "let w = ex_world\<lparr>files := [''f'' \<mapsto> ''[e''], short_write := Some 0\<rparr>
   in fst (Load ex_codec (select_provider ''f'') w) = [as_saved ex_entry]
     \<and> fst (Load ex_codec (select_provider ''f'') (Save ex_codec (select_provider ''f'') [ex_entry, ex_entry] w)) = []"
proof -
  let ?w = "ex_world\<lparr>files := [''f'' \<mapsto> ''[e''], short_write := Some 0\<rparr>"
  have "Load ex_codec (select_provider ''f'') ?w = ([as_saved ex_entry], ?w)"
    by (rule Load_file [where data = "''[e''"]) (simp_all add: ex_world_def ex_codec_def)
  moreover have "fst (Load ex_codec (select_provider ''f'') (Save ex_codec (select_provider ''f'') [ex_entry, ex_entry] ?w)) = []"
    using failed_write_loses_state [of "''f''" ex_codec "[ex_entry, ex_entry]" "''[ee''" ?w 0]
    by (simp add: ex_codec_def ex_world_def)
  ultimately show ?thesis by simp
qed

end
