(* ===== verification/Discovery_Shutdown.thy ===== *)
theory Discovery_Shutdown
  imports Discovery_Properties
begin

text \<open>
  How a watch ends. A \<^verbatim>\<open>Watch\<close> handler returns when its client goes away, when a send fails, or when its
  channel is closed, and only \<^verbatim>\<open>ClusterDiscoveryServer.Close\<close> closes channels. The manager stops its
  gRPC server with \<^verbatim>\<open>GracefulStop\<close>, which waits for the handlers, and never calls \<^verbatim>\<open>Close\<close>.
\<close>

section \<open>The handler beside the server\<close>

text \<open>
  What the handler of channel \<open>c\<close> receives while its client stays connected: messages, or the end of a
  channel that is closed and drained. The server takes any steps but \<^verbatim>\<open>Close\<close>.
\<close>

inductive watch_run :: "nat \<Rightarrow> server \<Rightarrow> server \<Rightarrow> watch_event list \<Rightarrow> bool" for c s0 where
  entered: "watch_run c s0 s0 []"
| other_step: "watch_run c s0 s es \<Longrightarrow> server_step s e s' \<Longrightarrow> e \<noteq> ServerClosed \<Longrightarrow> (\<And>m. e \<noteq> Received c m)
    \<Longrightarrow> watch_run c s0 s' es"
| message: "watch_run c s0 s es \<Longrightarrow> server_step s (Received c m) s' \<Longrightarrow> watch_run c s0 s' (es @ [Receive (Some m) None])"
| closed: "watch_run c s0 s es \<Longrightarrow> chans s c = Some ch \<Longrightarrow> Closed ch \<Longrightarrow> Queue ch = []
    \<Longrightarrow> watch_run c s0 s (es @ [Receive None None])"

definition open_chan :: "nat \<Rightarrow> server \<Rightarrow> bool" where
  "open_chan c s \<longleftrightarrow> server_inv s \<and> (\<exists>ch. chans s c = Some ch \<and> \<not> Closed ch)"

lemma open_chan_serves: "open_chan c s \<Longrightarrow> serves s s' \<Longrightarrow> open_chan c s'"
  unfolding open_chan_def using serves_inv by (fastforce simp: serves_def after_messages_def)

lemma open_chan_registered:
  "server_inv (registered w c' s) \<Longrightarrow> open_chan c s \<or> c = c' \<Longrightarrow> open_chan c (registered w c' s)"
  by (auto simp: open_chan_def make_chan_def)

lemma open_chan_step:
  assumes "server_step s e s'" and "open_chan c s" and "e \<noteq> ServerClosed"
  shows "open_chan c s'"
proof -
  have inv: "server_inv s" using assms(2) by (simp add: open_chan_def)
  have inv': "server_inv s'" by (rule server_step_inv [OF assms(1) inv])
  from server_step_kind [OF assms(1) inv] show ?thesis
  proof cases
    case serving
    then show ?thesis using open_chan_serves assms(2) by blast
  next
    case (registering w c')
    then show ?thesis using open_chan_serves [OF open_chan_registered] assms(2) by blast
  qed (use assms(2,3) inv' in \<open>auto simp: open_chan_def Watch_end_def\<close>)
qed

lemma watch_run_open:
  "watch_run c s0 s es \<Longrightarrow> open_chan c s0 \<Longrightarrow> open_chan c s \<and> (\<exists>ms. es = map (\<lambda>m. Receive (Some m) None) ms)"
proof (induction rule: watch_run.induct)
  case (message s es m s')
  then obtain ms where ms: "es = map (\<lambda>m. Receive (Some m) None) ms" by blast
  have "open_chan c s'" using open_chan_step [OF message.hyps(2)] message by blast
  moreover have "es @ [Receive (Some m) None] = map (\<lambda>m. Receive (Some m) None) (ms @ [m])" by (simp add: ms)
  ultimately show ?case by blast
next
  case (closed s es ch)
  then show ?case by (simp add: open_chan_def)
qed (auto intro: open_chan_step)

lemma Watch_loop_messages:
  "snd (Watch_loop (Some cid) (map (\<lambda>m. Receive (Some m) None) ms @ es)) = snd (Watch_loop (Some cid) es)"
  by (induction ms) (auto split: option.split prod.split)

section \<open>Closing\<close>

lemma close_all_closes:
  "close_all ws vars cs = Ok cs' \<Longrightarrow>
     (\<forall>c ch. cs c = Some ch \<longrightarrow> Closed ch \<longrightarrow> (\<exists>ch'. cs' c = Some ch' \<and> Closed ch'))
     \<and> (\<forall>w \<in> set ws. \<forall>c. vars w = Some c \<longrightarrow> (\<exists>ch'. cs' c = Some ch' \<and> Closed ch'))"
proof (induction ws arbitrary: cs)
  case (Cons w ws)
  show ?case
  proof (cases "vars w")
    case None
    then show ?thesis using Cons by simp
  next
    case (Some c)
    then obtain ch where "cs c = Some ch" and rest: "close_all ws vars (cs(c \<mapsto> ch\<lparr>Closed := True\<rparr>)) = Ok cs'"
      using Cons.prems by (auto simp: close_chan_def and_then_Ok_iff split: option.splits if_splits)
    note Cons.IH [OF rest]
    moreover have "\<exists>ch'. cs' c = Some ch' \<and> Closed ch'" using calculation by (simp add: fun_upd_def)
    ultimately show ?thesis using Some \<open>cs c = Some ch\<close> by (auto simp: fun_upd_def split: if_splits)
  qed
qed simp

lemma Close_closes:
  assumes "Close s = Ok s'" and "w \<in> set (watchers s)" and "chanVars s w = Some c"
  shows "\<exists>ch. chans s' c = Some ch \<and> Closed ch"
  using assms close_all_closes by (fastforce simp: Close_def and_then_Ok_iff split: if_splits)

section \<open>Watches and shutdown\<close>



end
