(* ===== verification/MutexProtected.thy ===== *)
theory MutexProtected
  imports Discovery_Server
begin

text \<open>
  \<^verbatim>\<open>MutexProtected\<close> (\<^verbatim>\<open>internal/sync/mutex_protected.go\<close>), a value behind a mutex. Every critical section of
  the discovery server is a callback of \<^verbatim>\<open>With\<close>; the other theories model each as one step, which is sound
  because sections of one value exclude each other. What is left is the case in which a callback does not return.
\<close>

record 'a mutex_protected =
  mtx_locked :: bool
  mtx_value :: 'a

definition NewMutexProtected :: "'a \<Rightarrow> 'a mutex_protected" where
  "NewMutexProtected v = \<lparr>mtx_locked = False, mtx_value = v\<rparr>"

text \<open>
  \<^verbatim>\<open>With\<close>: how the call ends, and the mutex afterwards. A callback that blocks, or that panics, leaves the
  mutex locked, since \<^verbatim>\<open>Unlock\<close> is not deferred; what it wrote by then is not described.
\<close>

definition With :: "('a \<Rightarrow> 'a outcome) \<Rightarrow> 'a mutex_protected \<Rightarrow> unit outcome \<times> 'a mutex_protected" where
  "With callback p =
     (if mtx_locked p then (Blocked, p)
      else (case callback (mtx_value p) of
              Ok v \<Rightarrow> (Ok (), \<lparr>mtx_locked = False, mtx_value = v\<rparr>)
            | Blocked \<Rightarrow> (Blocked, p\<lparr>mtx_locked := True\<rparr>)
            | Panic e \<Rightarrow> (Panic e, p\<lparr>mtx_locked := True\<rparr>)))"

text \<open>Calls that return compose like their callbacks: each is one atomic step.\<close>

lemma With_returns:
  "\<not> mtx_locked p \<Longrightarrow> fst (With callback p) = Ok () \<longleftrightarrow> (\<exists>v. callback (mtx_value p) = Ok v \<and> mtx_value (snd (With callback p)) = v)"
  by (auto simp: With_def split: outcome.splits)

lemma With_With:
  assumes "fst (With f p) = Ok ()" and "fst (With g (snd (With f p))) = Ok ()"
  shows "With g (snd (With f p)) = With (\<lambda>v. and_then (f v) g) p"
  using assms by (auto simp: With_def split: outcome.splits if_splits)

text \<open>A call that did not return is the last one: all later calls block.\<close>

lemma With_stuck:
  assumes "fst (With f p) \<noteq> Ok ()"
  shows "fst (With g (snd (With f p))) = Blocked"
  using assms by (auto simp: With_def split: outcome.splits if_splits)

text \<open>
  So one watcher whose channel is full stops the server: after a broadcast that blocks on it, every other
  broadcast, and every call that broadcasts, blocks.
\<close>

lemma stalled_watcher_blocks:
  assumes "broadcast msg s = Blocked"
  shows "fst (With (broadcast msg') (snd (With (broadcast msg) (NewMutexProtected s)))) = Blocked"
  by (rule With_stuck) (simp add: With_def NewMutexProtected_def assms)

end
