(* ===== verification/Process.thy ===== *)
theory Process
  imports Discovery_Persist
begin

text \<open>
  The programs (\<^verbatim>\<open>cmd/dockyards-talos/main.go\<close>, \<^verbatim>\<open>cmd/discovery-service/main.go\<close>,
  \<^verbatim>\<open>cmd/dummy-discovery-client/main.go\<close>): their flags, and \<^verbatim>\<open>main\<close> as the trace of what it does with the
  libraries, up to how it ends. What the calls of the libraries return is given by a record.
\<close>

section \<open>Traces\<close>

datatype log_level = LevelDebug | LevelInfo | LevelWarn | LevelError

datatype grpc_option =
    KeepaliveEnforcementPolicy int bool
  | Creds string string

datatype action =
    PrintError
  | Listen string
  | NewDiscoveryServer state_provider int
  | NewGRPCServer "grpc_option list"
  | NewManager string
  | SetupReleases string
  | SetupLinkConfigs
  | SetupWebhook
  | ServeGRPC
  | StartManager
  | GracefulStop

text \<open>\<^verbatim>\<open>os.Exit\<close>, which does not run deferred calls, or a return from \<^verbatim>\<open>main\<close>.\<close>

datatype process_end = OsExit nat | Returned

type_synonym trace = "action list \<times> process_end"

definition act :: "action \<Rightarrow> trace \<Rightarrow> trace" where
  "act a t = (a # fst t, snd t)"

text \<open>\<^verbatim>\<open>if err != nil\<close>: the error is logged and the process exits.\<close>

definition exit_on :: "string option \<Rightarrow> trace \<Rightarrow> trace" where
  "exit_on err t = (if err = None then t else ([], OsExit 1))"

definition newLogger :: "string \<Rightarrow> string + log_level" where
  "newLogger logLevel =
     (if logLevel = ''debug'' then Inr LevelDebug
      else if logLevel = ''info'' then Inr LevelInfo
      else if logLevel = ''warn'' then Inr LevelWarn
      else if logLevel = ''error'' then Inr LevelError
      else Inl (''unknown log level '' @ logLevel))"

text \<open>The other two programs have a copy of the function each.\<close>

definition service_newLogger :: "string \<Rightarrow> string + log_level" where
  "service_newLogger logLevel =
     (if logLevel = ''debug'' then Inr LevelDebug
      else if logLevel = ''info'' then Inr LevelInfo
      else if logLevel = ''warn'' then Inr LevelWarn
      else if logLevel = ''error'' then Inr LevelError
      else Inl (''unknown log level '' @ logLevel))"

definition dummy_newLogger :: "string \<Rightarrow> string + log_level" where
  "dummy_newLogger logLevel =
     (if logLevel = ''debug'' then Inr LevelDebug
      else if logLevel = ''info'' then Inr LevelInfo
      else if logLevel = ''warn'' then Inr LevelWarn
      else if logLevel = ''error'' then Inr LevelError
      else Inl (''unknown log level '' @ logLevel))"

lemma newLogger_copies: "service_newLogger = newLogger" "dummy_newLogger = newLogger"
  by (simp_all add: service_newLogger_def dummy_newLogger_def newLogger_def fun_eq_iff)

definition with_logger :: "string + log_level \<Rightarrow> trace \<Rightarrow> trace" where
  "with_logger logger t = (case logger of Inl e \<Rightarrow> ([PrintError], OsExit 1) | Inr level \<Rightarrow> t)"

section \<open>The discovery server of both servers\<close>

record discovery_flags =
  discoveryBindAddress :: string
  discoveryStatePath :: string
  discoveryGCInterval :: int
  discoveryNoTLS :: bool
  discoveryTLSCertPath :: string
  discoveryTLSKeyPath :: string
  grpcKeepaliveMinTime :: int
  grpcKeepalivePermitWithoutStream :: bool

record process_world =
  Getwd :: "string option"
  net_Listen :: "string \<Rightarrow> string option"
  NewServerTLSFromFile :: "string \<Rightarrow> string \<Rightarrow> string option"
  GetConfig :: "string option"
  NewManager_error :: "string option"
  AddToScheme_clusterv1 :: "string option"
  AddToScheme_linkconfig :: "string option"
  SetupReleases_error :: "string option"
  SetupLinkConfigs_error :: "string option"
  SetupWebhook_error :: "string option"
  Serve_fails_first :: bool
  Serve_error :: "string option"
  Start_error :: "string option"

text \<open>Listening, the server with its state provider, and the gRPC server with its options; then the rest of \<^verbatim>\<open>main\<close>.\<close>

definition discovery_server :: "discovery_flags \<Rightarrow> process_world \<Rightarrow> trace \<Rightarrow> trace" where
  "discovery_server f w rest =
     exit_on (net_Listen w (discoveryBindAddress f))
       (act (Listen (discoveryBindAddress f))
         (act (NewDiscoveryServer (select_provider (discoveryStatePath f)) (discoveryGCInterval f))
           (let grpcOpts = [KeepaliveEnforcementPolicy (grpcKeepaliveMinTime f) (grpcKeepalivePermitWithoutStream f)];
                discoveryUseTLS = (\<not> discoveryNoTLS f)
            in if discoveryUseTLS
               then exit_on (NewServerTLSFromFile w (discoveryTLSCertPath f) (discoveryTLSKeyPath f))
                      (act (NewGRPCServer (grpcOpts @ [Creds (discoveryTLSCertPath f) (discoveryTLSKeyPath f)])) rest)
               else act (NewGRPCServer grpcOpts) rest)))"

section \<open>The discovery service\<close>

record service_flags =
  service_logLevel :: string
  service_discovery :: discovery_flags

definition service_defaults :: service_flags where
  "service_defaults = \<lparr>service_logLevel = ''debug'',
     service_discovery = \<lparr>discoveryBindAddress = ''localhost:6000'', discoveryStatePath = ''discovery_state.json'',
       discoveryGCInterval = minutes 1, discoveryNoTLS = False,
       discoveryTLSCertPath = ''/tmp/dockyards-talos/serving-certs/discovery-service/ca.crt'',
       discoveryTLSKeyPath = ''/tmp/dockyards-talos/serving-certs/discovery-service/ca.key'',
       grpcKeepaliveMinTime = 30 * ns_per_second, grpcKeepalivePermitWithoutStream = True\<rparr>\<rparr>"

definition discovery_service_main :: "service_flags \<Rightarrow> process_world \<Rightarrow> trace" where
  "discovery_service_main f w =
     with_logger (service_newLogger (service_logLevel f))
       (exit_on (Getwd w)
         (discovery_server (service_discovery f) w
           (act ServeGRPC (exit_on (Serve_error w) ([], Returned)))))"

section \<open>The controller manager\<close>

record manager_flags =
  logLevel :: string
  enableWebhooks :: bool
  imageFactoryHost :: string
  metricsBindAddress :: string
  enableDiscoveryService :: bool
  manager_discovery :: discovery_flags

definition manager_defaults :: manager_flags where
  "manager_defaults = \<lparr>logLevel = ''debug'', enableWebhooks = False, imageFactoryHost = ''factory.talos.dev'',
     metricsBindAddress = ''0'', enableDiscoveryService = False,
     manager_discovery = \<lparr>discoveryBindAddress = '':6000'', discoveryStatePath = ''discovery_state.json'',
       discoveryGCInterval = minutes 1, discoveryNoTLS = True,
       discoveryTLSCertPath = ''/tmp/dockyards-talos/serving-certs/discovery-service/ca.crt'',
       discoveryTLSKeyPath = ''/tmp/dockyards-talos/serving-certs/discovery-service/ca.key'',
       grpcKeepaliveMinTime = 30 * ns_per_second, grpcKeepalivePermitWithoutStream = True\<rparr>\<rparr>"

text \<open>
  The manager runs beside the gRPC server: either \<^verbatim>\<open>Serve\<close> fails first and its goroutine exits the process, or
  \<^verbatim>\<open>Start\<close> returns. An exit skips the deferred \<^verbatim>\<open>GracefulStop\<close>.
\<close>

definition run_manager :: "bool \<Rightarrow> process_world \<Rightarrow> trace" where
  "run_manager serving w =
     (let started = act StartManager
            (if serving \<and> Serve_fails_first w \<and> Serve_error w \<noteq> None then ([], OsExit 1)
             else exit_on (Start_error w) (if serving then ([GracefulStop], Returned) else ([], Returned)))
      in if serving then act ServeGRPC started else started)"

definition setup_manager :: "manager_flags \<Rightarrow> process_world \<Rightarrow> trace \<Rightarrow> trace" where
  "setup_manager f w rest =
     exit_on (GetConfig w)
      (exit_on (NewManager_error w)
       (act (NewManager (metricsBindAddress f))
        (exit_on (AddToScheme_clusterv1 w)
         (exit_on (AddToScheme_linkconfig w)
          (exit_on (SetupReleases_error w)
           (act (SetupReleases (imageFactoryHost f))
            (exit_on (SetupLinkConfigs_error w)
             (act SetupLinkConfigs
              (if enableWebhooks f then exit_on (SetupWebhook_error w) (act SetupWebhook rest) else rest)))))))))"

definition dockyards_talos_main :: "manager_flags \<Rightarrow> process_world \<Rightarrow> trace" where
  "dockyards_talos_main f w =
     with_logger (newLogger (logLevel f))
       (exit_on (Getwd w)
         (if enableDiscoveryService f
          then discovery_server (manager_discovery f) w (setup_manager f w (run_manager True w))
          else setup_manager f w (run_manager False w)))"

section \<open>The dummy client\<close>

record dummy_flags =
  dummy_logLevel :: string
  dummy_address :: string
  dummy_cluster :: string
  dummy_affiliate :: string
  dummy_ttl :: int

definition dummy_defaults :: dummy_flags where
  "dummy_defaults = \<lparr>dummy_logLevel = ''info'', dummy_address = ''localhost:3000'', dummy_cluster = [],
     dummy_affiliate = [], dummy_ttl = 10 * ns_per_second\<rparr>"

datatype dummy_call =
    DummyPrintError
  | DummyDial string
  | DummyList string
  | DummyUpdate affiliate_update_request
  | DummyWatch string
  | DummyLog string bool

datatype received = ReceivedEOF | ReceivedError string | ReceivedMessage "string list" bool

record dummy_world =
  dummy_Getwd :: "string option"
  dummy_NewClient :: "string \<Rightarrow> string option"
  dummy_List :: "string \<Rightarrow> string + string list"
  dummy_AffiliateUpdate :: "affiliate_update_request \<Rightarrow> string option"
  dummy_Watch :: "string \<Rightarrow> string option"

text \<open>The loop over the stream: \<open>None\<close> when it still waits for a message.\<close>

fun dummy_loop :: "received list \<Rightarrow> dummy_call list \<times> process_end option" where
  "dummy_loop [] = ([], None)"
| "dummy_loop (ReceivedEOF # rs) = ([], Some Returned)"
| "dummy_loop (ReceivedError e # rs) = ([], Some (OsExit 1))"
| "dummy_loop (ReceivedMessage ids deleted # rs) =
     (let (calls, stop) = dummy_loop rs in (map (\<lambda>i. DummyLog i deleted) ids @ calls, stop))"

definition dummy_main :: "dummy_flags \<Rightarrow> dummy_world \<Rightarrow> received list \<Rightarrow> dummy_call list \<times> process_end option" where
  "dummy_main f w rs =
     (case dummy_newLogger (dummy_logLevel f) of
        Inl e \<Rightarrow> ([DummyPrintError], Some (OsExit 1))
      | Inr level \<Rightarrow>
          if dummy_Getwd w \<noteq> None then ([], Some (OsExit 1))
          else if dummy_NewClient w (dummy_address f) \<noteq> None then ([DummyDial (dummy_address f)], Some (OsExit 1))
          else
            let update = \<lparr>upd_ClusterId = dummy_cluster f, upd_AffiliateId = dummy_affiliate f,
                          upd_AffiliateData = None, upd_AffiliateEndpoints = [], upd_Ttl = dummy_ttl f\<rparr>;
                listing = [DummyDial (dummy_address f), DummyList (dummy_cluster f)]
            in (case dummy_List w (dummy_cluster f) of
                  Inl e \<Rightarrow> (listing, Some (OsExit 1))
                | Inr ids \<Rightarrow>
                    let updating = listing @ map (\<lambda>i. DummyLog i False) ids @ [DummyUpdate update]
                    in if dummy_AffiliateUpdate w update \<noteq> None then (updating, Some (OsExit 1))
                       else if dummy_Watch w (dummy_cluster f) \<noteq> None
                       then (updating @ [DummyWatch (dummy_cluster f)], Some (OsExit 1))
                       else let (calls, stop) = dummy_loop rs
                            in (updating @ DummyWatch (dummy_cluster f) # calls, stop)))"

section \<open>Safety of the servers\<close>

lemma trace_simps [simp]:
  "fst (act a t) = a # fst t" "snd (act a t) = snd t"
  "fst (exit_on err t) = (if err = None then fst t else [])"
  by (simp_all add: act_def exit_on_def)

lemma run_manager_actions [simp]:
  "a \<in> set (fst (run_manager serving w)) \<longleftrightarrow>
     a = StartManager \<or> serving \<and> a = ServeGRPC
     \<or> serving \<and> a = GracefulStop \<and> Start_error w = None \<and> \<not> (Serve_fails_first w \<and> Serve_error w \<noteq> None)"
  by (auto simp: run_manager_def Let_def)

definition manager_ready :: "manager_flags \<Rightarrow> process_world \<Rightarrow> bool" where
  "manager_ready f w \<longleftrightarrow> GetConfig w = None \<and> NewManager_error w = None \<and> AddToScheme_clusterv1 w = None
     \<and> AddToScheme_linkconfig w = None \<and> SetupReleases_error w = None \<and> SetupLinkConfigs_error w = None
     \<and> (enableWebhooks f \<longrightarrow> SetupWebhook_error w = None)"

lemma setup_manager_rest:
  "a \<in> set (fst (setup_manager f w t)) \<Longrightarrow>
     a \<in> {NewManager (metricsBindAddress f), SetupReleases (imageFactoryHost f), SetupLinkConfigs, SetupWebhook}
     \<or> manager_ready f w \<and> a \<in> set (fst t)"
  by (auto simp: setup_manager_def manager_ready_def split: if_splits)

lemma setup_manager_ready:
  "manager_ready f w \<Longrightarrow> fst (setup_manager f w t) =
     [NewManager (metricsBindAddress f), SetupReleases (imageFactoryHost f), SetupLinkConfigs]
     @ (if enableWebhooks f then [SetupWebhook] else []) @ fst t"
  by (simp add: setup_manager_def manager_ready_def)

lemma discovery_server_rest:
  "a \<in> set (fst (discovery_server f w t)) \<Longrightarrow>
     a = Listen (discoveryBindAddress f)
     \<or> a = NewDiscoveryServer (select_provider (discoveryStatePath f)) (discoveryGCInterval f)
     \<or> a = NewGRPCServer (KeepaliveEnforcementPolicy (grpcKeepaliveMinTime f) (grpcKeepalivePermitWithoutStream f)
            # (if discoveryNoTLS f then [] else [Creds (discoveryTLSCertPath f) (discoveryTLSKeyPath f)]))
     \<or> a \<in> set (fst t)"
  by (auto simp: discovery_server_def Let_def split: if_splits)

text \<open>
  C40. The manager never serves discovery without being asked to, and never without TLS unless TLS was
  disabled: a gRPC server is only built with the keepalive policy of the flags and, unless
  \<^verbatim>\<open>--no-discovery-tls\<close>, with the credentials of the flags. Nothing is served and the manager is not started
  unless every controller, and the webhook when it is enabled, was set up; with an unknown log level nothing
  happens at all.
\<close>

theorem manager_serves_as_asked:
  assumes "a \<in> set (fst (dockyards_talos_main f w))"
  shows "(a = ServeGRPC \<or> a = StartManager \<longrightarrow> manager_ready f w \<and> (a = ServeGRPC \<longrightarrow> enableDiscoveryService f))
    \<and> (\<forall>opts. a = NewGRPCServer opts \<longrightarrow> enableDiscoveryService f
          \<and> opts = KeepaliveEnforcementPolicy (grpcKeepaliveMinTime (manager_discovery f))
                     (grpcKeepalivePermitWithoutStream (manager_discovery f))
                   # (if discoveryNoTLS (manager_discovery f) then []
                      else [Creds (discoveryTLSCertPath (manager_discovery f)) (discoveryTLSKeyPath (manager_discovery f))]))
    \<and> (\<forall>p i. a = NewDiscoveryServer p i \<longrightarrow> enableDiscoveryService f
          \<and> p = select_provider (discoveryStatePath (manager_discovery f)) \<and> i = discoveryGCInterval (manager_discovery f))
    \<and> (logLevel f \<notin> {''debug'', ''info'', ''warn'', ''error''} \<longrightarrow> a = PrintError)"
proof (cases "logLevel f \<in> {''debug'', ''info'', ''warn'', ''error''}")
  case False
  then have "a = PrintError" using assms by (simp add: dockyards_talos_main_def with_logger_def newLogger_def)
  then show ?thesis by simp
next
  case True
  then have a: "a \<in> set (fst (if enableDiscoveryService f
          then discovery_server (manager_discovery f) w (setup_manager f w (run_manager True w))
          else setup_manager f w (run_manager False w)))"
    using assms by (auto simp: dockyards_talos_main_def with_logger_def newLogger_def split: if_splits)
  show ?thesis
  proof (cases "enableDiscoveryService f")
    case enabled: True
    then have "a \<in> set (fst (discovery_server (manager_discovery f) w (setup_manager f w (run_manager True w))))"
      using a by simp
    from discovery_server_rest [OF this] show ?thesis using enabled True by (auto dest!: setup_manager_rest)
  next
    case False
    then have "a \<in> set (fst (setup_manager f w (run_manager False w)))" using a by simp
    from setup_manager_rest [OF this] show ?thesis using True by auto
  qed
qed

definition ex_process :: process_world where
  "ex_process = \<lparr>Getwd = None, net_Listen = (\<lambda>a. None), NewServerTLSFromFile = (\<lambda>c k. None), GetConfig = None,
     NewManager_error = None, AddToScheme_clusterv1 = None, AddToScheme_linkconfig = None, SetupReleases_error = None,
     SetupLinkConfigs_error = None, SetupWebhook_error = None, Serve_fails_first = False, Serve_error = None,
     Start_error = None\<rparr>"

definition ex_flags :: manager_flags where
  "ex_flags = manager_defaults\<lparr>enableDiscoveryService := True\<rparr>"

theorem manager_serves_as_asked_witness:
  "ServeGRPC \<in> set (fst (dockyards_talos_main ex_flags ex_process)) \<and> manager_ready ex_flags ex_process"
proof -
  have "ServeGRPC \<in> set (fst (dockyards_talos_main ex_flags ex_process))"
    by (simp add: dockyards_talos_main_def with_logger_def newLogger_def discovery_server_def setup_manager_def
        ex_flags_def manager_defaults_def ex_process_def Let_def)
  then show ?thesis using manager_serves_as_asked [of ServeGRPC ex_flags ex_process] by simp
qed

text \<open>The dummy client returns normally only when the server ends the stream.\<close>

lemma dummy_loop_returns: "snd (dummy_loop rs) = Some Returned \<Longrightarrow> ReceivedEOF \<in> set rs"
  by (induction rs rule: dummy_loop.induct) (auto split: prod.splits)

lemma dummy_main_returns: "snd (dummy_main f w rs) = Some Returned \<Longrightarrow> ReceivedEOF \<in> set rs"
  using dummy_loop_returns
  by (auto simp: dummy_main_def Let_def split: sum.splits if_splits prod.splits)

end
