(* ===== verification/Spec2Isabelle.thy ===== *)
theory Spec2Isabelle
  imports Discovery_Properties Routes_Properties LinkConfig_History Controller_Setup Release_Properties
    NodePool_Webhook Discovery_Hello Discovery_Restart Discovery_Shutdown MutexProtected Process
begin

text \<open>
  A verification of \<^verbatim>\<open>dockyards-talos\<close>, the component of Dockyards that runs two Kubernetes controllers, a
  webhook and a discovery service for Talos clusters.

  \<^bigskip> \<^bold>\<open>The program.\<close> \<^verbatim>\<open>cmd/dockyards-talos/main.go\<close> starts a controller manager with \<^verbatim>\<open>LinkConfigReconciler\<close>, which brings
  the routes of a \<^verbatim>\<open>LinkConfig\<close> to the machine config of every Talos node that selects it, through
  \<^verbatim>\<open>TalosInjector\<close>; with \<^verbatim>\<open>DockyardsReleaseReconciler\<close>, which publishes versions and disk images in the status of
  releases; and optionally with the node pool webhook and the discovery service, which
  \<^verbatim>\<open>cmd/discovery-service/main.go\<close> runs alone. The discovery service keeps the affiliates of clusters in a map,
  broadcasts every change to watchers, and saves its state through a goroutine that follows the broadcasts.

  \<^bigskip> \<^bold>\<open>Shared vocabulary.\<close>
  \<^item> \<open>Prelude\<close>: byte strings, Go maps (nil or not) and the order of \<^verbatim>\<open>range\<close> loops as an argument of the loop,
    outcomes of calls that return, block or panic, \<^verbatim>\<open>sort.Strings\<close> on collected sets, \<^verbatim>\<open>strings.TrimSpace\<close>.
  \<^item> \<open>GoTime\<close>, \<open>NetIP\<close>, \<open>NetIP_Text\<close>, \<open>GoURL\<close>, \<open>GoUTF8\<close>, \<open>GoJSON\<close>, \<open>GoJSON_Value\<close>, \<open>GoJSON_Decode\<close>: what the code uses
    of Go's \<^verbatim>\<open>time\<close>, \<^verbatim>\<open>net\<close>, \<^verbatim>\<open>net/netip\<close>, \<^verbatim>\<open>strconv\<close>, \<^verbatim>\<open>path\<close>, \<^verbatim>\<open>net/url\<close>, \<^verbatim>\<open>unicode/utf8\<close> and \<^verbatim>\<open>encoding/json\<close>, as
    definitions that follow the library. Their lemmas: two clocks and deadlines; the texts of addresses,
    prefixes and URLs determine them; printing and parsing JSON is a round trip, and decoding only stores valid
    UTF-8 and numbers in range.
  \<^item> \<open>Kube\<close>: keys of objects, results of \<^verbatim>\<open>Get\<close>, and the contract of \<^verbatim>\<open>CreateOrPatch\<close>.
  \<^item> \<open>MutexProtected\<close> (\<^verbatim>\<open>internal/sync/mutex_protected.go\<close>): sections exclude each other, and one that does not
    return blocks all later ones.

  \<^bigskip> \<^bold>\<open>The discovery service\<close> (\<^verbatim>\<open>internal/discovery\<close>).
  \<^item> \<open>Discovery_Store\<close>: the map \<^verbatim>\<open>ClusterAffiliates\<close> with one definition per critical section, and what each does
    to a well-formed map.
  \<^item> \<open>Discovery_Server\<close>: the server's state with its watchers as weak pointers to variables that hold channels, the
    handlers composed of the sections, the garbage collection loop, \<^verbatim>\<open>NewClusterDiscoveryServer\<close> and \<^verbatim>\<open>Close\<close>.
  \<^item> \<open>Discovery_Persist\<close>: \<^verbatim>\<open>statePersister\<close> and the state providers, on a model of the files they use.
  \<^item> \<open>Discovery_Messages\<close>, \<open>Discovery_Mirror\<close>, \<open>Discovery_System\<close>: the messages each operation sends, the interface
    \<open>mirror\<close> of those who follow them (interpreted for the persister and for a watching client), and the server
    as a step relation with its invariant \<open>server_inv\<close> and the runs of a follower beside it.
  \<^item> \<open>Discovery_Properties\<close>, \<open>Discovery_Restart\<close>, \<open>Discovery_Shutdown\<close>, \<open>Discovery_Hello\<close>: effects of updates and deletes, time to live,
    exact listings, what watchers see; the persister refines the map, and starves once its channel variable
    is reclaimed; a restart restores the map (by the interface \<open>saved_state\<close>), a failed write loses it;
    only \<^verbatim>\<open>Close\<close> ends the watch of a client that stays;
    \<^verbatim>\<open>Hello\<close> answers with the peer's address.

  \<^bigskip> \<^bold>\<open>Routes\<close> (\<^verbatim>\<open>internal/routes\<close>). \<open>Routes_Config\<close> computes the wanted routes and rewrites the link documents of a
  machine config, \<open>Routes_Apply\<close> is \<^verbatim>\<open>EnsureRoutes\<close> with the wait for the routes. \<open>Routes_Facts\<close>,
  \<open>Routes_Apply_Facts\<close> and \<open>Routes_Properties\<close> show that after a success the managed interfaces have exactly the
  wanted routes, that nothing is sent when nothing has to change, and that the wait ends; \<open>Routes_Pruning\<close> follows
  the interfaces that have routes through a call.

  \<^bigskip> \<^bold>\<open>Controllers and webhook\<close> (\<^verbatim>\<open>controllers\<close>, \<^verbatim>\<open>api/v1alpha3\<close>, \<^verbatim>\<open>webhooks\<close>).
  \<^item> \<open>LinkConfig_API\<close>: the API types with their deep copies, on a heap, and their registration.
  \<^item> \<open>LinkConfig_JSON\<close>: the state annotation and OVN's pod networks, with their struct tags, and the round trip of
    the annotation (by the interface \<open>text_codec\<close>).
  \<^item> \<open>LinkConfig_Controller\<close>, \<open>LinkConfig_Facts\<close>, \<open>LinkConfig_Properties\<close>: \<^verbatim>\<open>Reconcile\<close> on a record of the cluster's
    objects; errors keep the cluster, successes are recorded, removed routes are pruned, deleted link
    configs are cleaned up, gateways come from the machine's network, repetition changes nothing.
  \<^item> \<open>LinkConfig_History\<close>: the histories of one machine and its node as an inductive predicate (edits, configs
    applied by others, reconciliations with any result); its invariant accounts for every interface that has routes
    on the node, and a success leaves only those of the selected link config.
  \<^item> \<open>Release_Controller\<close>, \<open>Release_Properties\<close>: image repositories and policies, published versions and URLs.
  \<^item> \<open>NodePool_Webhook\<close>: the memory limit of node pools.
  \<^item> \<open>Controller_Setup\<close>: the \<^verbatim>\<open>Setup\<close> functions, and the interface \<open>event_source\<close>, interpreted for the events of link
    configs: a machine that no event wakes up would not be reconciled differently.

  \<^bigskip> \<^bold>\<open>Programs\<close> (\<^verbatim>\<open>cmd\<close>). \<open>Process\<close> has the flags with their defaults and each \<^verbatim>\<open>main\<close> as the trace of its calls.

  \<^bigskip> \<^bold>\<open>Parameters.\<close> What is not in the repository is an argument: the Talos client, machinery and YAML libraries
  (\<open>talos_env\<close>, \<open>config_lib\<close>), the Kubernetes client and its failures (\<open>env\<close> of either controller), the semver
  library, resource quantities, the list of platforms, the manager with its event delivery and the scheme
  (\<open>manager_lib\<close>, \<open>scheme_lib\<close>), and JSON of the generated protobuf type
  (\<open>json_codec\<close>). What the code relies on is a named hypothesis (\<open>wf_lib\<close>, \<open>codec_roundtrip\<close>, \<open>codec_trim\<close>, \<open>reads_config\<close>,
  \<open>patch_contract\<close>, \<open>patch_failure_contract\<close>, \<open>lists_machines\<close>, \<open>enqueue_contract\<close>, \<open>create_or_patch_contract\<close>, \<open>quantity_contract\<close>, \<open>json_contract\<close>), and each property with one has a witness on
  concrete functions.

  \<^bigskip> \<^bold>\<open>Bounds.\<close> Loops end by structural recursion or a measure; \<^verbatim>\<open>parseIPv6\<close> by the groups it still may read. JSON
  nests at most 10000 levels, the limit of the library; the length tests in its parser are there for
  termination and never fail (\<open>parse_shorter\<close>). The wait for routes and the event loops take the list of their
  rounds, where \<open>None\<close> means that they still wait; the wait returns within seventeen rounds of two seconds,
  its timeout being thirty.

  \<^bigskip> \<^bold>\<open>Not modelled.\<close> Logging; \<^verbatim>\<open>generate.go\<close>, which only holds \<^verbatim>\<open>go:generate\<close> directives. The texts of error messages are
  constructors. Folding of JSON keys covers the runes that fold to ASCII, the only ones the struct tags need.
\<close>

end
